(* ===== verification/Protocol_Types.thy ===== *)
theory Protocol_Types
  imports Prelude
begin

text \<open>
  Data of the orchestrator/worker protocol
  (\<open>crates/worker-protocol/src/types.rs\<close>): identifiers, pod and network
  configuration, endpoint tables and the commands sent to a worker.  Structs are
  records, enums are datatypes with the constructors of the source.
\<close>

section \<open>Identifiers\<close>

datatype worker_id = WorkerId u64
datatype proto_pod_id = ProtoPodId u64
datatype service_id = ServiceId u64
datatype pool_id = PoolId string
datatype artifact_id = ArtifactId string

record namespace_id =
  ns_name :: string
  ns_incarnation :: u64

text \<open>\<open>derive(PartialOrd, Ord)\<close> on the \<open>u64\<close> newtypes.\<close>

fun worker_id_val :: "worker_id \<Rightarrow> u64" where
  "worker_id_val (WorkerId n) = n"

fun service_id_val :: "service_id \<Rightarrow> u64" where
  "service_id_val (ServiceId n) = n"

fun proto_pod_id_val :: "proto_pod_id \<Rightarrow> u64" where
  "proto_pod_id_val (ProtoPodId n) = n"

lemma worker_id_val_inj [simp]: "worker_id_val a = worker_id_val b \<longleftrightarrow> a = b"
  by (cases a; cases b) simp

lemma service_id_val_inj [simp]: "service_id_val a = service_id_val b \<longleftrightarrow> a = b"
  by (cases a; cases b) simp

lemma proto_pod_id_val_inj [simp]: "proto_pod_id_val a = proto_pod_id_val b \<longleftrightarrow> a = b"
  by (cases a; cases b) simp

instantiation worker_id :: linorder
begin
definition less_eq_worker_id :: "worker_id \<Rightarrow> worker_id \<Rightarrow> bool" where
  "less_eq_worker_id a b \<longleftrightarrow> worker_id_val a \<le> worker_id_val b"
definition less_worker_id :: "worker_id \<Rightarrow> worker_id \<Rightarrow> bool" where
  "less_worker_id a b \<longleftrightarrow> worker_id_val a < worker_id_val b"
instance
  by standard (auto simp: less_eq_worker_id_def less_worker_id_def less_le_not_le antisym)
end

instantiation service_id :: linorder
begin
definition less_eq_service_id :: "service_id \<Rightarrow> service_id \<Rightarrow> bool" where
  "less_eq_service_id a b \<longleftrightarrow> service_id_val a \<le> service_id_val b"
definition less_service_id :: "service_id \<Rightarrow> service_id \<Rightarrow> bool" where
  "less_service_id a b \<longleftrightarrow> service_id_val a < service_id_val b"
instance
  by standard (auto simp: less_eq_service_id_def less_service_id_def less_le_not_le antisym)
end

instantiation proto_pod_id :: linorder
begin
definition less_eq_proto_pod_id :: "proto_pod_id \<Rightarrow> proto_pod_id \<Rightarrow> bool" where
  "less_eq_proto_pod_id a b \<longleftrightarrow> proto_pod_id_val a \<le> proto_pod_id_val b"
definition less_proto_pod_id :: "proto_pod_id \<Rightarrow> proto_pod_id \<Rightarrow> bool" where
  "less_proto_pod_id a b \<longleftrightarrow> proto_pod_id_val a < proto_pod_id_val b"
instance
  by standard (auto simp: less_eq_proto_pod_id_def less_proto_pod_id_def less_le_not_le antisym)
end

section \<open>Network and pod configuration\<close>

record network_config =
  nc_subnet :: ipv4
  nc_gateway :: ipv4
  nc_prefix_len :: u8
  nc_segment_id :: "u16 option"

record pod_network_config =
  pn_ip :: ipv4
  pn_mac :: "u8 list"
  pn_gateway :: ipv4
  pn_netmask :: string

record volume_mount_spec =
  vm_name :: string
  vm_mount_path :: string

record container_config =
  cc_command :: "string list option"
  cc_args :: "string list option"
  cc_env :: "string list"
  cc_working_dir :: "string option"
  cc_user :: "string option"
  cc_hostname :: "string option"
  cc_capture_output :: bool
  cc_stdin :: bool
  cc_volume_mounts :: "volume_mount_spec list"

record config_data_file =
  cd_path :: string
  cd_content :: string
  cd_mode :: u32

datatype volume_type = EmptyDir u64 | ConfigData "config_data_file list"

record volume_spec =
  vs_name :: string
  vs_volume_type :: volume_type

record container_spec =
  cs_container_id :: string
  cs_image_ref :: string
  cs_config :: container_config

record registry_entry =
  re_name :: string
  re_ip :: ipv4

datatype activator_config = ActTcp u32 | ActHttp2

record resource_values =
  rv_memory_mib :: u64
  rv_vcpus :: u32

record resource_requirements =
  rr_requests :: "resource_values option"
  rr_limits :: "resource_values option"

record port_config =
  pc_port :: u16
  pc_target_port :: u16
  pc_activator :: "activator_config option"

record service_policy =
  sp_ports :: "port_config list"
  sp_buffer_frames :: u32
  sp_timeout_ms :: u32

section \<open>Endpoint tables\<close>

record endpoint_placement =
  epl_worker_id :: worker_id

record endpoint_pod_backend =
  epb_pod_ip :: ipv4
  epb_placement :: "endpoint_placement option"
  epb_ready :: bool

datatype proto_endpoint_kind =
    PkService service_id service_policy "endpoint_pod_backend option"
  | PkPod "endpoint_placement option"
  | PkWireGuardPeer "endpoint_placement option"

record endpoint_spec =
  es_ip :: ipv4
  es_kind :: proto_endpoint_kind

section \<open>Commands to a worker\<close>

record pool_info =
  pi_pool_id :: pool_id
  pi_path :: string
  pi_capacity_bytes :: u64
  pi_available_bytes :: u64

record worker_capabilities =
  wc_has_kvm :: bool
  wc_has_containerd :: bool
  wc_available_adapters :: "string list"
  wc_max_pods :: u32
  wc_available_memory_mb :: u64
  wc_public_endpoint :: string
  wc_pools :: "pool_info list"

record worker_peer_info =
  wp_worker_id :: worker_id
  wp_endpoint :: string
  wp_public_key :: "u8 list"
  wp_segments :: "u16 list"

datatype worker_command =
    CreateNamespace namespace_id network_config
  | DestroyNamespace namespace_id
  | RegistrySync namespace_id "registry_entry list"
  | RegistryUpdate namespace_id "registry_entry list" "string list"
  | LaunchPod namespace_id proto_pod_id pod_network_config "container_spec list"
      "resource_requirements option" "volume_spec list"
  | StopPod namespace_id proto_pod_id bool
  | AddWireGuardPeer namespace_id "u8 list" ipv4 "u8 list option"
  | RemoveWireGuardPeer "u8 list"
  | SuspendPod namespace_id proto_pod_id artifact_id pool_id
  | ResumePod namespace_id proto_pod_id artifact_id pod_network_config pool_id
  | DeleteArtifact artifact_id pool_id
  | TransferArtifact u64 artifact_id pool_id artifact_id pool_id "string option"
  | WorkerRegistrySync "worker_peer_info list"
  | EndpointSync namespace_id "endpoint_spec list"
  | EndpointUpdate namespace_id "endpoint_spec list" "ipv4 list"
  | Shutdown

end
