(* ===== verification/Router_Core.thy ===== *)
theory Router_Core
  imports Prelude
begin

text \<open>
  The data structures of the signal router (\<open>crates/sm-router/src\<close>): the
  bidirectional \<open>EdgeMap\<close>, the sequential id allocator, the incremental diff
  that drives the port adapters, and the delivery groups of manual
  propagation.

  An \<open>EdgeMap\<close> refines a relation between sources and targets: the interface
  \<open>edge_store\<close> states what the router relies on, and the map of the source is
  shown to provide it.
\<close>

section \<open>Sequential identifiers\<close>

text \<open>\<open>SequentialIds\<close> keeps one wrapping counter per automatically numbered kind.\<close>

type_synonym 'k seq_ids = "'k \<Rightarrow> u64"

definition seq_ids_new :: "'k seq_ids" where
  "seq_ids_new = (\<lambda>_. 0)"

definition seq_ids_alloc :: "'k \<Rightarrow> 'k seq_ids \<Rightarrow> u64 \<times> 'k seq_ids" where
  "seq_ids_alloc kind counters = (counters kind, counters(kind := counters kind + 1))"

fun seq_ids_alloc_many :: "'k list \<Rightarrow> 'k seq_ids \<Rightarrow> ('k \<times> u64) list \<times> 'k seq_ids" where
  "seq_ids_alloc_many [] c = ([], c)"
| "seq_ids_alloc_many (k # ks) c =
     (let (i, c) = seq_ids_alloc k c; (is, c) = seq_ids_alloc_many ks c in ((k, i) # is, c))"

lemma seq_ids_alloc_many_ids:
  "(k, i) \<in> set (fst (seq_ids_alloc_many ks c)) \<Longrightarrow>
   \<exists>n < length (filter ((=) k) ks). i = c k + of_nat n"
proof (induction ks arbitrary: c)
  case (Cons k' ks)
  show ?case
  proof (cases "k' = k \<and> i = c k")
    case True
    then show ?thesis by (intro exI [of _ 0]) auto
  next
    case False
    with Cons.prems have "(k, i) \<in> set (fst (seq_ids_alloc_many ks (c(k' := c k' + 1))))"
      by (auto simp: seq_ids_alloc_def Let_def split: prod.splits)
    from Cons.IH [OF this] obtain n where
      "n < length (filter ((=) k) ks)" "i = (c(k' := c k' + 1)) k + of_nat n" by blast
    then show ?thesis
      by (cases "k' = k") (auto intro!: exI [of _ "if k' = k then Suc n else n"])
  qed
qed simp

text \<open>Fewer than $2^{64}$ allocations of a kind never repeat an identifier.\<close>

lemma seq_ids_alloc_many_distinct:
  assumes "length ks < 2 ^ 64"
  shows "distinct (fst (seq_ids_alloc_many ks c))"
  using assms
proof (induction ks arbitrary: c)
  case (Cons k ks)
  have "(k, c k) \<notin> set (fst (seq_ids_alloc_many ks (c(k := c k + 1))))"
  proof
    assume "(k, c k) \<in> set (fst (seq_ids_alloc_many ks (c(k := c k + 1))))"
    from seq_ids_alloc_many_ids [OF this] obtain n where
      n: "n < length (filter ((=) k) ks)" "c k = c k + 1 + of_nat n" by auto
    then have "(of_nat (Suc n) :: u64) = 0" by simp
    then have "2 ^ 64 dvd Suc n"
      unfolding word_of_nat_eq_0_iff by simp
    moreover have "Suc n < 2 ^ 64"
      using n(1) Cons.prems length_filter_le [of "(=) k" ks]
      by (metis Suc_leI Suc_lessD le_trans length_Cons not_le)
    ultimately show False by (meson Suc_neq_Zero nat_dvd_not_less zero_less_Suc)
  qed
  moreover have "distinct (fst (seq_ids_alloc_many ks (c(k := c k + 1))))"
    using Cons by simp
  ultimately show ?case
    by (simp add: seq_ids_alloc_def Let_def split: prod.split)
       (metis fst_conv)
qed simp

section \<open>Edge maps\<close>

record 't edge_diff =
  ed_added :: "'t list"
  ed_removed :: "'t list"

definition all_changed :: "'t edge_diff \<Rightarrow> 't list" where
  "all_changed d = ed_removed d @ ed_added d"

record ('s, 't) edge_map =
  em_fwd :: "('s, 't list) omap"
  em_rev :: "('t, 's list) omap"

definition em_new :: "('s, 't) edge_map" where
  "em_new = \<lparr>em_fwd = [], em_rev = []\<rparr>"

definition em_targets :: "('s, 't) edge_map \<Rightarrow> 's \<Rightarrow> 't list option" where
  "em_targets em s = map_of (em_fwd em) s"

definition em_sources :: "('s, 't) edge_map \<Rightarrow> 't \<Rightarrow> 's list option" where
  "em_sources em t = map_of (em_rev em) t"

definition rev_add :: "'s::linorder \<Rightarrow> 't::linorder \<Rightarrow> ('t, 's list) omap \<Rightarrow> ('t, 's list) omap" where
  "rev_add s t m = om_insert t (insort_insert s (unwrap_or (map_of m t) [])) m"

definition rev_remove :: "'s::linorder \<Rightarrow> 't::linorder \<Rightarrow> ('t, 's list) omap \<Rightarrow> ('t, 's list) omap" where
  "rev_remove s t m = (case map_of m t of
       None \<Rightarrow> m
     | Some ss \<Rightarrow>
         let ss = removeAll s ss
         in if ss = [] then om_remove t m else om_insert t ss m)"

definition em_from_fwd :: "('s::linorder, 't::linorder list) omap \<Rightarrow> ('s, 't) edge_map" where
  "em_from_fwd fwd =
     \<lparr>em_fwd = fwd,
      em_rev = fold (\<lambda>(src, targets). fold (\<lambda>tgt. rev_add src tgt) targets) fwd []\<rparr>"

definition btree_set :: "'a::linorder list \<Rightarrow> 'a list" where
  "btree_set xs = sort (remdups xs)"

definition em_set_edges ::
  "'s::linorder \<Rightarrow> 't::linorder list \<Rightarrow> ('s, 't) edge_map \<Rightarrow> ('s, 't) edge_map \<times> 't edge_diff option"
where
  "em_set_edges source new_targets em =
     (if new_targets = [] then
        (case map_of (em_fwd em) source of
           Some old_targets \<Rightarrow>
             let em = em\<lparr>em_fwd := om_remove source (em_fwd em)\<rparr>
             in if old_targets = [] then (em, None)
                else (em\<lparr>em_rev := fold (rev_remove source) old_targets (em_rev em)\<rparr>,
                      Some \<lparr>ed_added = [], ed_removed = old_targets\<rparr>)
         | None \<Rightarrow> (em, None))
      else
        let old_set = btree_set (unwrap_or (map_of (em_fwd em) source) []);
            new_set = btree_set new_targets;
            removed = filter (\<lambda>t. t \<notin> set new_set) old_set;
            added = filter (\<lambda>t. t \<notin> set old_set) new_set
        in if removed = [] \<and> added = [] then (em, None)
           else (em\<lparr>em_fwd := om_insert source new_targets (em_fwd em),
                    em_rev := fold (rev_add source) added
                                (fold (rev_remove source) removed (em_rev em))\<rparr>,
                 Some \<lparr>ed_added = added, ed_removed = removed\<rparr>))"

definition fwd_retain :: "'t \<Rightarrow> 's::linorder \<Rightarrow> ('s, 't list) omap \<Rightarrow> ('s, 't list) omap" where
  "fwd_retain target source_id fwd = (case map_of fwd source_id of
       None \<Rightarrow> fwd
     | Some targets \<Rightarrow>
         let targets = filter (\<lambda>t. t \<noteq> target) targets
         in if targets = [] then om_remove source_id fwd else om_insert source_id targets fwd)"

definition em_remove_target ::
  "'t \<Rightarrow> ('s::linorder, 't) edge_map \<Rightarrow> ('s, 't) edge_map" where
  "em_remove_target target em = (case map_of (em_rev em) target of
       Some sources \<Rightarrow>
         em\<lparr>em_rev := om_remove target (em_rev em),
            em_fwd := fold (fwd_retain target) sources (em_fwd em)\<rparr>
     | None \<Rightarrow> em)"

subsection \<open>Invariant and abstraction\<close>

definition vals :: "('k, 'v list) omap \<Rightarrow> 'k \<Rightarrow> 'v set" where
  "vals m k = set (unwrap_or (map_of m k) [])"

definition lists_ok :: "('k::linorder, 'v list) omap \<Rightarrow> bool" where
  "lists_ok m \<longleftrightarrow> om_wf m \<and> (\<forall>k vs. map_of m k = Some vs \<longrightarrow> vs \<noteq> [])"

definition sets_ok :: "('k::linorder, 'v::linorder list) omap \<Rightarrow> bool" where
  "sets_ok m \<longleftrightarrow> lists_ok m \<and> (\<forall>k vs. map_of m k = Some vs \<longrightarrow> sorted vs \<and> distinct vs)"

definition em_rel :: "('s, 't) edge_map \<Rightarrow> ('s \<times> 't) set" where
  "em_rel em = {(s, t). t \<in> vals (em_fwd em) s}"

definition em_inv :: "('s::linorder, 't::linorder) edge_map \<Rightarrow> bool" where
  "em_inv em \<longleftrightarrow> lists_ok (em_fwd em) \<and> sets_ok (em_rev em) \<and>
     (\<forall>s t. s \<in> vals (em_rev em) t \<longleftrightarrow> t \<in> vals (em_fwd em) s)"

lemma vals_simps [simp]:
  "vals (om_insert k vs m) k' = (if k' = k then set vs else vals m k')"
  "vals (om_remove k m) k' = (if k' = k then {} else vals m k')"
  "vals [] k = {}"
  by (simp_all add: vals_def)

lemma vals_None: "map_of m k = None \<Longrightarrow> vals m k = {}"
  and vals_Some: "map_of m k = Some vs \<Longrightarrow> vals m k = set vs"
  by (simp_all add: vals_def)

lemma vals_rev_add [simp]:
  "vals (rev_add s t m) t' = (if t' = t then insert s (vals m t) else vals m t')"
  by (simp add: rev_add_def set_insort_insert) (simp add: vals_def)

lemma vals_rev_remove [simp]:
  "vals (rev_remove s t m) t' = (if t' = t then vals m t - {s} else vals m t')"
  by (auto simp: rev_remove_def Let_def vals_None vals_Some removeAll_filter_not_eq
      filter_empty_conv split: option.splits)

lemma vals_fwd_retain [simp]:
  "vals (fwd_retain t s m) s' = (if s' = s then vals m s - {t} else vals m s')"
  by (auto simp: fwd_retain_def Let_def vals_None vals_Some filter_empty_conv split: option.splits)

lemma vals_fold_rev_add:
  "vals (fold (rev_add s) ts m) t = (if t \<in> set ts then insert s (vals m t) else vals m t)"
  by (induction ts arbitrary: m) auto

lemma vals_fold_rev_remove:
  "vals (fold (rev_remove s) ts m) t = (if t \<in> set ts then vals m t - {s} else vals m t)"
  by (induction ts arbitrary: m) auto

lemma vals_fold_fwd_retain:
  "vals (fold (fwd_retain t) ss m) s = (if s \<in> set ss then vals m s - {t} else vals m s)"
  by (induction ss arbitrary: m) auto

lemma sets_ok_rev_add [simp]: "sets_ok m \<Longrightarrow> sets_ok (rev_add s t m)"
  by (cases "map_of m t")
     (auto simp: sets_ok_def lists_ok_def rev_add_def sorted_insort_insert distinct_insort_insert
       dest: arg_cong [where f = set] simp: set_insort_insert)

lemma sets_ok_rev_remove [simp]: "sets_ok m \<Longrightarrow> sets_ok (rev_remove s t m)"
  by (cases "map_of m t")
     (auto simp: sets_ok_def lists_ok_def rev_remove_def Let_def removeAll_filter_not_eq
       sorted_wrt_filter split: if_splits)

lemma lists_ok_fwd_retain [simp]: "lists_ok m \<Longrightarrow> lists_ok (fwd_retain t s m)"
  by (cases "map_of m s") (auto simp: lists_ok_def fwd_retain_def Let_def split: if_splits)

lemma sets_ok_fold_rev_add: "sets_ok m \<Longrightarrow> sets_ok (fold (rev_add s) ts m)"
  by (induction ts arbitrary: m) auto

lemma sets_ok_fold_rev_remove: "sets_ok m \<Longrightarrow> sets_ok (fold (rev_remove s) ts m)"
  by (induction ts arbitrary: m) auto

lemma lists_ok_fold_fwd_retain: "lists_ok m \<Longrightarrow> lists_ok (fold (fwd_retain t) ss m)"
  by (induction ss arbitrary: m) auto

lemma lists_ok_insert [simp]: "lists_ok m \<Longrightarrow> vs \<noteq> [] \<Longrightarrow> lists_ok (om_insert k vs m)"
  and lists_ok_remove [simp]: "lists_ok m \<Longrightarrow> lists_ok (om_remove k m)"
  by (auto simp: lists_ok_def split: if_splits)

lemmas em_fold_simps = vals_fold_rev_add vals_fold_rev_remove vals_fold_fwd_retain
  sets_ok_fold_rev_add sets_ok_fold_rev_remove lists_ok_fold_fwd_retain

lemma btree_set_set [simp]: "set (btree_set xs) = set xs"
  by (simp add: btree_set_def)

lemma btree_set_Nil [simp]: "btree_set [] = []"
  by (simp add: btree_set_def)

lemma em_inv_new [simp]: "em_inv em_new"
  by (simp add: em_inv_def em_new_def lists_ok_def sets_ok_def)

lemma em_inv_rev_vals: "em_inv em \<Longrightarrow> s \<in> vals (em_rev em) t \<longleftrightarrow> t \<in> vals (em_fwd em) s"
  by (simp add: em_inv_def)

lemma em_set_edges_unchanged:
  assumes "em_inv em"
  shows "snd (em_set_edges s ts em) = None \<longleftrightarrow> set ts = vals (em_fwd em) s"
  using assms
  by (auto simp: em_set_edges_def em_inv_def lists_ok_def vals_def Let_def filter_empty_conv
      split: option.splits)

lemma em_set_edges_vals:
  assumes "em_inv em"
  shows "vals (em_fwd (fst (em_set_edges s ts em))) s' =
           (if s' = s then set ts else vals (em_fwd em) s')"
  using assms
  by (auto simp: em_set_edges_def Let_def vals_None filter_empty_conv vals_def split: option.splits)

lemma em_set_edges_inv:
  assumes inv: "em_inv em"
  shows "em_inv (fst (em_set_edges s ts em))"
proof (cases "ts = []")
  case True
  show ?thesis
  proof (cases "map_of (em_fwd em) s")
    case (Some old)
    with inv have "old \<noteq> []" and "vals (em_fwd em) s = set old"
      by (auto simp: em_inv_def lists_ok_def vals_def)
    with inv True Some show ?thesis
      by (auto simp: em_set_edges_def em_inv_def Let_def em_fold_simps)
  qed (use inv True in \<open>simp add: em_set_edges_def\<close>)
next
  case False
  have old: "set (unwrap_or (map_of (em_fwd em) s) []) = vals (em_fwd em) s"
    by (simp add: vals_def)
  from inv False show ?thesis
    by (auto simp: em_set_edges_def em_inv_def Let_def em_fold_simps old)
qed

lemma em_set_edges_diff:
  assumes "em_inv em" "snd (em_set_edges s ts em) = Some d"
  shows "set (ed_added d) = set ts - vals (em_fwd em) s"
    and "set (ed_removed d) = vals (em_fwd em) s - set ts"
  using assms
  by (auto simp: em_set_edges_def Let_def vals_def split: option.splits if_splits)

lemma em_remove_target_vals:
  assumes "em_inv em"
  shows "vals (em_fwd (em_remove_target t em)) s = vals (em_fwd em) s - {t}"
  using assms em_inv_rev_vals [OF assms, of s t]
  by (auto simp: em_remove_target_def vals_fold_fwd_retain vals_None vals_Some
      split: option.splits)

lemma em_remove_target_inv:
  assumes inv: "em_inv em"
  shows "em_inv (em_remove_target t em)"
proof (cases "map_of (em_rev em) t")
  case (Some ss)
  then have v: "vals (em_rev em) t = set ss" by (rule vals_Some)
  have "sets_ok (om_remove t (em_rev em))"
    using inv by (auto simp: em_inv_def sets_ok_def split: if_splits)
  with inv Some v show ?thesis
    by (auto simp: em_remove_target_def em_inv_def em_fold_simps)
qed (use inv in \<open>simp add: em_remove_target_def\<close>)

text \<open>Rebuilding from the forward map (snapshot restore) gives back the same map.\<close>

lemma rev_fold_vals:
  "vals (fold (\<lambda>(src, targets). fold (\<lambda>tgt. rev_add src tgt) targets) fwd m) t =
     vals m t \<union> {s. \<exists>ts. (s, ts) \<in> set fwd \<and> t \<in> set ts}"
  by (induction fwd arbitrary: m) (auto simp: vals_fold_rev_add split: if_splits)

lemma rev_fold_ok:
  "sets_ok m \<Longrightarrow> sets_ok (fold (\<lambda>(src, targets). fold (\<lambda>tgt. rev_add src tgt) targets) fwd m)"
  by (induction fwd arbitrary: m) (auto simp: sets_ok_fold_rev_add)

lemma em_from_fwd_inv:
  assumes "lists_ok fwd"
  shows "em_inv (em_from_fwd fwd)"
proof -
  have "s \<in> vals (em_rev (em_from_fwd fwd)) t \<longleftrightarrow> t \<in> vals fwd s" for s t
  proof -
    have "(\<exists>ts. (s, ts) \<in> set fwd \<and> t \<in> set ts) \<longleftrightarrow> t \<in> vals fwd s"
      using assms by (cases "map_of fwd s") (auto simp: lists_ok_def om_wf_in_set vals_def)
    then show ?thesis by (simp add: em_from_fwd_def rev_fold_vals)
  qed
  moreover have "sets_ok (em_rev (em_from_fwd fwd))"
    unfolding em_from_fwd_def edge_map.simps
    by (rule rev_fold_ok) (simp add: sets_ok_def lists_ok_def)
  ultimately show ?thesis
    using assms by (simp add: em_inv_def) (simp add: em_from_fwd_def)
qed

lemma omap_eqI:
  assumes "om_wf m" "om_wf m'" "map_of m = map_of m'"
  shows "m = m'"
  using assms
proof (induction m arbitrary: m')
  case Nil
  then show ?case by (cases m') (auto simp: fun_eq_iff split: if_splits)
next
  case (Cons e m)
  obtain k v where e: "e = (k, v)" by force
  have keys: "fst ` set (e # m) = fst ` set m'"
    using Cons.prems(3) by (metis dom_map_of_conv_image_fst)
  then obtain k' v' m'' where m': "m' = (k', v') # m''" by (cases m') auto
  have "k = k'"
    using keys Cons.prems(1,2) unfolding e m'
    by (auto simp: om_wf_Cons) (metis image_iff insert_iff less_asym)+
  moreover have "v = v'"
    using fun_cong [OF Cons.prems(3), of k] \<open>k = k'\<close> by (simp add: e m')
  moreover have "map_of m = map_of m''"
  proof
    fix j
    have "map_of m k = None" "map_of m'' k' = None"
      using Cons.prems(1,2) unfolding e m' by (auto simp: om_wf_Cons map_of_eq_None_iff)
    with fun_cong [OF Cons.prems(3), of j] \<open>k = k'\<close> show "map_of m j = map_of m'' j"
      by (cases "j = k") (auto simp: e m')
  qed
  ultimately show ?case
    using Cons.IH [of m''] Cons.prems(1,2) by (simp add: e m' om_wf_Cons)
qed

lemma sets_ok_eqI:
  assumes "sets_ok m" "sets_ok m'" "\<And>k. vals m k = vals m' k"
  shows "m = m'"
proof (rule omap_eqI)
  show "map_of m = map_of m'"
  proof
    fix k
    show "map_of m k = map_of m' k"
      using assms(1,2) assms(3) [of k]
      by (cases "map_of m k"; cases "map_of m' k")
         (auto simp: sets_ok_def lists_ok_def vals_def intro: sorted_distinct_set_unique)
  qed
qed (use assms in \<open>auto simp: sets_ok_def lists_ok_def\<close>)

lemma em_from_fwd_roundtrip:
  assumes inv: "em_inv em"
  shows "em_from_fwd (em_fwd em) = em"
proof -
  have i: "em_inv (em_from_fwd (em_fwd em))"
    using inv by (intro em_from_fwd_inv) (simp add: em_inv_def)
  have "em_fwd (em_from_fwd (em_fwd em)) = em_fwd em" by (simp add: em_from_fwd_def)
  moreover have "em_rev (em_from_fwd (em_fwd em)) = em_rev em"
    using i inv by (intro sets_ok_eqI) (auto simp: em_inv_def calculation)
  ultimately show ?thesis by simp
qed

subsection \<open>What the router relies on\<close>

text \<open>
  The interface of an edge store: targets and sources are two views of one
  relation, an update replaces the targets of one source and reports exactly the
  targets whose set of sources changed.
\<close>

locale edge_store =
  fixes empty :: 'm
    and targets :: "'m \<Rightarrow> 's \<Rightarrow> 't set"
    and sources :: "'m \<Rightarrow> 't \<Rightarrow> 's set"
    and update :: "'s \<Rightarrow> 't list \<Rightarrow> 'm \<Rightarrow> 'm \<times> 't edge_diff option"
    and drop_target :: "'t \<Rightarrow> 'm \<Rightarrow> 'm"
    and invar :: "'m \<Rightarrow> bool"
  assumes invar_empty: "invar empty"
    and invar_update: "invar m \<Longrightarrow> invar (fst (update s ts m))"
    and invar_drop: "invar m \<Longrightarrow> invar (drop_target t m)"
    and targets_empty: "targets empty s = {}"
    and sources_iff: "invar m \<Longrightarrow> s \<in> sources m t \<longleftrightarrow> t \<in> targets m s"
    and targets_update: "invar m \<Longrightarrow>
          targets (fst (update s ts m)) s' = (if s' = s then set ts else targets m s')"
    and targets_drop: "invar m \<Longrightarrow> targets (drop_target t m) s = targets m s - {t}"
    and update_None: "invar m \<Longrightarrow> snd (update s ts m) = None \<longleftrightarrow> set ts = targets m s"
    and update_added: "invar m \<Longrightarrow> snd (update s ts m) = Some d \<Longrightarrow>
          set (ed_added d) = set ts - targets m s"
    and update_removed: "invar m \<Longrightarrow> snd (update s ts m) = Some d \<Longrightarrow>
          set (ed_removed d) = targets m s - set ts"
begin

definition apply_updates :: "('s \<times> 't list) list \<Rightarrow> 'm \<Rightarrow> 'm" where
  "apply_updates us m = fold (\<lambda>(s, ts) m. fst (update s ts m)) us m"

lemma apply_updates_invar: "invar m \<Longrightarrow> invar (apply_updates us m)"
  unfolding apply_updates_def
  by (induction us arbitrary: m) (auto simp: invar_update)

lemma apply_updates_targets:
  "invar m \<Longrightarrow> targets (apply_updates us m) s =
     (case map_of (rev us) s of Some ts \<Rightarrow> set ts | None \<Rightarrow> targets m s)"
  unfolding apply_updates_def
  by (induction us arbitrary: m)
     (auto simp: invar_update targets_update map_add_def split: option.splits)

lemma changed_sources_iff:
  assumes "invar m"
  shows "sources (fst (update s ts m)) t \<noteq> sources m t \<longleftrightarrow>
    (\<exists>d. snd (update s ts m) = Some d \<and> t \<in> set (all_changed d))"
proof -
  have src: "x \<in> sources (fst (update s ts m)) t \<longleftrightarrow>
               (if x = s then t \<in> set ts else x \<in> sources m t)" for x
    using assms by (simp add: sources_iff invar_update targets_update)
  then have "sources (fst (update s ts m)) t \<noteq> sources m t \<longleftrightarrow> (t \<in> set ts) \<noteq> (t \<in> targets m s)"
    using assms by (auto simp: set_eq_iff sources_iff)
  also have "\<dots> \<longleftrightarrow> (\<exists>d. snd (update s ts m) = Some d \<and> t \<in> set (all_changed d))"
  proof (cases "snd (update s ts m)")
    case None
    with assms show ?thesis using update_None [of m s ts] by simp
  next
    case (Some d)
    with assms update_added [OF assms Some] update_removed [OF assms Some] show ?thesis
      by (auto simp: all_changed_def)
  qed
  finally show ?thesis .
qed

end

definition em_target_set :: "('s, 't) edge_map \<Rightarrow> 's \<Rightarrow> 't set" where
  "em_target_set em s = set (unwrap_or (em_targets em s) [])"

definition em_source_set :: "('s, 't) edge_map \<Rightarrow> 't \<Rightarrow> 's set" where
  "em_source_set em t = set (unwrap_or (em_sources em t) [])"

lemma em_target_set_vals: "em_target_set em = vals (em_fwd em)"
  and em_source_set_vals: "em_source_set em = vals (em_rev em)"
  by (auto simp: fun_eq_iff em_target_set_def em_source_set_def em_targets_def em_sources_def vals_def)

interpretation em: edge_store em_new em_target_set em_source_set em_set_edges em_remove_target em_inv
  by unfold_locales
     (simp_all add: em_target_set_vals em_source_set_vals em_set_edges_inv em_remove_target_inv
       em_set_edges_vals em_remove_target_vals em_set_edges_unchanged em_set_edges_diff
       em_inv_rev_vals, simp_all add: em_new_def)

section \<open>Incremental diffs\<close>

record ('i, 'o) incremental_aggregator =
  ia_added :: "'i \<Rightarrow> 'o option"
  ia_removed :: "'i \<Rightarrow> 'o option"
  ia_changed :: "'i \<Rightarrow> 'i \<Rightarrow> 'o option"

definition diff_current_entry ::
  "('k, 'v) omap \<Rightarrow> ('i, 'o) incremental_aggregator \<Rightarrow> ('k \<Rightarrow> 'v \<Rightarrow> 'i) \<Rightarrow> 'k \<times> 'v \<Rightarrow> 'o list"
where
  "diff_current_entry prev agg make_input = (\<lambda>(kid, val).
     case map_of prev kid of
       None \<Rightarrow> opt_list (ia_added agg (make_input kid val))
     | Some old \<Rightarrow>
         if old \<noteq> val then opt_list (ia_changed agg (make_input kid old) (make_input kid val))
         else [])"

definition diff_prev_entry ::
  "('k, 'v) omap \<Rightarrow> ('i, 'o) incremental_aggregator \<Rightarrow> ('k \<Rightarrow> 'v \<Rightarrow> 'i) \<Rightarrow> 'k \<times> 'v \<Rightarrow> 'o list"
where
  "diff_prev_entry current agg make_input = (\<lambda>(kid, val).
     if map_of current kid = None then opt_list (ia_removed agg (make_input kid val)) else [])"

definition incremental_diff ::
  "('k, 'v) omap \<Rightarrow> ('k, 'v) omap \<Rightarrow> ('i, 'o) incremental_aggregator \<Rightarrow> ('k \<Rightarrow> 'v \<Rightarrow> 'i) \<Rightarrow>
   'o list \<Rightarrow> 'o list" where
  "incremental_diff current prev agg make_input outputs =
     outputs @ concat (map (diff_current_entry prev agg make_input) current)
             @ concat (map (diff_prev_entry current agg make_input) prev)"

text \<open>
  A consumer whose state holds one item per source identifier.  Replaying the
  deltas of a diff on a state that mirrors the previous sources gives a state
  that mirrors the current ones.
\<close>

locale delta_consumer =
  fixes agg :: "('i, 'o) incremental_aggregator"
    and make_input :: "'k::linorder \<Rightarrow> 'v \<Rightarrow> 'i"
    and blank :: 'w
    and view :: "'k \<Rightarrow> 'v \<Rightarrow> 'w"
    and get :: "'s \<Rightarrow> 'k \<Rightarrow> 'w"
    and apply_delta :: "'o \<Rightarrow> 's \<Rightarrow> 's"
  assumes added_None: "ia_added agg (make_input k v) = None \<Longrightarrow> view k v = blank"
    and added_Some: "ia_added agg (make_input k v) = Some d \<Longrightarrow> get S k = blank \<Longrightarrow>
          get (apply_delta d S) = (get S)(k := view k v)"
    and removed_None: "ia_removed agg (make_input k v) = None \<Longrightarrow> view k v = blank"
    and removed_Some: "ia_removed agg (make_input k v) = Some d \<Longrightarrow> get S k = view k v \<Longrightarrow>
          get (apply_delta d S) = (get S)(k := blank)"
    and changed_None: "old \<noteq> v \<Longrightarrow> ia_changed agg (make_input k old) (make_input k v) = None \<Longrightarrow>
          view k old = view k v"
    and changed_Some: "old \<noteq> v \<Longrightarrow> ia_changed agg (make_input k old) (make_input k v) = Some d \<Longrightarrow>
          get S k = view k old \<Longrightarrow> get (apply_delta d S) = (get S)(k := view k v)"
begin

definition table :: "('k, 'v) omap \<Rightarrow> 'k \<Rightarrow> 'w" where
  "table m k = (case map_of m k of None \<Rightarrow> blank | Some v \<Rightarrow> view k v)"

lemma replay_current_entry:
  assumes "get S k = table prev k"
  shows "get (fold apply_delta (diff_current_entry prev agg make_input (k, v)) S) =
    (get S)(k := view k v)"
proof (cases "map_of prev k")
  case None
  with assms have "get S k = blank" by (simp add: table_def)
  with None show ?thesis
    by (cases "ia_added agg (make_input k v)")
       (auto simp: diff_current_entry_def added_Some fun_eq_iff dest: added_None)
next
  case (Some old)
  with assms have S: "get S k = view k old" by (simp add: table_def)
  with Some changed_None [of old v k] changed_Some [of old v k _ S] show ?thesis
    by (cases "ia_changed agg (make_input k old) (make_input k v)")
       (auto simp: diff_current_entry_def fun_eq_iff)
qed

lemma replay_current:
  assumes "distinct (map fst cur)" "\<forall>k\<in>fst ` set cur. get S k = table prev k"
  shows "get (fold apply_delta (concat (map (diff_current_entry prev agg make_input) cur)) S) =
    (\<lambda>k. case map_of cur k of None \<Rightarrow> get S k | Some v \<Rightarrow> view k v)"
  using assms
proof (induction cur arbitrary: S)
  case (Cons e cur)
  obtain k v where e: "e = (k, v)" by force
  let ?S = "fold apply_delta (diff_current_entry prev agg make_input (k, v)) S"
  have S: "get ?S = (get S)(k := view k v)"
    using Cons.prems(2) by (intro replay_current_entry) (simp add: e)
  have "get (fold apply_delta (concat (map (diff_current_entry prev agg make_input) cur)) ?S)
     = (\<lambda>j. case map_of cur j of None \<Rightarrow> get ?S j | Some w \<Rightarrow> view j w)"
    using Cons.prems by (intro Cons.IH) (auto simp: e S)
  moreover have "map_of cur k = None"
    using Cons.prems(1) by (auto simp: e map_of_eq_None_iff)
  ultimately show ?case
    by (intro ext) (simp add: e S split: option.split)
qed simp

lemma replay_prev:
  assumes "distinct (map fst prev)"
    "\<forall>(k, v)\<in>set prev. map_of cur k = None \<longrightarrow> get S k = view k v"
  shows "get (fold apply_delta (concat (map (diff_prev_entry cur agg make_input) prev)) S) =
    (\<lambda>k. if k \<in> fst ` set prev \<and> map_of cur k = None then blank else get S k)"
  using assms
proof (induction prev arbitrary: S)
  case (Cons e prev)
  obtain k v where e: "e = (k, v)" by force
  let ?S = "fold apply_delta (diff_prev_entry cur agg make_input (k, v)) S"
  have S: "get ?S = (if map_of cur k = None then (get S)(k := blank) else get S)"
    using Cons.prems(2) removed_None [of k v]
    by (cases "ia_removed agg (make_input k v)")
       (auto simp: e diff_prev_entry_def removed_Some)
  have "get (fold apply_delta (concat (map (diff_prev_entry cur agg make_input) prev)) ?S) =
     (\<lambda>j. if j \<in> fst ` set prev \<and> map_of cur j = None then blank else get ?S j)"
  proof (rule Cons.IH)
    show "distinct (map fst prev)" using Cons.prems(1) by simp
    show "\<forall>(j, w)\<in>set prev. map_of cur j = None \<longrightarrow> get ?S j = view j w"
    proof clarify
      fix j w assume jw: "(j, w) \<in> set prev" and j: "map_of cur j = None"
      then have "j \<in> fst ` set prev" by force
      with Cons.prems(1) have "j \<noteq> k" by (auto simp: e)
      moreover have "get S j = view j w" using Cons.prems(2) jw j by auto
      ultimately show "get ?S j = view j w" by (simp add: S)
    qed
  qed
  then show ?case by (intro ext) (auto simp: e S)
qed simp

lemma replay_diff:
  assumes "om_wf cur" "om_wf prev" "get S = table prev"
  shows "get (fold apply_delta (incremental_diff cur prev agg make_input []) S) = table cur"
proof -
  let ?S = "fold apply_delta (concat (map (diff_current_entry prev agg make_input) cur)) S"
  have S: "get ?S = (\<lambda>k. case map_of cur k of None \<Rightarrow> table prev k | Some v \<Rightarrow> view k v)"
    using replay_current [of cur S prev] assms(1,3)
    unfolding assms(3) by (simp add: om_wf_distinct)
  have "get (fold apply_delta (concat (map (diff_prev_entry cur agg make_input) prev)) ?S) = table cur"
  proof (subst replay_prev)
    show "\<forall>(k, v)\<in>set prev. map_of cur k = None \<longrightarrow> get ?S k = view k v"
      using assms by (auto simp: S table_def om_wf_in_set)
    show "(\<lambda>k. if k \<in> fst ` set prev \<and> map_of cur k = None then blank else get ?S k) = table cur"
    proof
      fix k
      show "(if k \<in> fst ` set prev \<and> map_of cur k = None then blank else get ?S k) = table cur k"
      proof (cases "map_of cur k")
        case None
        have "map_of prev k = None" if "k \<notin> fst ` set prev"
          using that by (simp add: map_of_eq_None_iff)
        with None show ?thesis by (auto simp: S table_def)
      qed (simp add: S table_def)
    qed
  qed (use assms om_wf_distinct in blast)
  then show ?thesis by (simp add: incremental_diff_def)
qed

end

section \<open>Manual propagation\<close>

text \<open>
  \<open>ManualPropagate\<close> sorts the deliveries by group and hands out the last group
  until none is left; the groups of one target come out together.
\<close>

definition mp_new :: "('d \<Rightarrow> nat) \<Rightarrow> 'd list \<Rightarrow> 'd list" where
  "mp_new group_key deliveries = sort_key group_key deliveries"

definition mp_next_group :: "('d \<Rightarrow> nat) \<Rightarrow> 'd list \<Rightarrow> 'd list option \<times> 'd list" where
  "mp_next_group group_key ds =
     (if ds = [] then (None, [])
      else let last_key = group_key (last ds)
           in (Some (rev (takeWhile (\<lambda>d. group_key d = last_key) (rev ds))),
               rev (dropWhile (\<lambda>d. group_key d = last_key) (rev ds))))"

lemma mp_next_group_split:
  assumes "mp_next_group gk ds = (Some g, rest)"
  shows "rest @ g = ds" and "\<forall>d\<in>set g. gk d = gk (last ds)"
    and "rest \<noteq> [] \<longrightarrow> gk (last rest) \<noteq> gk (last ds)"
proof -
  let ?P = "\<lambda>d. gk d = gk (last ds)"
  have g: "g = rev (takeWhile ?P (rev ds))" and rest: "rest = rev (dropWhile ?P (rev ds))"
    using assms by (auto simp: mp_next_group_def Let_def split: if_splits)
  show "rest @ g = ds" unfolding g rest by (simp flip: rev_append)
  show "\<forall>d\<in>set g. ?P d" unfolding g by (auto dest: set_takeWhileD)
  show "rest \<noteq> [] \<longrightarrow> gk (last rest) \<noteq> gk (last ds)"
    unfolding rest using hd_dropWhile [of ?P "rev ds"] by (auto simp: last_rev)
qed

text \<open>A group holds every remaining delivery of its target.\<close>

lemma mp_next_group_complete:
  assumes "sorted (map gk ds)" "mp_next_group gk ds = (Some g, rest)" "d \<in> set rest"
  shows "gk d < gk (last ds)"
proof -
  note split = mp_next_group_split [OF assms(2)]
  have "rest \<noteq> []" using assms(3) by auto
  then obtain xs x where rest: "rest = xs @ [x]" by (cases rest rule: rev_cases) auto
  have ds: "ds \<noteq> []" using split(1) rest by auto
  have "sorted (map gk rest)"
    using assms(1) split(1) by (metis map_append sorted_append)
  then have "gk d \<le> gk x" using assms(3) rest by (auto simp: sorted_append)
  moreover have "gk x \<le> gk (last ds)"
  proof (cases "g = []")
    case False
    then have "last ds \<in> set g" using split(1) by (metis last_appendR last_in_set)
    moreover have "sorted (map gk (rest @ g))" using assms(1) split(1) by simp
    ultimately show ?thesis unfolding rest by (simp add: sorted_append)
  next
    case True
    then show ?thesis using split(1) rest by auto
  qed
  moreover have "gk x \<noteq> gk (last ds)" using split(3) rest by simp
  ultimately show ?thesis by linarith
qed

section \<open>Properties\<close>

datatype ('s, 't) edge_op = SetEdges 's "'t list" | RemoveTarget 't

fun edge_step :: "('s::linorder, 't::linorder) edge_op \<Rightarrow> ('s, 't) edge_map \<Rightarrow> ('s, 't) edge_map" where
  "edge_step (SetEdges s ts) em = fst (em_set_edges s ts em)"
| "edge_step (RemoveTarget t) em = em_remove_target t em"

text \<open>The abstract machine: a set of edges.\<close>

fun rel_step :: "('s, 't) edge_op \<Rightarrow> ('s \<times> 't) set \<Rightarrow> ('s \<times> 't) set" where
  "rel_step (SetEdges s ts) R = {e \<in> R. fst e \<noteq> s} \<union> {s} \<times> set ts"
| "rel_step (RemoveTarget t) R = {e \<in> R. snd e \<noteq> t}"

lemma edge_step_inv: "em_inv em \<Longrightarrow> em_inv (edge_step op em)"
  by (cases op) (simp_all add: em_set_edges_inv em_remove_target_inv)

lemma edge_step_rel: "em_inv em \<Longrightarrow> em_rel (edge_step op em) = rel_step op (em_rel em)"
  by (cases op) (auto simp: em_rel_def em_set_edges_vals em_remove_target_vals split: if_splits)

lemma edge_run_inv: "em_inv em \<Longrightarrow> em_inv (fold edge_step ops em)"
  by (induction ops arbitrary: em) (simp_all add: edge_step_inv)

lemma edge_run_rel: "em_inv em \<Longrightarrow> em_rel (fold edge_step ops em) = fold rel_step ops (em_rel em)"
  by (induction ops arbitrary: em) (simp_all add: edge_step_inv edge_step_rel)

lemmas edge_run_new_inv = edge_run_inv [OF em.invar_empty]

text \<open>
  C31.  The edge map implements a set of edges: after any sequence of edge updates
  and target removals, its forward and its reverse direction both hold exactly
  the edges of the abstract set that went through the same sequence.
\<close>

theorem edge_map_refines:
  fixes ops :: "('s::linorder, 't::linorder) edge_op list"
  shows "(t \<in> em_target_set (fold edge_step ops em_new) s \<longleftrightarrow> (s, t) \<in> fold rel_step ops {}) \<and>
    (s \<in> em_source_set (fold edge_step ops em_new) t \<longleftrightarrow> (s, t) \<in> fold rel_step ops {})"
proof -
  have "em_rel (fold edge_step ops em_new) = fold rel_step ops (em_rel (em_new :: ('s, 't) edge_map))"
    by (rule edge_run_rel [OF em.invar_empty])
  then have "em_rel (fold edge_step ops em_new) = fold rel_step ops {}"
    by (simp add: em_rel_def em_new_def vals_def)
  moreover have "s \<in> em_source_set (fold edge_step ops em_new) t \<longleftrightarrow>
      t \<in> em_target_set (fold edge_step ops em_new) s"
    by (rule em.sources_iff [OF edge_run_new_inv])
  ultimately show ?thesis by (auto simp: em_rel_def em_target_set_vals)
qed

text \<open>
   The difference an edge update reports names exactly the targets whose set of
  sources has changed, so the router recomputes those inputs and no others.
\<close>

theorem edge_diff_exact:
  fixes ops :: "('s::linorder, 't::linorder) edge_op list"
  shows "em_source_set (fst (em_set_edges s ts (fold edge_step ops em_new))) t \<noteq>
      em_source_set (fold edge_step ops em_new) t \<longleftrightarrow>
    (\<exists>d. snd (em_set_edges s ts (fold edge_step ops em_new)) = Some d \<and> t \<in> set (all_changed d))"
  by (rule em.changed_sources_iff [OF edge_run_new_inv])

text \<open>
   Saving only the forward direction loses nothing: the map rebuilt from it is
  the map itself, reverse index included.
\<close>

theorem edge_map_roundtrip:
  fixes ops :: "('s::linorder, 't::linorder) edge_op list"
  shows "em_from_fwd (em_fwd (fold edge_step ops em_new)) = (fold edge_step ops em_new)"
  by (rule em_from_fwd_roundtrip [OF edge_run_new_inv])

text \<open>
   The identifiers handed out by a counter are distinct as long as fewer than
  2^64 of them have been drawn.
\<close>

theorem sequential_ids_distinct:
  assumes "length ks < 2 ^ 64"
  shows "distinct (fst (seq_ids_alloc_many ks c))"
  using assms by (rule seq_ids_alloc_many_distinct)

theorem sequential_ids_distinct_witness:
  "distinct (fst (seq_ids_alloc_many [True, False, True] seq_ids_new))"
  by (rule sequential_ids_distinct) simp

text \<open>
   Manual propagation works the dirty items off in whole groups: a group taken
  from the sorted list is its last part, all of the highest key, and everything
  left over has a smaller key.
\<close>

theorem manual_group_complete:
  assumes "sorted (map gk ds)" "mp_next_group gk ds = (Some g, rest)"
  shows "rest @ g = ds \<and> (\<forall>d\<in>set g. gk d = gk (last ds)) \<and> (\<forall>d\<in>set rest. gk d < gk (last ds))"
  using mp_next_group_split [OF assms(2)] mp_next_group_complete [OF assms] by blast

theorem manual_group_complete_witness:
  "mp_next_group (\<lambda>n. n div 10) [1, 12, 25, 27] = (Some [25, 27], [1, 12 :: nat]) \<and>
   12 div 10 < last [1, 12, 25, 27 :: nat] div 10"
proof -
  have "mp_next_group (\<lambda>n. n div 10) [1, 12, 25, 27] = (Some [25, 27], [1, 12 :: nat])"
    by (simp add: mp_next_group_def)
  with manual_group_complete [OF _ this] show ?thesis by simp
qed

end
