(* ===== verification/Sm_Types.thy ===== *)
theory Sm_Types
  imports Protocol_Types Router_Core
begin

text \<open>
  The vocabulary of the namespace state machines
  (\<open>crates/orchestrator/src/sm/mod.rs\<close>, with \<open>RunPolicy\<close> and
  \<open>ActivationSpec\<close> from \<open>types/specs.rs\<close>): router identifiers, the values
  carried by signals and events, and the aggregators that turn the signals of
  all connected sources into the one input a state machine sees.
\<close>

section \<open>Router identifiers\<close>

datatype pod_id = PodId u64
datatype endpoint_id = EndpointId u64
datatype workload_id = WorkloadId u64
datatype management_id = ManagementId u64
datatype artifact_port_id = ArtifactPortId u64
datatype schedule_lease_id = ScheduleLeaseId u64
datatype endpoint_demand_id = EndpointDemandId u64
datatype wireguard_peer_id = WireGuardPeerId u64
datatype schedule_request_id = ScheduleRequestId u64
datatype fabric_endpoint_id = FabricEndpointId u64
datatype timer_id = TimerId u64
datatype dns_registry_id = DnsRegistryId u64
datatype observability_id = ObservabilityId u64

text \<open>The node kinds with automatically allocated identifiers, in declaration order.\<close>

datatype auto_kind = KPod | KEndpoint | KEndpointDemand | KManagement | KScheduleLease | KWireGuardPeer

type_synonym id_alloc = "auto_kind seq_ids"

definition SCHEDULE_REQUEST :: schedule_request_id where
  "SCHEDULE_REQUEST = ScheduleRequestId 0"

definition FABRIC_ENDPOINT :: fabric_endpoint_id where
  "FABRIC_ENDPOINT = FabricEndpointId 0"

definition TIMER :: timer_id where
  "TIMER = TimerId 0"

definition DNS_REGISTRY :: dns_registry_id where
  "DNS_REGISTRY = DnsRegistryId 0"

definition OBSERVABILITY :: observability_id where
  "OBSERVABILITY = ObservabilityId 0"

fun pod_id_val :: "pod_id \<Rightarrow> u64" where
  "pod_id_val (PodId n) = n"

fun endpoint_id_val :: "endpoint_id \<Rightarrow> u64" where
  "endpoint_id_val (EndpointId n) = n"

fun workload_id_val :: "workload_id \<Rightarrow> u64" where
  "workload_id_val (WorkloadId n) = n"

fun artifact_port_id_val :: "artifact_port_id \<Rightarrow> u64" where
  "artifact_port_id_val (ArtifactPortId n) = n"

lemma pod_id_val_inj [simp]: "pod_id_val a = pod_id_val b \<longleftrightarrow> a = b"
  by (cases a; cases b) simp

lemma endpoint_id_val_inj [simp]: "endpoint_id_val a = endpoint_id_val b \<longleftrightarrow> a = b"
  by (cases a; cases b) simp

lemma workload_id_val_inj [simp]: "workload_id_val a = workload_id_val b \<longleftrightarrow> a = b"
  by (cases a; cases b) simp

lemma artifact_port_id_val_inj [simp]: "artifact_port_id_val a = artifact_port_id_val b \<longleftrightarrow> a = b"
  by (cases a; cases b) simp

instantiation pod_id :: linorder
begin
definition less_eq_pod_id :: "pod_id \<Rightarrow> pod_id \<Rightarrow> bool" where
  "less_eq_pod_id a b \<longleftrightarrow> pod_id_val a \<le> pod_id_val b"
definition less_pod_id :: "pod_id \<Rightarrow> pod_id \<Rightarrow> bool" where
  "less_pod_id a b \<longleftrightarrow> pod_id_val a < pod_id_val b"
instance
  by standard (auto simp: less_eq_pod_id_def less_pod_id_def less_le_not_le antisym)
end

instantiation endpoint_id :: linorder
begin
definition less_eq_endpoint_id :: "endpoint_id \<Rightarrow> endpoint_id \<Rightarrow> bool" where
  "less_eq_endpoint_id a b \<longleftrightarrow> endpoint_id_val a \<le> endpoint_id_val b"
definition less_endpoint_id :: "endpoint_id \<Rightarrow> endpoint_id \<Rightarrow> bool" where
  "less_endpoint_id a b \<longleftrightarrow> endpoint_id_val a < endpoint_id_val b"
instance
  by standard (auto simp: less_eq_endpoint_id_def less_endpoint_id_def less_le_not_le antisym)
end

instantiation workload_id :: linorder
begin
definition less_eq_workload_id :: "workload_id \<Rightarrow> workload_id \<Rightarrow> bool" where
  "less_eq_workload_id a b \<longleftrightarrow> workload_id_val a \<le> workload_id_val b"
definition less_workload_id :: "workload_id \<Rightarrow> workload_id \<Rightarrow> bool" where
  "less_workload_id a b \<longleftrightarrow> workload_id_val a < workload_id_val b"
instance
  by standard (auto simp: less_eq_workload_id_def less_workload_id_def less_le_not_le antisym)
end

instantiation artifact_port_id :: linorder
begin
definition less_eq_artifact_port_id :: "artifact_port_id \<Rightarrow> artifact_port_id \<Rightarrow> bool" where
  "less_eq_artifact_port_id a b \<longleftrightarrow> artifact_port_id_val a \<le> artifact_port_id_val b"
definition less_artifact_port_id :: "artifact_port_id \<Rightarrow> artifact_port_id \<Rightarrow> bool" where
  "less_artifact_port_id a b \<longleftrightarrow> artifact_port_id_val a < artifact_port_id_val b"
instance
  by standard (auto simp: less_eq_artifact_port_id_def less_artifact_port_id_def
      less_le_not_le antisym)
end

section \<open>Signal and event payloads\<close>

record ready_info =
  ri_pod_id :: pod_id
  ri_worker_id :: worker_id
  ri_pod_ip :: ipv4

datatype pod_status =
    Pending
  | Running
  | Suspending
  | Suspended artifact_port_id
  | Finished i32
  | Failed "i32 option" string
  | Displaced

fun is_terminal :: "pod_status \<Rightarrow> bool" where
  "is_terminal (Suspended _) = True"
| "is_terminal (Failed _ _) = True"
| "is_terminal (Finished _) = True"
| "is_terminal Displaced = True"
| "is_terminal _ = False"

datatype pod_intent = IntentNone | Want | Suspend

datatype run_policy = PolicyService | PolicyJob

record activation_spec =
  as_idle_timeout :: duration

record pod_spec =
  ps_image :: string
  ps_network :: "pod_network_config option"
  ps_containers :: "container_spec list"
  ps_resources :: "resource_requirements option"
  ps_volumes :: "volume_spec list"

record workload_config =
  wcf_suspend_on_idle :: bool
  wcf_run_policy :: run_policy
  wcf_respects_demand :: bool
  wcf_activation :: "activation_spec option"

record workload_spec =
  ws_pod_spec :: pod_spec
  ws_config :: workload_config

record service_spec =
  ss_workload :: workload_id
  ss_has_activation :: bool
  ss_idle_timeout :: duration
  ss_dns_name :: "string option"
  ss_dns_ip :: "ipv4 option"
  ss_ip :: ipv4
  ss_policy :: service_policy

record worker_info =
  wi_capacity :: u32
  wi_default_pool :: "pool_id option"

datatype admin_cmd = Restart | Scavenge

datatype wl_status =
    WlDormant
  | WlWaitingForSpec
  | WlLaunching
  | WlRunning
  | WlSuspending
  | WlSuspended
  | WlRetryBackoff
  | WlFailed "i32 option" string
  | WlCompleted i32

datatype backend_need = NeedNone | NeedTraffic | NeedActive

datatype workload_timer_key = RetryBackoff | ArtifactConfirm
datatype pod_timer_key = LaunchTimeout | SuspendTimeout
datatype endpoint_timer_key = IdleTimeout

text \<open>
  \<open>TimerRequest\<close>, \<open>PodTimerRequest\<close> and \<open>EndpointTimerRequest\<close> have the same
  three fields and differ in the type of the key.
\<close>

record 'k timer_request =
  tr_key :: 'k
  tr_generation :: u64
  tr_duration :: duration

record dns_entry_info =
  de_name :: string
  de_ip :: ipv4

datatype endpoint_kind = EkService service_id service_policy | EkWorkload

record endpoint_backend_info =
  eb_ip :: "ipv4 option"
  eb_worker_id :: worker_id

record endpoint_info =
  ei_kind :: endpoint_kind
  ei_ip :: ipv4
  ei_backend :: "endpoint_backend_info option"

record wg_peer_endpoint_info =
  wg_peer_ip :: ipv4
  wg_worker_id :: worker_id
  wg_peer_public_key :: "u8 list"

record endpoint_config =
  ec_kind :: endpoint_kind
  ec_workload :: workload_id
  ec_has_activation :: bool
  ec_idle_timeout :: duration
  ec_ip :: ipv4
  ec_dns_entry :: "dns_entry_info option"

record pod_schedule_request =
  psr_resume_artifact :: "artifact_port_id option"
  psr_suspend :: bool
  psr_spec :: "workload_spec option"

record lease_info =
  li_worker_id :: worker_id

section \<open>Aggregators\<close>

record demand_info =
  di_demand_count :: u32
  di_endpoint_ids :: "endpoint_id list"

text \<open>\<open>DemandAggregator\<close>: the loop over the connected endpoints.\<close>

fun demand_loop :: "(endpoint_id \<times> bool) list \<Rightarrow> demand_info \<Rightarrow> demand_info" where
  "demand_loop [] acc = acc"
| "demand_loop ((eid, demand) # rest) acc =
     demand_loop rest
       \<lparr>di_demand_count = (if demand then di_demand_count acc + 1 else di_demand_count acc),
        di_endpoint_ids = di_endpoint_ids acc @ [eid]\<rparr>"

definition demand_aggregate :: "(endpoint_id \<times> bool) list \<Rightarrow> demand_info" where
  "demand_aggregate inputs = demand_loop inputs \<lparr>di_demand_count = 0, di_endpoint_ids = []\<rparr>"

definition spec_aggregate ::
  "(management_id \<times> workload_spec) list \<Rightarrow> (management_id \<times> workload_spec) option" where
  "spec_aggregate inputs = first inputs"

definition owner_aggregate ::
  "(workload_id \<times> pod_intent) list \<Rightarrow> (workload_id \<times> pod_intent) option" where
  "owner_aggregate inputs = first inputs"

definition launch_spec_aggregate ::
  "(workload_id \<times> workload_spec option) list \<Rightarrow> workload_spec option" where
  "launch_spec_aggregate inputs = (case first inputs of None \<Rightarrow> None | Some (_, s) \<Rightarrow> s)"

fun endpoint_demand_active_aggregate :: "(endpoint_demand_id \<times> bool) list \<Rightarrow> bool" where
  "endpoint_demand_active_aggregate [] = False"
| "endpoint_demand_active_aggregate ((_, need) # rest) =
     (if need then True else endpoint_demand_active_aggregate rest)"

definition lease_aggregate :: "(schedule_lease_id \<times> lease_info) list \<Rightarrow> lease_info option" where
  "lease_aggregate inputs = map_option snd (first inputs)"

definition worker_assignment_aggregate ::
  "(worker_id \<times> worker_info) list \<Rightarrow> (worker_id \<times> worker_info) option" where
  "worker_assignment_aggregate inputs = first inputs"

definition list_aggregate :: "('i \<times> 'v) list \<Rightarrow> 'v list" where
  "list_aggregate inputs = map snd inputs"

definition artifact_valid_aggregate :: "(artifact_port_id \<times> bool) list \<Rightarrow> bool option" where
  "artifact_valid_aggregate inputs = map_option snd (first inputs)"

definition svc_spec_aggregate ::
  "(management_id \<times> service_spec) list \<Rightarrow> (management_id \<times> service_spec) option" where
  "svc_spec_aggregate inputs = first inputs"

datatype config_input_source =
    ServiceEndpointConfig service_id "endpoint_config option"
  | WorkloadEndpointConfig workload_id "endpoint_config option"

fun config_of_source :: "config_input_source \<Rightarrow> endpoint_config option" where
  "config_of_source (ServiceEndpointConfig _ c) = c"
| "config_of_source (WorkloadEndpointConfig _ c) = c"

definition endpoint_config_aggregate :: "config_input_source list \<Rightarrow> endpoint_config option" where
  "endpoint_config_aggregate inputs = find_map config_of_source inputs"

lemma demand_loop_spec:
  "demand_loop xs acc =
     \<lparr>di_demand_count = di_demand_count acc + of_nat (length (filter snd xs)),
      di_endpoint_ids = di_endpoint_ids acc @ map fst xs\<rparr>"
  by (induction xs acc rule: demand_loop.induct) auto

lemma demand_aggregate_ids: "di_endpoint_ids (demand_aggregate xs) = map fst xs"
  by (simp add: demand_aggregate_def demand_loop_spec)

lemma endpoint_demand_active_aggregate_iff:
  "endpoint_demand_active_aggregate xs \<longleftrightarrow> (\<exists>x\<in>set xs. snd x)"
  by (induction xs rule: endpoint_demand_active_aggregate.induct) auto

end
