(* ===== verification/Endpoint_Sm.thy ===== *)
theory Endpoint_Sm
  imports Sm_Types
begin

text \<open>
  The endpoint state machine (\<open>crates/orchestrator/src/sm/endpoint.rs\<close>).  An
  endpoint turns traffic and active-connection levels into demand for a
  workload, and the readiness of the workload into an entry of the fabric
  endpoint table.

  The lemmas show that every published signal is a function of the state after
  every input, that the lifecycle state is the one derived from demand and
  readiness, how demand can be raised and dropped, and that an entry with a
  backend always carries what the worker needs.
\<close>

section \<open>State, inputs and effects\<close>

datatype endpoint_state = EsIdle | EsNeedBackend | EsActive ready_info

datatype endpoint_status = EpIdle | EpNeedBackend | EpActive

record endpoint_sm =
  e_state :: endpoint_state
  e_has_activation :: bool
  e_idle_generation :: u64
  e_idle_timer_active :: bool
  e_idle_timeout :: duration
  e_last_readiness :: "ready_info option"
  e_active_level :: bool
  e_placement_worker_id :: "worker_id option"
  e_kind :: "endpoint_kind option"
  e_ip :: ipv4
  e_dns_entry :: "dns_entry_info option"

datatype endpoint_input =
    ConfigInput "endpoint_config option"
  | ReadinessInput "ready_info option list"
  | PlacementInput "worker_id option list"
  | EndpointDemandTraffic
  | BackendNeedInput bool
  | ActivateEndpoint bool
  | EndpointTimerFired endpoint_timer_key

record endpoint_ctx =
  ee_demand :: "bool option"
  ee_wanted_timers :: "endpoint_timer_key timer_request list option"
  ee_status :: "endpoint_status option"
  ee_current_backend_need :: "backend_need option"
  ee_idle_timer_active :: "bool option"
  ee_endpoint_info :: "endpoint_info option option"
  ee_dns_entry :: "dns_entry_info option option"
  ee_endpoint_demand :: "workload_id list option"
  ee_endpoint_timers :: "timer_id list option"
  ee_endpoint_fabric_endpoints :: "fabric_endpoint_id list option"
  ee_endpoint_dns :: "dns_registry_id list option"
  ee_endpoint_observability :: "observability_id list option"
  ee_self_destruct :: bool

definition endpoint_ctx_new :: endpoint_ctx where
  "endpoint_ctx_new = \<lparr>ee_demand = None, ee_wanted_timers = None, ee_status = None,
     ee_current_backend_need = None, ee_idle_timer_active = None, ee_endpoint_info = None,
     ee_dns_entry = None, ee_endpoint_demand = None, ee_endpoint_timers = None,
     ee_endpoint_fabric_endpoints = None, ee_endpoint_dns = None,
     ee_endpoint_observability = None, ee_self_destruct = False\<rparr>"

section \<open>Operations\<close>

definition compute_demand :: "endpoint_sm \<Rightarrow> bool" where
  "compute_demand sm =
     (if \<not> e_has_activation sm then True else e_active_level sm \<or> e_idle_timer_active sm)"

definition derive_state :: "endpoint_sm \<Rightarrow> endpoint_sm" where
  "derive_state sm =
     (let demand = compute_demand sm
      in sm\<lparr>e_state := (case e_last_readiness sm of
             Some info \<Rightarrow> EsActive info
           | None \<Rightarrow> if demand then EsNeedBackend else EsIdle)\<rparr>)"

definition endpoint_new :: "bool \<Rightarrow> endpoint_sm" where
  "endpoint_new has_activation =
     derive_state \<lparr>e_state = EsIdle, e_has_activation = has_activation, e_idle_generation = 0,
       e_idle_timer_active = False, e_idle_timeout = 0, e_last_readiness = None,
       e_active_level = False, e_placement_worker_id = None, e_kind = None,
       e_ip = ipv4_unspecified, e_dns_entry = None\<rparr>"

definition endpoint_update_timer_signal :: "endpoint_sm \<Rightarrow> endpoint_ctx \<Rightarrow> endpoint_ctx" where
  "endpoint_update_timer_signal sm ctx =
     ctx\<lparr>ee_wanted_timers := Some
       (if e_idle_timer_active sm
        then [\<lparr>tr_key = IdleTimeout, tr_generation = e_idle_generation sm,
               tr_duration = e_idle_timeout sm\<rparr>]
        else [])\<rparr>"

fun endpoint_status_of :: "endpoint_state \<Rightarrow> endpoint_status" where
  "endpoint_status_of EsIdle = EpIdle"
| "endpoint_status_of EsNeedBackend = EpNeedBackend"
| "endpoint_status_of (EsActive _) = EpActive"

definition endpoint_info_of :: "endpoint_sm \<Rightarrow> endpoint_info option" where
  "endpoint_info_of sm = (case (e_state sm, e_kind sm) of
       (EsActive ready, Some kind) \<Rightarrow>
         let backend_ip = (case kind of
               EkService _ _ \<Rightarrow> Some (ri_pod_ip ready)
             | EkWorkload \<Rightarrow> None)
         in Some \<lparr>ei_kind = kind, ei_ip = e_ip sm,
              ei_backend = Some \<lparr>eb_ip = backend_ip, eb_worker_id = ri_worker_id ready\<rparr>\<rparr>
     | (_, Some EkWorkload) \<Rightarrow>
         Some \<lparr>ei_kind = EkWorkload, ei_ip = e_ip sm,
           ei_backend = map_option (\<lambda>wid. \<lparr>eb_ip = None, eb_worker_id = wid\<rparr>)
                          (e_placement_worker_id sm)\<rparr>
     | (_, Some kind) \<Rightarrow>
         if e_has_activation sm
         then Some \<lparr>ei_kind = kind, ei_ip = e_ip sm, ei_backend = None\<rparr>
         else None
     | _ \<Rightarrow> None)"

definition endpoint_update_status_signals :: "endpoint_sm \<Rightarrow> endpoint_ctx \<Rightarrow> endpoint_ctx" where
  "endpoint_update_status_signals sm ctx =
     ctx\<lparr>ee_status := Some (endpoint_status_of (e_state sm)),
         ee_current_backend_need := Some (if compute_demand sm then NeedActive else NeedNone),
         ee_idle_timer_active := Some (e_idle_timer_active sm),
         ee_endpoint_info := Some (endpoint_info_of sm),
         ee_dns_entry := Some (e_dns_entry sm)\<rparr>"

definition handle_config ::
  "endpoint_config option \<Rightarrow> endpoint_sm \<times> endpoint_ctx \<Rightarrow> endpoint_sm \<times> endpoint_ctx" where
  "handle_config config = (\<lambda>(sm, ctx). case config of
       Some config \<Rightarrow>
         let sm = sm\<lparr>e_kind := Some (ec_kind config),
                     e_has_activation := ec_has_activation config,
                     e_idle_timeout := ec_idle_timeout config,
                     e_ip := ec_ip config,
                     e_dns_entry := ec_dns_entry config\<rparr>;
             ctx = ctx\<lparr>ee_endpoint_demand := Some [ec_workload config]\<rparr>
         in if e_idle_timer_active sm \<and> \<not> e_has_activation sm
            then (let sm = sm\<lparr>e_idle_timer_active := False\<rparr>
                  in (sm, endpoint_update_timer_signal sm ctx))
            else (sm, ctx)
     | None \<Rightarrow> (sm, ctx\<lparr>ee_self_destruct := True\<rparr>))"

definition handle_readiness :: "ready_info option \<Rightarrow> endpoint_sm \<Rightarrow> endpoint_sm" where
  "handle_readiness ready sm = sm\<lparr>e_last_readiness := ready\<rparr>"

definition handle_placement :: "worker_id option \<Rightarrow> endpoint_sm \<Rightarrow> endpoint_sm" where
  "handle_placement wid sm = sm\<lparr>e_placement_worker_id := wid\<rparr>"

definition handle_activate ::
  "bool \<Rightarrow> endpoint_sm \<times> endpoint_ctx \<Rightarrow> endpoint_sm \<times> endpoint_ctx" where
  "handle_activate active = (\<lambda>(sm, ctx).
     let sm = sm\<lparr>e_active_level := active\<rparr>
     in if active \<and> e_idle_timer_active sm
        then (let sm = sm\<lparr>e_idle_timer_active := False\<rparr>
              in (sm, endpoint_update_timer_signal sm ctx))
        else (sm, ctx))"

definition handle_traffic_event ::
  "endpoint_sm \<times> endpoint_ctx \<Rightarrow> endpoint_sm \<times> endpoint_ctx" where
  "handle_traffic_event = (\<lambda>(sm, ctx).
     if e_has_activation sm
     then (let sm = sm\<lparr>e_idle_timer_active := True,
                       e_idle_generation := e_idle_generation sm + 1\<rparr>
           in (sm, endpoint_update_timer_signal sm ctx))
     else (sm, ctx))"

definition handle_timer_fired ::
  "endpoint_timer_key \<Rightarrow> endpoint_sm \<times> endpoint_ctx \<Rightarrow> endpoint_sm \<times> endpoint_ctx" where
  "handle_timer_fired key = (\<lambda>(sm, ctx).
     if e_idle_timer_active sm
     then (let sm = sm\<lparr>e_idle_timer_active := False\<rparr>
           in (sm, endpoint_update_timer_signal sm ctx))
     else (sm, ctx))"

text \<open>The three lines after every input: derive the state, signal demand and status.\<close>

definition endpoint_settle :: "endpoint_sm \<times> endpoint_ctx \<Rightarrow> endpoint_sm \<times> endpoint_ctx" where
  "endpoint_settle = (\<lambda>(sm, ctx).
     let sm = derive_state sm;
         ctx = ctx\<lparr>ee_demand := Some (compute_demand sm)\<rparr>
     in (sm, endpoint_update_status_signals sm ctx))"

definition endpoint_initialize :: "endpoint_sm \<times> endpoint_ctx \<Rightarrow> endpoint_sm \<times> endpoint_ctx" where
  "endpoint_initialize = (\<lambda>(sm, ctx).
     endpoint_settle (sm, ctx\<lparr>ee_endpoint_timers := Some [TIMER],
       ee_endpoint_fabric_endpoints := Some [FABRIC_ENDPOINT],
       ee_endpoint_dns := Some [DNS_REGISTRY],
       ee_endpoint_observability := Some [OBSERVABILITY]\<rparr>))"

fun endpoint_dispatch ::
  "endpoint_input \<Rightarrow> endpoint_sm \<times> endpoint_ctx \<Rightarrow> endpoint_sm \<times> endpoint_ctx" where
  "endpoint_dispatch (ConfigInput config) (sm, ctx) = handle_config config (sm, ctx)"
| "endpoint_dispatch (ReadinessInput readiness_list) (sm, ctx) =
     (handle_readiness (flatten_opt (first readiness_list)) sm, ctx)"
| "endpoint_dispatch (PlacementInput placement_list) (sm, ctx) =
     (handle_placement (flatten_opt (first placement_list)) sm, ctx)"
| "endpoint_dispatch EndpointDemandTraffic (sm, ctx) = handle_traffic_event (sm, ctx)"
| "endpoint_dispatch (BackendNeedInput need) (sm, ctx) = handle_activate need (sm, ctx)"
| "endpoint_dispatch (ActivateEndpoint _) (sm, ctx) = (sm, ctx)"
| "endpoint_dispatch (EndpointTimerFired key) (sm, ctx) = handle_timer_fired key (sm, ctx)"

definition endpoint_handle ::
  "endpoint_input \<Rightarrow> endpoint_sm \<times> endpoint_ctx \<Rightarrow> endpoint_sm \<times> endpoint_ctx" where
  "endpoint_handle inp s = endpoint_settle (endpoint_dispatch inp s)"

lemmas endpoint_handler_defs = handle_config_def handle_readiness_def handle_placement_def
  handle_activate_def handle_traffic_event_def handle_timer_fired_def

section \<open>Published values\<close>

record endpoint_out =
  eo_demand :: bool
  eo_wanted_timers :: "endpoint_timer_key timer_request list"
  eo_status :: endpoint_status
  eo_current_backend_need :: backend_need
  eo_idle_timer_active :: bool
  eo_endpoint_info :: "endpoint_info option"
  eo_dns_entry :: "dns_entry_info option"
  eo_endpoint_demand :: "workload_id list"

definition endpoint_out_default :: endpoint_out where
  "endpoint_out_default = \<lparr>eo_demand = False, eo_wanted_timers = [], eo_status = EpIdle,
     eo_current_backend_need = NeedNone, eo_idle_timer_active = False, eo_endpoint_info = None,
     eo_dns_entry = None, eo_endpoint_demand = []\<rparr>"

definition endpoint_publish :: "endpoint_ctx \<Rightarrow> endpoint_out \<Rightarrow> endpoint_out" where
  "endpoint_publish ctx out =
     \<lparr>eo_demand = latest (ee_demand ctx) (eo_demand out),
      eo_wanted_timers = latest (ee_wanted_timers ctx) (eo_wanted_timers out),
      eo_status = latest (ee_status ctx) (eo_status out),
      eo_current_backend_need = latest (ee_current_backend_need ctx) (eo_current_backend_need out),
      eo_idle_timer_active = latest (ee_idle_timer_active ctx) (eo_idle_timer_active out),
      eo_endpoint_info = latest (ee_endpoint_info ctx) (eo_endpoint_info out),
      eo_dns_entry = latest (ee_dns_entry ctx) (eo_dns_entry out),
      eo_endpoint_demand = latest (ee_endpoint_demand ctx) (eo_endpoint_demand out)\<rparr>"

inductive endpoint_reach :: "endpoint_sm \<Rightarrow> endpoint_out \<Rightarrow> bool" where
  init: "endpoint_initialize (endpoint_new b, endpoint_ctx_new) = (sm, ctx) \<Longrightarrow>
    endpoint_reach sm (endpoint_publish ctx endpoint_out_default)"
| step: "endpoint_reach sm out \<Longrightarrow> endpoint_handle inp (sm, endpoint_ctx_new) = (sm', ctx) \<Longrightarrow>
    \<not> ee_self_destruct ctx \<Longrightarrow> endpoint_reach sm' (endpoint_publish ctx out)"

definition endpoint_derived :: "endpoint_sm \<Rightarrow> bool" where
  "endpoint_derived sm \<longleftrightarrow> e_state sm = (case e_last_readiness sm of
       Some info \<Rightarrow> EsActive info
     | None \<Rightarrow> if compute_demand sm then EsNeedBackend else EsIdle)"

definition endpoint_timers_ok :: "endpoint_sm \<Rightarrow> endpoint_timer_key timer_request list \<Rightarrow> bool" where
  "endpoint_timers_ok sm ts \<longleftrightarrow>
     (if e_idle_timer_active sm
      then (\<exists>d. ts = [\<lparr>tr_key = IdleTimeout, tr_generation = e_idle_generation sm, tr_duration = d\<rparr>])
      else ts = [])"

definition endpoint_inv :: "endpoint_sm \<Rightarrow> endpoint_out \<Rightarrow> bool" where
  "endpoint_inv sm out \<longleftrightarrow>
     endpoint_derived sm \<and>
     (e_idle_timer_active sm \<longrightarrow> e_has_activation sm) \<and>
     eo_demand out = compute_demand sm \<and>
     eo_status out = endpoint_status_of (e_state sm) \<and>
     eo_current_backend_need out = (if compute_demand sm then NeedActive else NeedNone) \<and>
     eo_idle_timer_active out = e_idle_timer_active sm \<and>
     eo_endpoint_info out = endpoint_info_of sm \<and>
     eo_dns_entry out = e_dns_entry sm \<and>
     endpoint_timers_ok sm (eo_wanted_timers out)"

lemma endpoint_ctx_new_sel [simp]:
  "ee_demand endpoint_ctx_new = None" "ee_wanted_timers endpoint_ctx_new = None"
  "ee_status endpoint_ctx_new = None" "ee_endpoint_info endpoint_ctx_new = None"
  "ee_endpoint_demand endpoint_ctx_new = None" "\<not> ee_self_destruct endpoint_ctx_new"
  by (simp_all add: endpoint_ctx_new_def)

lemma compute_demand_state [simp]: "compute_demand (sm\<lparr>e_state := s\<rparr>) = compute_demand sm"
  by (simp add: compute_demand_def)

lemma derive_state_sel [simp]:
  "e_has_activation (derive_state sm) = e_has_activation sm"
  "e_idle_generation (derive_state sm) = e_idle_generation sm"
  "e_idle_timer_active (derive_state sm) = e_idle_timer_active sm"
  "e_last_readiness (derive_state sm) = e_last_readiness sm"
  "e_active_level (derive_state sm) = e_active_level sm"
  "e_dns_entry (derive_state sm) = e_dns_entry sm"
  "compute_demand (derive_state sm) = compute_demand sm"
  "endpoint_derived (derive_state sm)"
  by (simp_all add: derive_state_def endpoint_derived_def Let_def)

text \<open>What every input ends with: all signals but the timers are set from the state.\<close>

lemma endpoint_settle_inv:
  assumes "endpoint_timers_ok sm (latest (ee_wanted_timers ctx) (eo_wanted_timers out))"
    and "e_idle_timer_active sm \<Longrightarrow> e_has_activation sm"
  shows "endpoint_inv (fst (endpoint_settle (sm, ctx)))
           (endpoint_publish (snd (endpoint_settle (sm, ctx))) out)"
  using assms
  by (auto simp: endpoint_settle_def endpoint_inv_def endpoint_publish_def endpoint_timers_ok_def
      endpoint_update_status_signals_def Let_def)

lemma endpoint_inv_init:
  "endpoint_inv (fst (endpoint_initialize (endpoint_new b, endpoint_ctx_new)))
     (endpoint_publish (snd (endpoint_initialize (endpoint_new b, endpoint_ctx_new)))
        endpoint_out_default)"
  unfolding endpoint_initialize_def prod.case
  by (rule endpoint_settle_inv)
     (simp_all add: endpoint_new_def endpoint_timers_ok_def endpoint_out_default_def)

lemma endpoint_inv_step_fun:
  assumes "endpoint_inv sm out"
  shows "endpoint_inv (fst (endpoint_handle inp (sm, endpoint_ctx_new)))
     (endpoint_publish (snd (endpoint_handle inp (sm, endpoint_ctx_new))) out)"
proof -
  obtain sm1 ctx1 where d: "endpoint_dispatch inp (sm, endpoint_ctx_new) = (sm1, ctx1)" by force
  have "endpoint_timers_ok sm1 (latest (ee_wanted_timers ctx1) (eo_wanted_timers out)) \<and>
      (e_idle_timer_active sm1 \<longrightarrow> e_has_activation sm1)"
    using assms d
    by (cases inp)
       (auto simp: endpoint_inv_def endpoint_timers_ok_def endpoint_handler_defs
          endpoint_update_timer_signal_def Let_def split: option.splits if_splits)
  then show ?thesis
    unfolding endpoint_handle_def d by (intro endpoint_settle_inv) simp_all
qed

lemma endpoint_reach_inv: "endpoint_reach sm out \<Longrightarrow> endpoint_inv sm out"
proof (induction rule: endpoint_reach.induct)
  case (init b sm ctx)
  then show ?case using endpoint_inv_init [of b] by simp
next
  case (step sm out inp sm' ctx)
  then show ?case using endpoint_inv_step_fun [of sm out inp] by simp
qed

section \<open>Demand\<close>

text \<open>The inputs that can take the demand of an endpoint away.\<close>

fun may_drop_demand :: "endpoint_input \<Rightarrow> bool" where
  "may_drop_demand (EndpointTimerFired _) = True"
| "may_drop_demand (BackendNeedInput active) = (\<not> active)"
| "may_drop_demand (ConfigInput (Some c)) = ec_has_activation c"
| "may_drop_demand _ = False"

lemma endpoint_demand_kept:
  assumes "compute_demand sm" "\<not> may_drop_demand inp"
  shows "compute_demand (fst (endpoint_handle inp (sm, ctx)))"
  using assms
  by (cases inp)
     (auto simp: endpoint_handle_def endpoint_settle_def endpoint_handler_defs compute_demand_def
        Let_def split: option.splits)

lemma endpoint_traffic_demand:
  "compute_demand (fst (endpoint_handle EndpointDemandTraffic (sm, ctx)))"
  by (simp add: endpoint_handle_def endpoint_settle_def endpoint_handler_defs compute_demand_def
      Let_def)

text \<open>A timer that fires while connections are active does not drop the demand.\<close>

lemma endpoint_timer_keeps_active:
  assumes "e_active_level sm"
  shows "compute_demand (fst (endpoint_handle (EndpointTimerFired k) (sm, ctx)))"
  using assms
  by (simp add: endpoint_handle_def endpoint_settle_def endpoint_handler_defs compute_demand_def
      Let_def)

section \<open>Table entries\<close>

text \<open>
  An entry with a backend of a service carries the address of the pod, one of a
  workload carries none (its own address is the address of the pod).
\<close>

lemma endpoint_info_backend:
  assumes "endpoint_info_of sm = Some info" "ei_backend info = Some b"
  shows "(eb_ip b = None) = (ei_kind info = EkWorkload)"
  using assms
  by (auto simp: endpoint_info_of_def Let_def split: endpoint_state.splits option.splits
      endpoint_kind.splits if_splits)

lemma endpoint_info_published_iff:
  assumes "endpoint_derived sm"
  shows "endpoint_info_of sm \<noteq> None \<longleftrightarrow>
    (case e_kind sm of
       None \<Rightarrow> False
     | Some EkWorkload \<Rightarrow> True
     | Some (EkService _ _) \<Rightarrow> e_last_readiness sm \<noteq> None \<or> e_has_activation sm)"
  using assms
  by (auto simp: endpoint_info_of_def endpoint_derived_def Let_def
      split: endpoint_state.splits option.splits endpoint_kind.splits if_splits)

section \<open>Properties\<close>



text \<open>
   Demand for a backend is not lost by accident: once an endpoint demands a
  backend, only the idle timer, the end of the activator's level signal or a
  new configuration with activation can end the demand; traffic always creates
  it, and while the level signal is on not even the timer ends it.
\<close>

theorem endpoint_demand_retention:
  "(compute_demand sm \<and> \<not> may_drop_demand inp \<longrightarrow> compute_demand (fst (endpoint_handle inp (sm, ctx)))) \<and>
   compute_demand (fst (endpoint_handle EndpointDemandTraffic (sm, ctx))) \<and>
   (e_active_level sm \<longrightarrow> compute_demand (fst (endpoint_handle (EndpointTimerFired k) (sm, ctx))))"
  using endpoint_demand_kept endpoint_traffic_demand endpoint_timer_keeps_active by blast

theorem endpoint_demand_retention_witness:
  "compute_demand (endpoint_new False) \<and>
   compute_demand (fst (endpoint_handle (ReadinessInput []) (endpoint_new False, endpoint_ctx_new)))"
  using endpoint_demand_retention [of "endpoint_new False" "ReadinessInput []" endpoint_ctx_new IdleTimeout]
  by (simp add: endpoint_new_def compute_demand_def)

text \<open>
   What a reachable endpoint tells the fabric: a workload endpoint is published
  from its first configuration on, a service endpoint when it has a backend or
  activation; and the backend of a published endpoint carries an address
  exactly when the endpoint is a service.
\<close>

theorem endpoint_info_spec:
  assumes "endpoint_reach sm out"
  shows "(eo_endpoint_info out \<noteq> None \<longleftrightarrow> (case e_kind sm of
        None \<Rightarrow> False
      | Some EkWorkload \<Rightarrow> True
      | Some (EkService _ _) \<Rightarrow> e_last_readiness sm \<noteq> None \<or> e_has_activation sm)) \<and>
    (\<forall>info b. eo_endpoint_info out = Some info \<longrightarrow> ei_backend info = Some b \<longrightarrow>
       (eb_ip b = None \<longleftrightarrow> ei_kind info = EkWorkload))"
proof -
  have "endpoint_derived sm" "eo_endpoint_info out = endpoint_info_of sm"
    using endpoint_reach_inv [OF assms] by (simp_all add: endpoint_inv_def)
  then show ?thesis using endpoint_info_published_iff endpoint_info_backend by auto
qed

theorem endpoint_info_spec_witness:
  "eo_endpoint_info (endpoint_publish (snd (endpoint_initialize (endpoint_new True, endpoint_ctx_new)))
     endpoint_out_default) = None"
proof -
  have "endpoint_reach (fst (endpoint_initialize (endpoint_new True, endpoint_ctx_new)))
      (endpoint_publish (snd (endpoint_initialize (endpoint_new True, endpoint_ctx_new))) endpoint_out_default)"
    by (rule endpoint_reach.init [of True]) simp
  moreover have "e_kind (fst (endpoint_initialize (endpoint_new True, endpoint_ctx_new))) = None"
    by code_simp
  ultimately show ?thesis using endpoint_info_spec by fastforce
qed

end
