(* ===== verification/Service_Sm.thy ===== *)
theory Service_Sm
  imports Endpoint_Sm
begin

text \<open>
  The service state machine (\<open>crates/orchestrator/src/sm/service.rs\<close>): a thin
  owner that creates one endpoint, keeps its configuration up to date and
  forwards activation events to it.
\<close>

record service_sm =
  s_endpoint_id :: "endpoint_id option"

datatype service_input =
    SvcSpecInput "(management_id \<times> service_spec) option"
  | ActivateService bool

record service_ctx =
  sx_endpoint_config :: "endpoint_config option option"
  sx_service_endpoint_ownership :: "endpoint_id list option"
  sx_pending_events :: "(endpoint_id \<times> bool) list"
  sx_pending_creates :: "(endpoint_id \<times> endpoint_sm) list"
  sx_self_destruct :: bool
  sx_id_alloc :: id_alloc

definition service_ctx_new :: "id_alloc \<Rightarrow> service_ctx" where
  "service_ctx_new a = \<lparr>sx_endpoint_config = None, sx_service_endpoint_ownership = None,
     sx_pending_events = [], sx_pending_creates = [], sx_self_destruct = False, sx_id_alloc = a\<rparr>"

definition service_new :: service_sm where
  "service_new = \<lparr>s_endpoint_id = None\<rparr>"

definition service_create_endpoint :: "endpoint_sm \<Rightarrow> service_ctx \<Rightarrow> endpoint_id \<times> service_ctx" where
  "service_create_endpoint ep ctx =
     (let (n, a) = seq_ids_alloc KEndpoint (sx_id_alloc ctx)
      in (EndpointId n, ctx\<lparr>sx_id_alloc := a,
            sx_pending_creates := sx_pending_creates ctx @ [(EndpointId n, ep)]\<rparr>))"

definition service_endpoint_config :: "service_id \<Rightarrow> service_spec \<Rightarrow> endpoint_config" where
  "service_endpoint_config sid spec =
     \<lparr>ec_kind = EkService sid (ss_policy spec),
      ec_workload = ss_workload spec,
      ec_has_activation = ss_has_activation spec,
      ec_idle_timeout = ss_idle_timeout spec,
      ec_ip = ss_ip spec,
      ec_dns_entry = (case (ss_dns_name spec, ss_dns_ip spec) of
          (Some name, Some ip) \<Rightarrow> Some \<lparr>de_name = name, de_ip = ip\<rparr>
        | _ \<Rightarrow> None)\<rparr>"

fun service_handle ::
  "service_id \<Rightarrow> service_input \<Rightarrow> service_sm \<times> service_ctx \<Rightarrow> service_sm \<times> service_ctx" where
  "service_handle sid (SvcSpecInput (Some (_, spec))) (sm, ctx) =
     (let (sm, ctx) = (if s_endpoint_id sm = None
            then (let (ep_id, ctx) = service_create_endpoint
                        (endpoint_new (ss_has_activation spec)) ctx
                  in (sm\<lparr>s_endpoint_id := Some ep_id\<rparr>,
                      ctx\<lparr>sx_service_endpoint_ownership := Some [ep_id]\<rparr>))
            else (sm, ctx))
      in (sm, ctx\<lparr>sx_endpoint_config := Some (Some (service_endpoint_config sid spec))\<rparr>))"
| "service_handle sid (SvcSpecInput None) (sm, ctx) = (sm, ctx\<lparr>sx_self_destruct := True\<rparr>)"
| "service_handle sid (ActivateService active) (sm, ctx) =
     (case s_endpoint_id sm of
        Some ep_id \<Rightarrow> (sm, ctx\<lparr>sx_pending_events := sx_pending_events ctx @ [(ep_id, active)]\<rparr>)
      | None \<Rightarrow> (sm, ctx))"

section \<open>One endpoint per service\<close>

record service_out =
  so_endpoint_config :: "endpoint_config option"
  so_ownership :: "endpoint_id list"
  so_created :: "endpoint_id list"

definition service_out_default :: service_out where
  "service_out_default = \<lparr>so_endpoint_config = None, so_ownership = [], so_created = []\<rparr>"

definition service_publish :: "service_ctx \<Rightarrow> service_out \<Rightarrow> service_out" where
  "service_publish ctx out =
     \<lparr>so_endpoint_config = latest (sx_endpoint_config ctx) (so_endpoint_config out),
      so_ownership = latest (sx_service_endpoint_ownership ctx) (so_ownership out),
      so_created = so_created out @ map fst (sx_pending_creates ctx)\<rparr>"

inductive service_reach :: "service_id \<Rightarrow> service_sm \<Rightarrow> service_out \<Rightarrow> bool" for sid where
  init: "service_reach sid service_new service_out_default"
| step: "service_reach sid sm out \<Longrightarrow>
    service_handle sid inp (sm, service_ctx_new a) = (sm', ctx) \<Longrightarrow>
    \<not> sx_self_destruct ctx \<Longrightarrow> service_reach sid sm' (service_publish ctx out)"

definition service_inv :: "service_id \<Rightarrow> service_sm \<Rightarrow> service_out \<Rightarrow> bool" where
  "service_inv sid sm out \<longleftrightarrow>
     so_ownership out = opt_list (s_endpoint_id sm) \<and>
     so_created out = opt_list (s_endpoint_id sm) \<and>
     (s_endpoint_id sm = None \<longleftrightarrow> so_endpoint_config out = None) \<and>
     (\<forall>c. so_endpoint_config out = Some c \<longrightarrow> (\<exists>p. ec_kind c = EkService sid p))"

lemma service_reach_inv: "service_reach sid sm out \<Longrightarrow> service_inv sid sm out"
proof (induction rule: service_reach.induct)
  case init
  then show ?case by (simp add: service_inv_def service_new_def service_out_default_def)
next
  case (step sm out inp a sm' ctx)
  then show ?case
    by (cases "(sid, inp, (sm, service_ctx_new a))" rule: service_handle.cases)
       (auto simp: service_inv_def service_publish_def service_ctx_new_def
          service_create_endpoint_def service_endpoint_config_def Let_def
          split: if_splits option.splits prod.splits)
qed

section \<open>Properties\<close>

text \<open>
   A service owns at most one endpoint over its whole life: in every reachable
  state the endpoints it has created are the one it owns, it has published a
  configuration exactly when it has that endpoint, and the configuration names
  this service.
\<close>

theorem service_one_endpoint:
  assumes "service_reach sid sm out"
  shows "so_created out = opt_list (s_endpoint_id sm) \<and>
    so_ownership out = opt_list (s_endpoint_id sm) \<and>
    (s_endpoint_id sm = None \<longleftrightarrow> so_endpoint_config out = None) \<and>
    (\<forall>c. so_endpoint_config out = Some c \<longrightarrow> (\<exists>p. ec_kind c = EkService sid p))"
  using service_reach_inv [OF assms] by (simp add: service_inv_def)

theorem service_one_endpoint_witness:
  "service_reach (ServiceId 7) service_new service_out_default \<and> so_created service_out_default = []"
proof -
  have r: "service_reach (ServiceId 7) service_new service_out_default" by (rule service_reach.init)
  moreover have "s_endpoint_id service_new = None" by (simp add: service_new_def)
  ultimately show ?thesis using service_one_endpoint [OF r] by (simp add: opt_list_def)
qed

end
