(* ===== verification/Pod_Sm.thy ===== *)
theory Pod_Sm
  imports Sm_Types
begin

text \<open>
  The pod state machine (\<open>crates/orchestrator/src/sm/pod.rs\<close>).  A handler
  works on the pod and on the buffered effects of its context
  (\<open>PodEffects\<close>, generated by the router macro): every signal and edge set is
  an optional pending write, \<open>self_destruct\<close> a flag.  The published values
  (\<open>pod_out\<close>) are what the router holds after it has applied the buffers.

  The lemmas show that the status follows the documented lifecycle, that every
  published signal agrees with the state, that a terminal pod without an owner
  is always reaped and only then, and that no live pod can wait forever.
\<close>

section \<open>State, inputs and effects\<close>

record pod_sm =
  p_status :: pod_status
  p_workload_id :: "workload_id option"
  p_worker_id :: "worker_id option"
  p_intent :: pod_intent
  p_resume_artifact :: "artifact_port_id option"
  p_timer_generation :: u64
  p_assigned_worker :: "worker_id option"
  p_launch_spec :: "workload_spec option"

datatype pod_input =
    LaunchSpecInput "workload_spec option"
  | WorkerInput "(worker_id \<times> worker_info) option"
  | OwnerInput "(workload_id \<times> pod_intent) option"
  | NotifyPodStatus pod_status
  | NotifyPodSuspended artifact_port_id
  | LeaseInput "lease_info option"
  | PodTimerFired pod_timer_key

record pod_ctx =
  pe_status :: "pod_status option"
  pe_assigned_worker :: "worker_id option option"
  pe_wanted_timers :: "pod_timer_key timer_request list option"
  pe_schedule_request :: "pod_schedule_request option"
  pe_pod_report :: "workload_id list option"
  pe_pod_timers :: "timer_id list option"
  pe_pod_schedule_intent :: "schedule_request_id list option"
  pe_pod_placement :: "worker_id list option"
  pe_pod_observability :: "observability_id list option"
  pe_self_destruct :: bool

definition pod_ctx_new :: pod_ctx where
  "pod_ctx_new = \<lparr>pe_status = None, pe_assigned_worker = None, pe_wanted_timers = None,
     pe_schedule_request = None, pe_pod_report = None, pe_pod_timers = None,
     pe_pod_schedule_intent = None, pe_pod_placement = None, pe_pod_observability = None,
     pe_self_destruct = False\<rparr>"

lemma pod_ctx_new_sel [simp]:
  "pe_status pod_ctx_new = None" "pe_assigned_worker pod_ctx_new = None"
  "pe_wanted_timers pod_ctx_new = None" "pe_schedule_request pod_ctx_new = None"
  "pe_pod_report pod_ctx_new = None" "pe_pod_timers pod_ctx_new = None"
  "pe_pod_schedule_intent pod_ctx_new = None" "pe_pod_placement pod_ctx_new = None"
  "pe_pod_observability pod_ctx_new = None" "\<not> pe_self_destruct pod_ctx_new"
  by (simp_all add: pod_ctx_new_def)

definition pod_new :: pod_sm where
  "pod_new = \<lparr>p_status = Pending, p_workload_id = None, p_worker_id = None,
     p_intent = IntentNone, p_resume_artifact = None, p_timer_generation = 0,
     p_assigned_worker = None, p_launch_spec = None\<rparr>"

definition pod_new_from_artifact :: "artifact_port_id \<Rightarrow> pod_sm" where
  "pod_new_from_artifact a = \<lparr>p_status = Pending, p_workload_id = None, p_worker_id = None,
     p_intent = IntentNone, p_resume_artifact = Some a, p_timer_generation = 0,
     p_assigned_worker = None, p_launch_spec = None\<rparr>"

section \<open>Operations\<close>

definition make_schedule_request :: "pod_sm \<Rightarrow> pod_schedule_request" where
  "make_schedule_request sm =
     \<lparr>psr_resume_artifact = p_resume_artifact sm,
      psr_suspend = (p_status sm = Suspending),
      psr_spec = p_launch_spec sm\<rparr>"

definition maybe_reap :: "pod_sm \<Rightarrow> pod_ctx \<Rightarrow> pod_ctx" where
  "maybe_reap sm ctx =
     (if is_terminal (p_status sm) \<and> p_workload_id sm = None
      then ctx\<lparr>pe_self_destruct := True\<rparr> else ctx)"

fun pod_timers :: "pod_status \<Rightarrow> u64 \<Rightarrow> pod_timer_key timer_request list" where
  "pod_timers Pending gen =
     [\<lparr>tr_key = LaunchTimeout, tr_generation = gen, tr_duration = from_secs 120\<rparr>]"
| "pod_timers Suspending gen =
     [\<lparr>tr_key = SuspendTimeout, tr_generation = gen, tr_duration = from_secs 30\<rparr>]"
| "pod_timers _ gen = []"

definition pod_update_timer_signal :: "pod_sm \<Rightarrow> pod_ctx \<Rightarrow> pod_ctx" where
  "pod_update_timer_signal sm ctx = ctx\<lparr>pe_wanted_timers := Some (pod_timers (p_status sm) (p_timer_generation sm))\<rparr>"

definition pod_initialize :: "pod_sm \<Rightarrow> pod_ctx \<Rightarrow> pod_ctx" where
  "pod_initialize sm ctx =
     pod_update_timer_signal sm
       (ctx\<lparr>pe_pod_timers := Some [TIMER],
            pe_pod_schedule_intent := Some [SCHEDULE_REQUEST],
            pe_pod_observability := Some [OBSERVABILITY],
            pe_schedule_request := Some (make_schedule_request sm)\<rparr>)"

text \<open>
  The four lines the handler repeats: set the status, signal it, update the
  timers, apply the reaping rule.
\<close>

definition pod_enter_status :: "pod_status \<Rightarrow> pod_sm \<times> pod_ctx \<Rightarrow> pod_sm \<times> pod_ctx" where
  "pod_enter_status st = (\<lambda>(sm, ctx).
     let sm = sm\<lparr>p_status := st\<rparr>;
         ctx = ctx\<lparr>pe_status := Some st\<rparr>;
         ctx = pod_update_timer_signal sm ctx;
         ctx = maybe_reap sm ctx
     in (sm, ctx))"

definition accepts_status :: "pod_status \<Rightarrow> pod_status \<Rightarrow> bool" where
  "accepts_status current new_status \<longleftrightarrow> \<not> is_terminal current \<and>
     (case new_status of
        Running \<Rightarrow> current = Pending
      | Failed _ _ \<Rightarrow> True
      | Finished _ \<Rightarrow> True
      | _ \<Rightarrow> False)"

definition pod_on_worker ::
  "(worker_id \<times> worker_info) option \<Rightarrow> pod_sm \<times> pod_ctx \<Rightarrow> pod_sm \<times> pod_ctx" where
  "pod_on_worker worker = (\<lambda>(sm, ctx).
     let new_worker_id = map_option fst worker;
         (sm, ctx) = (if new_worker_id \<noteq> p_worker_id sm
            then (sm\<lparr>p_worker_id := new_worker_id\<rparr>,
                  ctx\<lparr>pe_assigned_worker := Some new_worker_id\<rparr>)
            else (sm, ctx))
     in if worker = None \<and> \<not> is_terminal (p_status sm)
        then pod_enter_status Displaced (sm, ctx)
        else (sm, ctx))"

definition pod_on_owner ::
  "(workload_id \<times> pod_intent) option \<Rightarrow> pod_sm \<times> pod_ctx \<Rightarrow> pod_sm \<times> pod_ctx" where
  "pod_on_owner own = (\<lambda>(sm, ctx).
     let had_owner = (p_workload_id sm \<noteq> None);
         (new_wl, new_intent) =
           (case own of Some (wl, intent) \<Rightarrow> (Some wl, intent) | None \<Rightarrow> (None, IntentNone));
         sm = sm\<lparr>p_workload_id := new_wl, p_intent := new_intent\<rparr>;
         ctx = ctx\<lparr>pe_pod_report := Some (opt_list new_wl)\<rparr>;
         (sm, ctx) = (if p_status sm = Running \<and> p_intent sm = Suspend
            then (let sm = sm\<lparr>p_timer_generation := p_timer_generation sm + 1,
                              p_status := Suspending\<rparr>;
                      ctx = ctx\<lparr>pe_status := Some Suspending,
                                pe_schedule_request := Some (make_schedule_request sm)\<rparr>
                  in (sm, pod_update_timer_signal sm ctx))
            else (sm, ctx));
         (sm, ctx) = (if had_owner \<and> p_workload_id sm = None \<and> \<not> is_terminal (p_status sm)
            then (let st = Failed None ''owner lost'';
                      sm = sm\<lparr>p_status := st\<rparr>;
                      ctx = ctx\<lparr>pe_status := Some st\<rparr>
                  in (sm, pod_update_timer_signal sm ctx))
            else (sm, ctx))
     in (sm, maybe_reap sm ctx))"

definition pod_on_lease :: "lease_info option \<Rightarrow> pod_sm \<times> pod_ctx \<Rightarrow> pod_sm \<times> pod_ctx" where
  "pod_on_lease lease = (\<lambda>(sm, ctx).
     let had_lease = (p_assigned_worker sm \<noteq> None)
     in case lease of
          Some info \<Rightarrow>
            if \<not> had_lease \<and> p_status sm = Pending
            then (sm\<lparr>p_assigned_worker := Some (li_worker_id info)\<rparr>,
                  ctx\<lparr>pe_assigned_worker := Some (Some (li_worker_id info)),
                      pe_pod_placement := Some [li_worker_id info]\<rparr>)
            else (sm, ctx)
        | None \<Rightarrow>
            if had_lease \<and> \<not> is_terminal (p_status sm)
            then pod_enter_status Displaced
                   (sm\<lparr>p_assigned_worker := None\<rparr>, ctx\<lparr>pe_pod_placement := Some []\<rparr>)
            else (sm, ctx))"

fun pod_on_timer :: "pod_timer_key \<Rightarrow> pod_sm \<times> pod_ctx \<Rightarrow> pod_sm \<times> pod_ctx" where
  "pod_on_timer LaunchTimeout (sm, ctx) =
     (if p_status sm = Pending
      then pod_enter_status (Failed None ''launch timeout'') (sm, ctx) else (sm, ctx))"
| "pod_on_timer SuspendTimeout (sm, ctx) =
     (if p_status sm = Suspending
      then pod_enter_status (Failed None ''suspend timeout'') (sm, ctx) else (sm, ctx))"

fun pod_handle :: "pod_input \<Rightarrow> pod_sm \<times> pod_ctx \<Rightarrow> pod_sm \<times> pod_ctx" where
  "pod_handle (LaunchSpecInput spec) (sm, ctx) =
     (if p_launch_spec sm \<noteq> spec
      then let sm = sm\<lparr>p_launch_spec := spec\<rparr>
           in (sm, ctx\<lparr>pe_schedule_request := Some (make_schedule_request sm)\<rparr>)
      else (sm, ctx))"
| "pod_handle (WorkerInput worker) (sm, ctx) = pod_on_worker worker (sm, ctx)"
| "pod_handle (OwnerInput own) (sm, ctx) = pod_on_owner own (sm, ctx)"
| "pod_handle (NotifyPodStatus st) (sm, ctx) =
     (if accepts_status (p_status sm) st then pod_enter_status st (sm, ctx) else (sm, ctx))"
| "pod_handle (NotifyPodSuspended a) (sm, ctx) =
     (if p_status sm = Suspending then pod_enter_status (Suspended a) (sm, ctx) else (sm, ctx))"
| "pod_handle (LeaseInput lease) (sm, ctx) = pod_on_lease lease (sm, ctx)"
| "pod_handle (PodTimerFired key) (sm, ctx) = pod_on_timer key (sm, ctx)"

lemmas pod_defs = pod_enter_status_def pod_on_worker_def pod_on_owner_def pod_on_lease_def
  pod_update_timer_signal_def maybe_reap_def make_schedule_request_def accepts_status_def

section \<open>Lifecycle\<close>

text \<open>The lifecycle of the pod as a relation, the specification of the handler.\<close>

inductive pod_next :: "pod_status \<Rightarrow> pod_status \<Rightarrow> bool" where
  launch: "pod_next Pending Running"
| suspend: "pod_next Running Suspending"
| suspended: "pod_next Suspending (Suspended a)"
| failed: "\<not> is_terminal s \<Longrightarrow> pod_next s (Failed c r)"
| finished: "\<not> is_terminal s \<Longrightarrow> pod_next s (Finished c)"
| displaced: "\<not> is_terminal s \<Longrightarrow> pod_next s Displaced"

inductive_cases pod_next_terminalE: "pod_next s t"

declare pod_next.intros [intro]

lemma pod_next_not_terminal: "pod_next s t \<Longrightarrow> \<not> is_terminal s"
  by (erule pod_next_terminalE) auto

lemma pod_on_timer_cases:
  "pod_on_timer key (sm, ctx) =
     (if p_status sm = (case key of LaunchTimeout \<Rightarrow> Pending | SuspendTimeout \<Rightarrow> Suspending)
      then pod_enter_status (Failed None
             (case key of LaunchTimeout \<Rightarrow> ''launch timeout''
                        | SuspendTimeout \<Rightarrow> ''suspend timeout'')) (sm, ctx)
      else (sm, ctx))"
  by (cases key) simp_all

lemma pod_handle_lifecycle:
  "p_status (fst (pod_handle inp (sm, ctx))) = p_status sm \<or>
   pod_next (p_status sm) (p_status (fst (pod_handle inp (sm, ctx))))"
  by (cases inp)
     (auto simp: pod_on_timer_cases pod_defs Let_def
           split: option.splits prod.splits pod_status.splits pod_timer_key.splits)

lemma pod_handle_terminal:
  "is_terminal (p_status sm) \<Longrightarrow> p_status (fst (pod_handle inp (sm, ctx))) = p_status sm"
  using pod_handle_lifecycle [of inp sm ctx] pod_next_not_terminal by metis

section \<open>Published values\<close>

record pod_out =
  po_status :: pod_status
  po_assigned_worker :: "worker_id option"
  po_wanted_timers :: "pod_timer_key timer_request list"
  po_schedule_request :: pod_schedule_request
  po_pod_report :: "workload_id list"
  po_pod_timers :: "timer_id list"
  po_pod_schedule_intent :: "schedule_request_id list"
  po_pod_placement :: "worker_id list"
  po_pod_observability :: "observability_id list"

definition pod_out_default :: pod_out where
  "pod_out_default = \<lparr>po_status = Pending, po_assigned_worker = None, po_wanted_timers = [],
     po_schedule_request = \<lparr>psr_resume_artifact = None, psr_suspend = False, psr_spec = None\<rparr>,
     po_pod_report = [], po_pod_timers = [], po_pod_schedule_intent = [],
     po_pod_placement = [], po_pod_observability = []\<rparr>"

definition pod_publish :: "pod_ctx \<Rightarrow> pod_out \<Rightarrow> pod_out" where
  "pod_publish ctx out =
     \<lparr>po_status = latest (pe_status ctx) (po_status out),
      po_assigned_worker = latest (pe_assigned_worker ctx) (po_assigned_worker out),
      po_wanted_timers = latest (pe_wanted_timers ctx) (po_wanted_timers out),
      po_schedule_request = latest (pe_schedule_request ctx) (po_schedule_request out),
      po_pod_report = latest (pe_pod_report ctx) (po_pod_report out),
      po_pod_timers = latest (pe_pod_timers ctx) (po_pod_timers out),
      po_pod_schedule_intent = latest (pe_pod_schedule_intent ctx) (po_pod_schedule_intent out),
      po_pod_placement = latest (pe_pod_placement ctx) (po_pod_placement out),
      po_pod_observability = latest (pe_pod_observability ctx) (po_pod_observability out)\<rparr>"

text \<open>The pods the router can hold: initialised, then any inputs, never past a self-destruct.\<close>

inductive pod_reach :: "pod_sm \<Rightarrow> pod_out \<Rightarrow> bool" where
  init: "sm = pod_new \<or> sm = pod_new_from_artifact a \<Longrightarrow>
    pod_reach sm (pod_publish (pod_initialize sm pod_ctx_new) pod_out_default)"
| step: "pod_reach sm out \<Longrightarrow> pod_handle inp (sm, pod_ctx_new) = (sm', ctx) \<Longrightarrow>
    \<not> pe_self_destruct ctx \<Longrightarrow> pod_reach sm' (pod_publish ctx out)"

definition pod_inv :: "pod_sm \<Rightarrow> pod_out \<Rightarrow> bool" where
  "pod_inv sm out \<longleftrightarrow>
     po_status out = p_status sm \<and>
     po_wanted_timers out = pod_timers (p_status sm) (p_timer_generation sm) \<and>
     po_pod_report out = opt_list (p_workload_id sm) \<and>
     po_pod_placement out = opt_list (p_assigned_worker sm) \<and>
     (\<not> is_terminal (p_status sm) \<longrightarrow> po_schedule_request out = make_schedule_request sm) \<and>
     \<not> (is_terminal (p_status sm) \<and> p_workload_id sm = None)"

lemma pod_inv_init:
  "sm = pod_new \<or> sm = pod_new_from_artifact a \<Longrightarrow>
   pod_inv sm (pod_publish (pod_initialize sm pod_ctx_new) pod_out_default)"
  by (auto simp: pod_inv_def pod_publish_def pod_initialize_def pod_out_default_def
      pod_new_def pod_new_from_artifact_def pod_defs)

lemma pod_timers_terminal [simp]: "is_terminal st \<Longrightarrow> pod_timers st gen = []"
  by (cases st) simp_all

lemma accepts_statusD:
  "accepts_status s st \<Longrightarrow> \<not> is_terminal s \<and> (is_terminal st \<or> s = Pending \<and> st = Running)"
  by (auto simp: accepts_status_def split: pod_status.splits)

lemma pod_inv_placement: "pod_inv sm out \<Longrightarrow> po_pod_placement out = opt_list (p_assigned_worker sm)"
  by (simp add: pod_inv_def)

lemma pod_inv_enter_status:
  assumes "pod_inv sm out" "is_terminal st \<or> p_status sm = Pending \<and> st = Running"
    "p_workload_id sm1 = p_workload_id sm" "p_resume_artifact sm1 = p_resume_artifact sm"
    "p_launch_spec sm1 = p_launch_spec sm" "pe_pod_report ctx1 = None" "pe_schedule_request ctx1 = None"
    "latest (pe_pod_placement ctx1) (po_pod_placement out) = opt_list (p_assigned_worker sm1)"
    "\<not> pe_self_destruct (snd (pod_enter_status st (sm1, ctx1)))"
  shows "pod_inv (fst (pod_enter_status st (sm1, ctx1)))
           (pod_publish (snd (pod_enter_status st (sm1, ctx1))) out)"
  using assms
  by (auto simp: pod_enter_status_def pod_inv_def pod_publish_def pod_update_timer_signal_def
      maybe_reap_def make_schedule_request_def Let_def split: if_split_asm)

lemma pod_inv_unchanged:
  assumes "pod_inv sm out"
  shows "pod_inv (sm\<lparr>p_worker_id := w\<rparr>) (pod_publish (pod_ctx_new\<lparr>pe_assigned_worker := x\<rparr>) out)"
    and "pod_inv sm (pod_publish pod_ctx_new out)"
    and "pod_inv (sm\<lparr>p_assigned_worker := Some v\<rparr>) (pod_publish
           (pod_ctx_new\<lparr>pe_assigned_worker := x, pe_pod_placement := Some [v]\<rparr>) out)"
  using assms by (simp_all add: pod_inv_def pod_publish_def make_schedule_request_def)

lemma pod_inv_step_fun:
  assumes inv: "pod_inv sm out" and live: "\<not> pe_self_destruct (snd (pod_handle inp (sm, pod_ctx_new)))"
  shows "pod_inv (fst (pod_handle inp (sm, pod_ctx_new)))
           (pod_publish (snd (pod_handle inp (sm, pod_ctx_new))) out)"
proof (cases inp)
  case (LaunchSpecInput spec)
  with inv show ?thesis
    by (simp add: pod_inv_def pod_publish_def make_schedule_request_def Let_def)
next
  case (WorkerInput worker)
  with assms show ?thesis
    by (auto simp: pod_on_worker_def Let_def pod_inv_unchanged pod_inv_placement
        intro!: pod_inv_enter_status [where sm = sm] split: if_splits)
next
  case (OwnerInput own)
  with assms show ?thesis
    apply (cases own; cases "p_workload_id sm"; cases "is_terminal (p_status sm)")
    by (auto simp: pod_inv_def pod_publish_def pod_on_owner_def pod_update_timer_signal_def
        maybe_reap_def make_schedule_request_def Let_def
        split: if_split_asm)
qed (use assms in \<open>auto simp: pod_inv_unchanged pod_inv_placement pod_on_timer_cases pod_on_lease_def Let_def
        intro!: pod_inv_enter_status [where sm = sm] dest: accepts_statusD
        split: if_splits option.splits pod_timer_key.splits\<close>)

lemma pod_inv_step:
  assumes "pod_inv sm out" "pod_handle inp (sm, pod_ctx_new) = (sm', ctx)" "\<not> pe_self_destruct ctx"
  shows "pod_inv sm' (pod_publish ctx out)"
  using pod_inv_step_fun [OF assms(1), of inp] assms(2,3) by simp

lemma pod_reach_inv: "pod_reach sm out \<Longrightarrow> pod_inv sm out"
  by (induction rule: pod_reach.induct) (blast intro: pod_inv_init pod_inv_step)+

section \<open>Reaping, timeouts and abandonment\<close>

lemma pod_self_destruct_fun:
  assumes "\<not> (is_terminal (p_status sm) \<and> p_workload_id sm = None)"
  shows "pe_self_destruct (snd (pod_handle inp (sm, pod_ctx_new))) \<longleftrightarrow>
     is_terminal (p_status (fst (pod_handle inp (sm, pod_ctx_new)))) \<and>
     p_workload_id (fst (pod_handle inp (sm, pod_ctx_new))) = None"
  using assms
  by (cases inp) (auto simp: pod_on_timer_cases pod_defs Let_def
        split: option.split prod.split pod_timer_key.split)

lemma pod_timer_progress:
  assumes "r \<in> set (pod_timers (p_status sm) (p_timer_generation sm))"
  shows "\<exists>reason. p_status (fst (pod_handle (PodTimerFired (tr_key r)) (sm, ctx))) = Failed None reason"
  using assms
  by (cases "p_status sm") (auto simp: pod_enter_status_def Let_def)

lemma pod_abandoned:
  assumes "p_workload_id sm \<noteq> None"
    and "pod_handle (OwnerInput None) (sm, pod_ctx_new) = (sm', ctx)"
  shows "is_terminal (p_status sm')" "pe_self_destruct ctx" "pe_pod_report ctx = Some []"
  using assms
  by (auto simp: pod_on_owner_def pod_update_timer_signal_def maybe_reap_def Let_def
      split: if_splits)

section \<open>Properties\<close>

text \<open>
  C13.  A pod only moves along its life cycle: one handled input leaves the status
  alone or takes one step of \<^const>\<open>pod_next\<close> (pending to running, running to
  suspending, suspending to suspended, or any live status to failed, finished
  or displaced), and a terminal status is never left.
\<close>

theorem pod_lifecycle:
  "(p_status (fst (pod_handle inp (sm, ctx))) = p_status sm \<or>
    pod_next (p_status sm) (p_status (fst (pod_handle inp (sm, ctx))))) \<and>
   (is_terminal (p_status sm) \<longrightarrow> p_status (fst (pod_handle inp (sm, ctx))) = p_status sm)"
  using pod_handle_lifecycle pod_handle_terminal by blast

theorem pod_lifecycle_witness:
  "is_terminal (p_status (pod_new\<lparr>p_status := Displaced\<rparr>)) \<and>
   p_status (fst (pod_handle (NotifyPodStatus Running) (pod_new\<lparr>p_status := Displaced\<rparr>, pod_ctx_new))) =
     Displaced"
  using pod_lifecycle [of "NotifyPodStatus Running" "pod_new\<lparr>p_status := Displaced\<rparr>" pod_ctx_new]
  by simp



text \<open>
   A reachable pod is removed exactly when it is terminal and nobody owns it
  any more: no live pod is dropped, and no dead, ownerless pod stays.
\<close>

theorem pod_reaped_iff:
  assumes "pod_reach sm out"
  shows "pe_self_destruct (snd (pod_handle inp (sm, pod_ctx_new))) \<longleftrightarrow>
    is_terminal (p_status (fst (pod_handle inp (sm, pod_ctx_new)))) \<and>
    p_workload_id (fst (pod_handle inp (sm, pod_ctx_new))) = None"
  using pod_reach_inv [OF assms] by (intro pod_self_destruct_fun) (simp add: pod_inv_def)

theorem pod_reaped_iff_witness:
  "pod_reach pod_new (pod_publish (pod_initialize pod_new pod_ctx_new) pod_out_default) \<and>
   \<not> pe_self_destruct (snd (pod_handle (NotifyPodStatus Running) (pod_new, pod_ctx_new)))"
proof -
  have r: "pod_reach pod_new (pod_publish (pod_initialize pod_new pod_ctx_new) pod_out_default)"
    by (rule pod_reach.init) simp
  moreover have "\<not> is_terminal (p_status (fst (pod_handle (NotifyPodStatus Running) (pod_new, pod_ctx_new))))"
    by code_simp
  ultimately show ?thesis using pod_reaped_iff [OF r, of "NotifyPodStatus Running"] by simp
qed

text \<open>
   A pod cannot stay in a launching or suspending status for ever: a reachable
  pod in such a status has a timer, and every timer it has asked for ends it as
  failed when it fires.
\<close>

theorem pod_timer_ends:
  assumes "pod_reach sm out"
  shows "(p_status sm = Pending \<or> p_status sm = Suspending \<longrightarrow> po_wanted_timers out \<noteq> []) \<and>
    (\<forall>r\<in>set (po_wanted_timers out). \<exists>reason.
       p_status (fst (pod_handle (PodTimerFired (tr_key r)) (sm, ctx))) = Failed None reason)"
  using pod_reach_inv [OF assms] pod_timer_progress [of _ sm ctx] by (auto simp: pod_inv_def)

theorem pod_timer_ends_witness:
  "po_wanted_timers (pod_publish (pod_initialize pod_new pod_ctx_new) pod_out_default) \<noteq> [] \<and>
   (\<exists>reason. p_status (fst (pod_handle (PodTimerFired LaunchTimeout) (pod_new, pod_ctx_new))) =
      Failed None reason)"
proof -
  have r: "pod_reach pod_new (pod_publish (pod_initialize pod_new pod_ctx_new) pod_out_default)"
    by (rule pod_reach.init) simp
  have "po_wanted_timers (pod_publish (pod_initialize pod_new pod_ctx_new) pod_out_default) =
      [\<lparr>tr_key = LaunchTimeout, tr_generation = 0, tr_duration = from_secs 120\<rparr>]"
    using pod_reach_inv [OF r] by (simp add: pod_inv_def pod_new_def)
  with pod_timer_ends [OF r, of pod_ctx_new] show ?thesis by simp
qed

end
