(* ===== verification/Workload_Sm.thy ===== *)
theory Workload_Sm
  imports Pod_Sm Endpoint_Sm
begin

text \<open>
  The workload state machine (\<open>crates/orchestrator/src/sm/workload.rs\<close>).  A
  workload turns demand and a specification into at most one pod, retries failed
  pods with a backoff, suspends idle pods into artifacts and resumes from them.

  The model follows the handler line by line: the state (\<open>WorkloadSm\<close>) and the
  buffered effects (\<open>WorkloadEffects\<close>) are passed through every helper, and an
  early \<open>return\<close> of the source skips what follows it.
\<close>

section \<open>State, inputs and effects\<close>

definition MAX_RETRIES :: u32 where
  "MAX_RETRIES = 5"

record workload_sm =
  w_has_spec :: bool
  w_has_demand :: bool
  w_pod_running :: bool
  w_wants_pod :: bool
  w_pod_id :: "pod_id option"
  w_committed_to_boot :: bool
  w_spec_version :: u64
  w_launched_with_spec_version :: u64
  w_consecutive_failures :: u32
  w_restart_count :: u32
  w_max_retries :: u32
  w_in_backoff :: bool
  w_backoff_generation :: u64
  w_pod_worker_id :: "worker_id option"
  w_suspend_on_idle :: bool
  w_artifact_port :: "artifact_port_id option"
  w_artifact_confirmed :: bool
  w_artifact_confirm_gen :: u64
  w_awaiting_suspend :: bool
  w_current_pod_spec :: "pod_spec option"
  w_pod_ip :: ipv4
  w_endpoint_id :: "endpoint_id option"
  w_run_policy :: run_policy
  w_completed :: bool
  w_last_exit_code :: "i32 option"
  w_last_failure_reason :: "string option"
  w_respects_demand :: bool

datatype workload_input =
    DemandInput demand_info
  | SpecInput "(management_id \<times> workload_spec) option"
  | PodStatusInput "pod_status list"
  | PodWorkerInput "worker_id option list"
  | AdminCommand admin_cmd
  | ArtifactInput "bool option"
  | WorkloadTimerFired workload_timer_key

record workload_ctx =
  wx_readiness :: "ready_info option option"
  wx_placement :: "worker_id option option"
  wx_pod_intent :: "pod_intent option"
  wx_pod_launch_spec :: "workload_spec option option"
  wx_wanted_timers :: "workload_timer_key timer_request list option"
  wx_status :: "wl_status option"
  wx_consecutive_failures :: "u32 option"
  wx_spec_stale :: "bool option"
  wx_artifact_ref :: "bool option"
  wx_endpoint_config :: "endpoint_config option option"
  wx_endpoint_ownership :: "endpoint_id list option"
  wx_endpoint_readiness :: "endpoint_id list option"
  wx_pod_ownership :: "pod_id list option"
  wx_workload_timers :: "timer_id list option"
  wx_artifact_ref_edges :: "artifact_port_id list option"
  wx_observability :: "observability_id list option"
  wx_created_pods :: "(pod_id \<times> pod_sm) list"
  wx_created_endpoints :: "(endpoint_id \<times> endpoint_sm) list"
  wx_self_destruct :: bool
  wx_id_alloc :: id_alloc

type_synonym wl = "workload_sm \<times> workload_ctx"

definition workload_ctx_new :: "id_alloc \<Rightarrow> workload_ctx" where
  "workload_ctx_new a = \<lparr>wx_readiness = None, wx_placement = None, wx_pod_intent = None,
     wx_pod_launch_spec = None, wx_wanted_timers = None, wx_status = None,
     wx_consecutive_failures = None, wx_spec_stale = None, wx_artifact_ref = None,
     wx_endpoint_config = None, wx_endpoint_ownership = None, wx_endpoint_readiness = None,
     wx_pod_ownership = None, wx_workload_timers = None, wx_artifact_ref_edges = None,
     wx_observability = None, wx_created_pods = [], wx_created_endpoints = [],
     wx_self_destruct = False, wx_id_alloc = a\<rparr>"

definition with_max_retries :: "u32 \<Rightarrow> workload_sm" where
  "with_max_retries max_retries = \<lparr>w_has_spec = False, w_has_demand = False,
     w_pod_running = False, w_wants_pod = False, w_pod_id = None, w_committed_to_boot = False,
     w_spec_version = 0, w_launched_with_spec_version = 0, w_consecutive_failures = 0,
     w_restart_count = 0, w_max_retries = max_retries, w_in_backoff = False,
     w_backoff_generation = 0, w_pod_worker_id = None, w_suspend_on_idle = False,
     w_artifact_port = None, w_artifact_confirmed = False, w_artifact_confirm_gen = 0,
     w_awaiting_suspend = False, w_current_pod_spec = None, w_pod_ip = ipv4_unspecified,
     w_endpoint_id = None, w_run_policy = PolicyService, w_completed = False,
     w_last_exit_code = None, w_last_failure_reason = None, w_respects_demand = False\<rparr>"

definition workload_new :: workload_sm where
  "workload_new = with_max_retries MAX_RETRIES"

section \<open>Helpers\<close>

definition effective_demand :: "workload_sm \<Rightarrow> bool" where
  "effective_demand sm \<longleftrightarrow> \<not> w_respects_demand sm \<or> w_has_demand sm"

definition retries_exhausted :: "workload_sm \<Rightarrow> bool" where
  "retries_exhausted sm \<longleftrightarrow> w_consecutive_failures sm \<ge> w_max_retries sm"

definition clear_artifact_ref :: "wl \<Rightarrow> wl" where
  "clear_artifact_ref = (\<lambda>(sm, ctx).
     if w_artifact_port sm \<noteq> None
     then (sm\<lparr>w_artifact_port := None, w_artifact_confirmed := False\<rparr>,
           ctx\<lparr>wx_artifact_ref_edges := Some [], wx_artifact_ref := Some False\<rparr>)
     else (sm, ctx))"

definition reap_retained_pod :: "wl \<Rightarrow> wl" where
  "reap_retained_pod = (\<lambda>(sm, ctx).
     let is_retained_dead = (w_pod_id sm \<noteq> None \<and> \<not> w_pod_running sm \<and>
           (w_in_backoff sm \<or> retries_exhausted sm))
     in if is_retained_dead
        then (sm\<lparr>w_pod_id := None\<rparr>,
              ctx\<lparr>wx_pod_ownership := Some [], wx_pod_intent := Some IntentNone\<rparr>)
        else (sm, ctx))"

definition destroy_current_pod :: "wl \<Rightarrow> wl" where
  "destroy_current_pod = (\<lambda>(sm, ctx).
     let (sm, ctx) = (if w_pod_id sm \<noteq> None
            then (sm\<lparr>w_pod_id := None\<rparr>,
                  ctx\<lparr>wx_pod_ownership := Some [], wx_pod_intent := Some IntentNone\<rparr>)
            else (sm, ctx));
         sm = sm\<lparr>w_awaiting_suspend := False\<rparr>;
         (sm, ctx) = clear_artifact_ref (sm, ctx)
     in (sm, ctx\<lparr>wx_readiness := Some None, wx_placement := Some None\<rparr>))"

definition wl_timers :: "workload_sm \<Rightarrow> workload_timer_key timer_request list" where
  "wl_timers sm =
     (if w_in_backoff sm
      then [\<lparr>tr_key = RetryBackoff, tr_generation = w_backoff_generation sm,
             tr_duration = from_millis 500\<rparr>]
      else []) @
     (if w_artifact_port sm \<noteq> None \<and> \<not> w_artifact_confirmed sm
      then [\<lparr>tr_key = ArtifactConfirm, tr_generation = w_artifact_confirm_gen sm,
             tr_duration = from_millis 100\<rparr>]
      else [])"

definition wl_update_timer_signal :: "wl \<Rightarrow> wl" where
  "wl_update_timer_signal = (\<lambda>(sm, ctx). (sm, ctx\<lparr>wx_wanted_timers := Some (wl_timers sm)\<rparr>))"

definition wl_status_of :: "workload_sm \<Rightarrow> wl_status" where
  "wl_status_of sm =
     (let demand = (effective_demand sm \<or> w_committed_to_boot sm);
          is_failed = (retries_exhausted sm \<and> demand)
      in if w_completed sm then WlCompleted (unwrap_or (w_last_exit_code sm) 0)
         else if is_failed then WlFailed (w_last_exit_code sm) (unwrap_or (w_last_failure_reason sm) [])
         else if w_in_backoff sm then WlRetryBackoff
         else if w_awaiting_suspend sm then WlSuspending
         else if w_artifact_port sm \<noteq> None \<and> w_pod_id sm = None then WlSuspended
         else if w_pod_running sm then WlRunning
         else if w_pod_id sm \<noteq> None then WlLaunching
         else if \<not> w_has_spec sm \<and> demand then WlWaitingForSpec
         else WlDormant)"

definition wl_spec_stale_of :: "workload_sm \<Rightarrow> bool" where
  "wl_spec_stale_of sm \<longleftrightarrow>
     w_pod_id sm \<noteq> None \<and> w_launched_with_spec_version sm \<noteq> w_spec_version sm"

definition wl_update_status_signals :: "wl \<Rightarrow> wl" where
  "wl_update_status_signals = (\<lambda>(sm, ctx).
     (sm, ctx\<lparr>wx_status := Some (wl_status_of sm),
              wx_consecutive_failures := Some (w_consecutive_failures sm),
              wx_spec_stale := Some (wl_spec_stale_of sm)\<rparr>))"

definition update_readiness :: "wl \<Rightarrow> wl" where
  "update_readiness = (\<lambda>(sm, ctx).
     (sm, ctx\<lparr>wx_readiness := Some (Some
        \<lparr>ri_pod_id = unwrap_or (w_pod_id sm) (PodId 0),
         ri_worker_id = unwrap_or (w_pod_worker_id sm) (WorkerId 0),
         ri_pod_ip = w_pod_ip sm\<rparr>)\<rparr>))"

definition wl_create_pod :: "pod_sm \<Rightarrow> workload_ctx \<Rightarrow> pod_id \<times> workload_ctx" where
  "wl_create_pod pod ctx =
     (let (n, a) = seq_ids_alloc KPod (wx_id_alloc ctx)
      in (PodId n, ctx\<lparr>wx_id_alloc := a,
            wx_created_pods := wx_created_pods ctx @ [(PodId n, pod)]\<rparr>))"

definition wl_create_endpoint :: "endpoint_sm \<Rightarrow> workload_ctx \<Rightarrow> endpoint_id \<times> workload_ctx" where
  "wl_create_endpoint ep ctx =
     (let (n, a) = seq_ids_alloc KEndpoint (wx_id_alloc ctx)
      in (EndpointId n, ctx\<lparr>wx_id_alloc := a,
            wx_created_endpoints := wx_created_endpoints ctx @ [(EndpointId n, ep)]\<rparr>))"

section \<open>Reconciliation\<close>

definition want_pod :: "workload_sm \<Rightarrow> bool" where
  "want_pod sm \<longleftrightarrow> w_has_spec sm \<and> (effective_demand sm \<or> w_committed_to_boot sm) \<and>
     \<not> w_in_backoff sm \<and> \<not> retries_exhausted sm \<and> \<not> w_completed sm"

definition reconcile_create :: "wl \<Rightarrow> wl" where
  "reconcile_create = (\<lambda>(sm, ctx).
     let pod = (case w_artifact_port sm of
           Some port_id \<Rightarrow> pod_new_from_artifact port_id
         | None \<Rightarrow> pod_new);
         (pid, ctx) = wl_create_pod pod ctx
     in (sm\<lparr>w_pod_id := Some pid, w_launched_with_spec_version := w_spec_version sm\<rparr>,
         ctx\<lparr>wx_pod_ownership := Some [pid], wx_pod_intent := Some Want\<rparr>))"

definition reconcile :: "wl \<Rightarrow> wl" where
  "reconcile = (\<lambda>(sm, ctx).
     if w_awaiting_suspend sm then (sm, ctx)
     else
       let want = want_pod sm;
           sm = sm\<lparr>w_wants_pod := want\<rparr>
       in if want \<and> w_pod_id sm = None then
            if w_artifact_port sm \<noteq> None \<and> \<not> w_artifact_confirmed sm then (sm, ctx)
            else reconcile_create (sm, ctx)
          else if want \<and> w_pod_id sm \<noteq> None then
            (sm, ctx\<lparr>wx_pod_intent := Some Want\<rparr>)
          else if \<not> want \<and> w_pod_id sm \<noteq> None then
            if w_pod_running sm \<and> w_suspend_on_idle sm then
              (sm\<lparr>w_awaiting_suspend := True\<rparr>, ctx\<lparr>wx_pod_intent := Some Suspend\<rparr>)
            else if \<not> w_pod_running sm \<and> (w_in_backoff sm \<or> retries_exhausted sm) then (sm, ctx)
            else (sm\<lparr>w_pod_id := None\<rparr>,
                  ctx\<lparr>wx_pod_ownership := Some [], wx_pod_intent := Some IntentNone,
                      wx_readiness := Some None, wx_placement := Some None\<rparr>)
          else (sm, ctx\<lparr>wx_pod_intent := Some IntentNone\<rparr>))"

section \<open>Pod reports\<close>

definition on_pod_running :: "wl \<Rightarrow> wl" where
  "on_pod_running = (\<lambda>(sm, ctx).
     let sm = sm\<lparr>w_committed_to_boot := False, w_consecutive_failures := 0\<rparr>;
         (sm, ctx) = clear_artifact_ref (sm, ctx)
     in if w_launched_with_spec_version sm \<noteq> w_spec_version sm
        then reconcile (destroy_current_pod (sm, ctx))
        else if \<not> effective_demand sm then reconcile (sm, ctx)
        else update_readiness (sm, ctx))"

text \<open>The lines that release a terminal pod: no readiness, no owner, no intent.\<close>

definition release_pod :: "wl \<Rightarrow> wl" where
  "release_pod = (\<lambda>(sm, ctx).
     (sm\<lparr>w_pod_id := None\<rparr>,
      ctx\<lparr>wx_readiness := Some None, wx_placement := Some None,
          wx_pod_ownership := Some [], wx_pod_intent := Some IntentNone\<rparr>))"

definition on_pod_finished :: "i32 \<Rightarrow> wl \<Rightarrow> wl" where
  "on_pod_finished exit_code = (\<lambda>(sm, ctx).
     let sm = sm\<lparr>w_awaiting_suspend := False\<rparr>;
         (sm, ctx) = release_pod (clear_artifact_ref (sm, ctx));
         sm = sm\<lparr>w_last_exit_code := Some exit_code\<rparr>;
         sm = (if w_run_policy sm = PolicyJob
               then sm\<lparr>w_completed := True, w_committed_to_boot := False\<rparr>
               else if \<not> effective_demand sm then sm\<lparr>w_committed_to_boot := False\<rparr>
               else sm)
     in wl_update_timer_signal (reconcile (sm, ctx)))"

definition on_pod_failed :: "i32 option \<Rightarrow> string \<Rightarrow> wl \<Rightarrow> wl" where
  "on_pod_failed exit_code reason = (\<lambda>(sm, ctx).
     let sm = sm\<lparr>w_awaiting_suspend := False\<rparr>;
         (sm, ctx) = clear_artifact_ref (sm, ctx);
         ctx = ctx\<lparr>wx_readiness := Some None, wx_placement := Some None\<rparr>;
         sm = sm\<lparr>w_last_exit_code := exit_code, w_last_failure_reason := Some reason,
                 w_consecutive_failures := w_consecutive_failures sm + 1,
                 w_restart_count := w_restart_count sm + 1\<rparr>;
         sm = (if \<not> effective_demand sm then sm\<lparr>w_committed_to_boot := False\<rparr> else sm);
         sm = (if retries_exhausted sm then sm\<lparr>w_committed_to_boot := False\<rparr> else sm);
         want_retry = ((effective_demand sm \<or> w_committed_to_boot sm) \<and> \<not> retries_exhausted sm);
         (sm, ctx) =
           (if want_retry
            then (sm\<lparr>w_in_backoff := True, w_backoff_generation := w_backoff_generation sm + 1\<rparr>, ctx)
            else if \<not> effective_demand sm
            then reap_retained_pod (sm\<lparr>w_consecutive_failures := 0\<rparr>, ctx)
            else (sm, ctx))
     in wl_update_timer_signal (reconcile (sm, ctx)))"

definition on_pod_displaced :: "wl \<Rightarrow> wl" where
  "on_pod_displaced = (\<lambda>(sm, ctx).
     let sm = sm\<lparr>w_awaiting_suspend := False\<rparr>;
         (sm, ctx) = release_pod (sm, ctx);
         sm = (if \<not> effective_demand sm then sm\<lparr>w_committed_to_boot := False\<rparr> else sm)
     in wl_update_timer_signal (reconcile (sm, ctx)))"

fun suspended_artifact_of :: "pod_status \<Rightarrow> artifact_port_id option" where
  "suspended_artifact_of (Suspended a) = Some a"
| "suspended_artifact_of _ = None"

fun failed_of :: "pod_status \<Rightarrow> (i32 option \<times> string) option" where
  "failed_of (Failed c r) = Some (c, r)"
| "failed_of _ = None"

fun finished_of :: "pod_status \<Rightarrow> i32 option" where
  "finished_of (Finished c) = Some c"
| "finished_of _ = None"

definition on_pod_suspended :: "artifact_port_id \<Rightarrow> wl \<Rightarrow> wl" where
  "on_pod_suspended port_id = (\<lambda>(sm, ctx).
     let (sm, ctx) =
           (if w_spec_version sm = w_launched_with_spec_version sm
            then (sm\<lparr>w_artifact_port := Some port_id, w_artifact_confirmed := False,
                     w_artifact_confirm_gen := w_artifact_confirm_gen sm + 1\<rparr>,
                  ctx\<lparr>wx_artifact_ref_edges := Some [port_id], wx_artifact_ref := Some True\<rparr>)
            else (sm, ctx))
     in reconcile (release_pod (sm\<lparr>w_awaiting_suspend := False\<rparr>, ctx)))"

definition pods_gone :: "wl \<Rightarrow> wl" where
  "pods_gone = (\<lambda>(sm, ctx).
     release_pod (sm\<lparr>w_pod_worker_id := None, w_awaiting_suspend := False,
                     w_committed_to_boot := False\<rparr>, ctx))"

definition pod_status_react :: "pod_status list \<Rightarrow> bool \<Rightarrow> wl \<Rightarrow> wl" where
  "pod_status_react statuses was_running = (\<lambda>(sm, ctx).
     case find_map suspended_artifact_of statuses of
       Some artifact_id \<Rightarrow> on_pod_suspended artifact_id (sm, ctx)
     | None \<Rightarrow>
         if w_pod_running sm \<and> \<not> was_running then on_pod_running (sm, ctx)
         else if find_map failed_of statuses \<noteq> None \<and> w_pod_id sm \<noteq> None then
           (let (exit_code, reason) = unwrap_or (find_map failed_of statuses) (None, [])
            in on_pod_failed exit_code reason (sm, ctx))
         else if Displaced \<in> set statuses \<and> w_pod_id sm \<noteq> None then on_pod_displaced (sm, ctx)
         else if find_map finished_of statuses \<noteq> None \<and> w_pod_id sm \<noteq> None then
           on_pod_finished (unwrap_or (find_map finished_of statuses) 0) (sm, ctx)
         else if \<not> w_pod_running sm \<and> was_running then
           reconcile (sm, ctx\<lparr>wx_readiness := Some None, wx_placement := Some None\<rparr>)
         else reconcile (sm, ctx))"

definition wl_on_pod_status :: "pod_status list \<Rightarrow> wl \<Rightarrow> wl" where
  "wl_on_pod_status statuses = (\<lambda>(sm, ctx).
     let was_running = w_pod_running sm;
         sm = sm\<lparr>w_pod_running := (Running \<in> set statuses)\<rparr>
     in wl_update_timer_signal (pod_status_react statuses was_running
          (if statuses = [] \<and> w_pod_id sm \<noteq> None then pods_gone (sm, ctx) else (sm, ctx))))"

section \<open>The handler\<close>

definition wl_on_demand :: "demand_info \<Rightarrow> wl \<Rightarrow> wl" where
  "wl_on_demand demand = (\<lambda>(sm, ctx).
     let old_demand = w_has_demand sm;
         sm = sm\<lparr>w_has_demand := (di_demand_count demand > 0)\<rparr>;
         sm = (if w_has_demand sm \<and> \<not> old_demand then sm\<lparr>w_committed_to_boot := True\<rparr> else sm);
         sm = (if \<not> w_has_demand sm \<and> w_pod_id sm = None
               then sm\<lparr>w_committed_to_boot := False, w_consecutive_failures := 0,
                       w_in_backoff := False, w_completed := False\<rparr>
               else sm);
         sm = (if \<not> w_has_demand sm \<and> w_pod_id sm \<noteq> None \<and> \<not> w_pod_running sm \<and>
                  (w_in_backoff sm \<or> retries_exhausted sm)
               then sm\<lparr>w_committed_to_boot := False, w_consecutive_failures := 0,
                       w_in_backoff := False, w_completed := False\<rparr>
               else sm);
         ctx = ctx\<lparr>wx_endpoint_readiness := Some (di_endpoint_ids demand)\<rparr>
     in wl_update_timer_signal (reconcile (sm, ctx)))"

definition wl_spec_endpoint :: "workload_id \<Rightarrow> workload_spec \<Rightarrow> wl \<Rightarrow> wl" where
  "wl_spec_endpoint wid spec = (\<lambda>(sm, ctx).
     case ps_network (ws_pod_spec spec) of
       None \<Rightarrow> (sm, ctx)
     | Some network \<Rightarrow>
         let (sm, ctx) =
               (if w_endpoint_id sm = None
                then (let (ep_id, ctx) = wl_create_endpoint
                            (endpoint_new (wcf_respects_demand (ws_config spec))) ctx
                      in (sm\<lparr>w_endpoint_id := Some ep_id\<rparr>,
                          ctx\<lparr>wx_endpoint_ownership := Some [ep_id]\<rparr>))
                else (sm, ctx));
             idle_timeout = unwrap_or (map_option as_idle_timeout (wcf_activation (ws_config spec)))
                              (from_secs 30)
         in (sm, ctx\<lparr>wx_endpoint_config := Some (Some
               \<lparr>ec_kind = EkWorkload, ec_workload = wid,
                ec_has_activation = wcf_respects_demand (ws_config spec),
                ec_idle_timeout = idle_timeout, ec_ip = pn_ip network, ec_dns_entry = None\<rparr>)\<rparr>))"

definition wl_pod_spec_changed :: "wl \<Rightarrow> wl" where
  "wl_pod_spec_changed = (\<lambda>(sm, ctx).
     let sm = sm\<lparr>w_spec_version := w_spec_version sm + 1\<rparr>;
         (sm, ctx) = reap_retained_pod (sm, ctx);
         sm = sm\<lparr>w_consecutive_failures := 0, w_restart_count := 0, w_in_backoff := False,
                 w_completed := False\<rparr>;
         (sm, ctx) = clear_artifact_ref (sm, ctx)
     in if w_pod_running sm then destroy_current_pod (sm, ctx) else (sm, ctx))"

definition wl_suspend_disabled :: "wl \<Rightarrow> wl" where
  "wl_suspend_disabled = (\<lambda>(sm, ctx).
     clear_artifact_ref
       (if w_awaiting_suspend sm then destroy_current_pod (sm, ctx) else (sm, ctx)))"

definition wl_spec_config :: "workload_spec \<Rightarrow> workload_sm \<Rightarrow> workload_sm" where
  "wl_spec_config spec sm =
     (let sm = sm\<lparr>w_respects_demand := wcf_respects_demand (ws_config spec),
                  w_suspend_on_idle := wcf_suspend_on_idle (ws_config spec)\<rparr>;
          old_run_policy = w_run_policy sm;
          sm = sm\<lparr>w_run_policy := wcf_run_policy (ws_config spec)\<rparr>
      in if old_run_policy = PolicyJob \<and> w_run_policy sm = PolicyService \<and> w_completed sm
         then sm\<lparr>w_completed := False\<rparr> else sm)"

definition wl_new_spec :: "workload_id \<Rightarrow> workload_spec \<Rightarrow> wl \<Rightarrow> wl" where
  "wl_new_spec wid spec = (\<lambda>(sm, ctx).
     let sm = sm\<lparr>w_pod_ip := unwrap_or (map_option pn_ip (ps_network (ws_pod_spec spec)))
                                ipv4_unspecified\<rparr>;
         (sm, ctx) = wl_spec_endpoint wid spec (sm, ctx);
         old_suspend_on_idle = w_suspend_on_idle sm;
         sm = wl_spec_config spec sm;
         pod_spec_changed = (w_current_pod_spec sm \<noteq> Some (ws_pod_spec spec));
         sm = sm\<lparr>w_current_pod_spec := Some (ws_pod_spec spec)\<rparr>;
         (sm, ctx) = (if w_has_spec sm \<and> pod_spec_changed
                      then wl_pod_spec_changed (sm, ctx) else (sm, ctx))
     in if old_suspend_on_idle \<and> \<not> w_suspend_on_idle sm
        then wl_suspend_disabled (sm, ctx) else (sm, ctx))"

text \<open>
  A removed specification ends the handler before the timer and status signals
  are updated.
\<close>

definition wl_on_spec ::
  "workload_id \<Rightarrow> (management_id \<times> workload_spec) option \<Rightarrow> wl \<Rightarrow> wl" where
  "wl_on_spec wid spec_opt = (\<lambda>(sm, ctx).
     let new_has_spec = (spec_opt \<noteq> None);
         ctx = ctx\<lparr>wx_pod_launch_spec := Some (map_option snd spec_opt)\<rparr>;
         (sm, ctx) = (case spec_opt of
             Some (_, spec) \<Rightarrow> wl_new_spec wid spec (sm, ctx)
           | None \<Rightarrow> (sm, ctx))
     in if w_has_spec sm \<and> \<not> new_has_spec
        then (let (sm, ctx) = destroy_current_pod (sm, ctx)
              in (sm\<lparr>w_current_pod_spec := None\<rparr>, ctx\<lparr>wx_self_destruct := True\<rparr>))
        else wl_update_status_signals
               (wl_update_timer_signal (reconcile (sm\<lparr>w_has_spec := new_has_spec\<rparr>, ctx))))"

definition wl_on_pod_worker :: "worker_id option list \<Rightarrow> wl \<Rightarrow> wl" where
  "wl_on_pod_worker workers = (\<lambda>(sm, ctx).
     let new_worker_id = flatten_opt (first workers)
     in if new_worker_id \<noteq> w_pod_worker_id sm
        then (let sm = sm\<lparr>w_pod_worker_id := new_worker_id\<rparr>;
                  ctx = ctx\<lparr>wx_placement := Some new_worker_id\<rparr>
              in if w_pod_running sm then update_readiness (sm, ctx) else (sm, ctx))
        else (sm, ctx))"

text \<open>A scavenge of a demanded workload returns before the signals are updated.\<close>

fun wl_on_admin :: "admin_cmd \<Rightarrow> wl \<Rightarrow> wl" where
  "wl_on_admin Scavenge (sm, ctx) =
     (if effective_demand sm then (sm, ctx)
      else wl_update_status_signals (wl_update_timer_signal (reconcile (destroy_current_pod
             (clear_artifact_ref
               (sm\<lparr>w_committed_to_boot := False, w_consecutive_failures := 0,
                   w_in_backoff := False, w_completed := False\<rparr>, ctx))))))"
| "wl_on_admin Restart (sm, ctx) =
     (let (sm, ctx) = destroy_current_pod
            (sm\<lparr>w_consecutive_failures := 0, w_restart_count := 0, w_in_backoff := False,
                w_completed := False\<rparr>, ctx)
      in wl_update_status_signals (wl_update_timer_signal
           (reconcile (sm\<lparr>w_launched_with_spec_version := w_spec_version sm\<rparr>, ctx))))"

definition drop_artifact :: "wl \<Rightarrow> wl" where
  "drop_artifact = (\<lambda>(sm, ctx).
     (sm\<lparr>w_artifact_port := None\<rparr>,
      ctx\<lparr>wx_artifact_ref_edges := Some [], wx_artifact_ref := Some False\<rparr>))"

definition wl_on_artifact :: "bool option \<Rightarrow> wl \<Rightarrow> wl" where
  "wl_on_artifact valid = (\<lambda>(sm, ctx).
     wl_update_timer_signal
       (if valid = Some True then reconcile (sm\<lparr>w_artifact_confirmed := True\<rparr>, ctx)
        else if w_artifact_port sm \<noteq> None
        then reconcile (drop_artifact (sm\<lparr>w_artifact_confirmed := False\<rparr>, ctx))
        else (sm, ctx)))"

fun wl_on_timer :: "workload_timer_key \<Rightarrow> wl \<Rightarrow> wl" where
  "wl_on_timer RetryBackoff (sm, ctx) =
     (if w_in_backoff sm
      then (let (sm, ctx) = reap_retained_pod (sm, ctx)
            in wl_update_timer_signal (reconcile (sm\<lparr>w_in_backoff := False\<rparr>, ctx)))
      else (sm, ctx))"
| "wl_on_timer ArtifactConfirm (sm, ctx) =
     (if w_artifact_port sm \<noteq> None \<and> \<not> w_artifact_confirmed sm
      then wl_update_timer_signal (reconcile (drop_artifact (sm, ctx)))
      else (sm, ctx))"

definition workload_initialize :: "wl \<Rightarrow> wl" where
  "workload_initialize = (\<lambda>(sm, ctx).
     wl_update_status_signals (sm, ctx\<lparr>wx_workload_timers := Some [TIMER],
       wx_observability := Some [OBSERVABILITY]\<rparr>))"

fun workload_handle :: "workload_id \<Rightarrow> workload_input \<Rightarrow> wl \<Rightarrow> wl" where
  "workload_handle wid (DemandInput demand) s = wl_update_status_signals (wl_on_demand demand s)"
| "workload_handle wid (SpecInput spec_opt) s = wl_on_spec wid spec_opt s"
| "workload_handle wid (PodStatusInput statuses) s =
     wl_update_status_signals (wl_on_pod_status statuses s)"
| "workload_handle wid (PodWorkerInput workers) s =
     wl_update_status_signals (wl_on_pod_worker workers s)"
| "workload_handle wid (AdminCommand cmd) s = wl_on_admin cmd s"
| "workload_handle wid (ArtifactInput valid) s = wl_update_status_signals (wl_on_artifact valid s)"
| "workload_handle wid (WorkloadTimerFired key) s = wl_update_status_signals (wl_on_timer key s)"

end
