(* ===== verification/Workload_Props.thy ===== *)
theory Workload_Props
  imports Workload_Sm
begin

text \<open>
  Properties of the workload state machine.  The published values
  (\<open>workload_out\<close>) are what the router holds after it has applied the buffered
  effects.  A first group of lemmas holds for arbitrary inputs: the ownership
  edge, the artifact edge, the timers and the status always agree with the
  state.  A second group shows that every handler ends reconciled, and a third
  one, for pods that report according to their lifecycle, that the workload can
  never wait for a pod it does not have.
\<close>

section \<open>Published values\<close>

record workload_out =
  wo_readiness :: "ready_info option"
  wo_placement :: "worker_id option"
  wo_pod_intent :: pod_intent
  wo_pod_launch_spec :: "workload_spec option"
  wo_wanted_timers :: "workload_timer_key timer_request list"
  wo_status :: wl_status
  wo_consecutive_failures :: u32
  wo_spec_stale :: bool
  wo_artifact_ref :: bool
  wo_endpoint_config :: "endpoint_config option"
  wo_endpoint_ownership :: "endpoint_id list"
  wo_endpoint_readiness :: "endpoint_id list"
  wo_pod_ownership :: "pod_id list"
  wo_artifact_ref_edges :: "artifact_port_id list"

definition workload_out_default :: workload_out where
  "workload_out_default = \<lparr>wo_readiness = None, wo_placement = None, wo_pod_intent = IntentNone,
     wo_pod_launch_spec = None, wo_wanted_timers = [], wo_status = WlDormant,
     wo_consecutive_failures = 0, wo_spec_stale = False, wo_artifact_ref = False,
     wo_endpoint_config = None, wo_endpoint_ownership = [], wo_endpoint_readiness = [],
     wo_pod_ownership = [], wo_artifact_ref_edges = []\<rparr>"

definition workload_publish :: "workload_ctx \<Rightarrow> workload_out \<Rightarrow> workload_out" where
  "workload_publish ctx out =
     \<lparr>wo_readiness = latest (wx_readiness ctx) (wo_readiness out),
      wo_placement = latest (wx_placement ctx) (wo_placement out),
      wo_pod_intent = latest (wx_pod_intent ctx) (wo_pod_intent out),
      wo_pod_launch_spec = latest (wx_pod_launch_spec ctx) (wo_pod_launch_spec out),
      wo_wanted_timers = latest (wx_wanted_timers ctx) (wo_wanted_timers out),
      wo_status = latest (wx_status ctx) (wo_status out),
      wo_consecutive_failures = latest (wx_consecutive_failures ctx) (wo_consecutive_failures out),
      wo_spec_stale = latest (wx_spec_stale ctx) (wo_spec_stale out),
      wo_artifact_ref = latest (wx_artifact_ref ctx) (wo_artifact_ref out),
      wo_endpoint_config = latest (wx_endpoint_config ctx) (wo_endpoint_config out),
      wo_endpoint_ownership = latest (wx_endpoint_ownership ctx) (wo_endpoint_ownership out),
      wo_endpoint_readiness = latest (wx_endpoint_readiness ctx) (wo_endpoint_readiness out),
      wo_pod_ownership = latest (wx_pod_ownership ctx) (wo_pod_ownership out),
      wo_artifact_ref_edges = latest (wx_artifact_ref_edges ctx) (wo_artifact_ref_edges out)\<rparr>"

lemma workload_ctx_new_sel [simp]:
  "wx_readiness (workload_ctx_new a) = None" "wx_placement (workload_ctx_new a) = None"
  "wx_pod_intent (workload_ctx_new a) = None" "wx_wanted_timers (workload_ctx_new a) = None"
  "wx_status (workload_ctx_new a) = None" "wx_consecutive_failures (workload_ctx_new a) = None"
  "wx_spec_stale (workload_ctx_new a) = None" "wx_artifact_ref (workload_ctx_new a) = None"
  "wx_pod_ownership (workload_ctx_new a) = None" "wx_artifact_ref_edges (workload_ctx_new a) = None"
  "wx_created_pods (workload_ctx_new a) = []" "\<not> wx_self_destruct (workload_ctx_new a)"
  by (simp_all add: workload_ctx_new_def)

section \<open>Edges and intent follow the state\<close>

definition links_ok :: "workload_out \<Rightarrow> wl \<Rightarrow> bool" where
  "links_ok out = (\<lambda>(sm, ctx).
     latest (wx_pod_ownership ctx) (wo_pod_ownership out) = opt_list (w_pod_id sm) \<and>
     latest (wx_artifact_ref_edges ctx) (wo_artifact_ref_edges out) = opt_list (w_artifact_port sm) \<and>
     latest (wx_artifact_ref ctx) (wo_artifact_ref out) = (w_artifact_port sm \<noteq> None) \<and>
     (w_pod_id sm = None \<longrightarrow> latest (wx_pod_intent ctx) (wo_pod_intent out) = IntentNone))"

lemma links_ok_sm [simp]:
  "links_ok out (sm\<lparr>w_has_spec := b\<rparr>, ctx) = links_ok out (sm, ctx)"
  "links_ok out (sm\<lparr>w_has_demand := b\<rparr>, ctx) = links_ok out (sm, ctx)"
  "links_ok out (sm\<lparr>w_pod_running := b\<rparr>, ctx) = links_ok out (sm, ctx)"
  "links_ok out (sm\<lparr>w_wants_pod := b\<rparr>, ctx) = links_ok out (sm, ctx)"
  "links_ok out (sm\<lparr>w_committed_to_boot := b\<rparr>, ctx) = links_ok out (sm, ctx)"
  "links_ok out (sm\<lparr>w_spec_version := v\<rparr>, ctx) = links_ok out (sm, ctx)"
  "links_ok out (sm\<lparr>w_launched_with_spec_version := v\<rparr>, ctx) = links_ok out (sm, ctx)"
  "links_ok out (sm\<lparr>w_consecutive_failures := f\<rparr>, ctx) = links_ok out (sm, ctx)"
  "links_ok out (sm\<lparr>w_restart_count := f\<rparr>, ctx) = links_ok out (sm, ctx)"
  "links_ok out (sm\<lparr>w_in_backoff := b\<rparr>, ctx) = links_ok out (sm, ctx)"
  "links_ok out (sm\<lparr>w_backoff_generation := v\<rparr>, ctx) = links_ok out (sm, ctx)"
  "links_ok out (sm\<lparr>w_pod_worker_id := w\<rparr>, ctx) = links_ok out (sm, ctx)"
  "links_ok out (sm\<lparr>w_suspend_on_idle := b\<rparr>, ctx) = links_ok out (sm, ctx)"
  "links_ok out (sm\<lparr>w_artifact_confirmed := b\<rparr>, ctx) = links_ok out (sm, ctx)"
  "links_ok out (sm\<lparr>w_awaiting_suspend := b\<rparr>, ctx) = links_ok out (sm, ctx)"
  "links_ok out (sm\<lparr>w_current_pod_spec := ps\<rparr>, ctx) = links_ok out (sm, ctx)"
  "links_ok out (sm\<lparr>w_pod_ip := ip\<rparr>, ctx) = links_ok out (sm, ctx)"
  "links_ok out (sm\<lparr>w_endpoint_id := e\<rparr>, ctx) = links_ok out (sm, ctx)"
  "links_ok out (sm\<lparr>w_run_policy := rp\<rparr>, ctx) = links_ok out (sm, ctx)"
  "links_ok out (sm\<lparr>w_completed := b\<rparr>, ctx) = links_ok out (sm, ctx)"
  "links_ok out (sm\<lparr>w_last_exit_code := c\<rparr>, ctx) = links_ok out (sm, ctx)"
  "links_ok out (sm\<lparr>w_last_failure_reason := r\<rparr>, ctx) = links_ok out (sm, ctx)"
  "links_ok out (sm\<lparr>w_respects_demand := b\<rparr>, ctx) = links_ok out (sm, ctx)"
  by (simp_all add: links_ok_def)

lemma links_ok_ctx [simp]:
  "links_ok out (sm, ctx\<lparr>wx_readiness := r\<rparr>) = links_ok out (sm, ctx)"
  "links_ok out (sm, ctx\<lparr>wx_placement := p\<rparr>) = links_ok out (sm, ctx)"
  "links_ok out (sm, ctx\<lparr>wx_pod_launch_spec := l\<rparr>) = links_ok out (sm, ctx)"
  "links_ok out (sm, ctx\<lparr>wx_wanted_timers := t\<rparr>) = links_ok out (sm, ctx)"
  "links_ok out (sm, ctx\<lparr>wx_status := st\<rparr>) = links_ok out (sm, ctx)"
  "links_ok out (sm, ctx\<lparr>wx_consecutive_failures := n\<rparr>) = links_ok out (sm, ctx)"
  "links_ok out (sm, ctx\<lparr>wx_spec_stale := b\<rparr>) = links_ok out (sm, ctx)"
  "links_ok out (sm, ctx\<lparr>wx_endpoint_config := ec\<rparr>) = links_ok out (sm, ctx)"
  "links_ok out (sm, ctx\<lparr>wx_endpoint_ownership := eo\<rparr>) = links_ok out (sm, ctx)"
  "links_ok out (sm, ctx\<lparr>wx_endpoint_readiness := er\<rparr>) = links_ok out (sm, ctx)"
  "links_ok out (sm, ctx\<lparr>wx_created_endpoints := ce\<rparr>) = links_ok out (sm, ctx)"
  "links_ok out (sm, ctx\<lparr>wx_id_alloc := ia\<rparr>) = links_ok out (sm, ctx)"
  "links_ok out (sm, ctx\<lparr>wx_self_destruct := sd\<rparr>) = links_ok out (sm, ctx)"
  by (simp_all add: links_ok_def)

lemma links_clear_artifact_ref [simp]: "links_ok out s \<Longrightarrow> links_ok out (clear_artifact_ref s)"
  by (cases s) (simp add: clear_artifact_ref_def links_ok_def)

lemma links_drop_artifact [simp]: "links_ok out s \<Longrightarrow> links_ok out (drop_artifact s)"
  by (cases s) (simp add: drop_artifact_def links_ok_def)

lemma links_save_artifact [simp]:
  "links_ok out (sm, ctx) \<Longrightarrow>
   links_ok out (sm\<lparr>w_artifact_port := Some a, w_artifact_confirmed := b, w_artifact_confirm_gen := g\<rparr>,
     ctx\<lparr>wx_artifact_ref_edges := Some [a], wx_artifact_ref := Some True\<rparr>)"
  by (simp add: links_ok_def)

lemma links_reap_retained_pod [simp]: "links_ok out s \<Longrightarrow> links_ok out (reap_retained_pod s)"
  by (cases s) (simp add: reap_retained_pod_def links_ok_def Let_def)

lemma links_release_pod [simp]: "links_ok out s \<Longrightarrow> links_ok out (release_pod s)"
  by (cases s) (simp add: release_pod_def links_ok_def)

lemma links_destroy_current_pod [simp]: "links_ok out s \<Longrightarrow> links_ok out (destroy_current_pod s)"
  by (cases s)
     (auto simp: destroy_current_pod_def clear_artifact_ref_def links_ok_def Let_def)

lemma links_update_timer_signal [simp]: "links_ok out s \<Longrightarrow> links_ok out (wl_update_timer_signal s)"
  by (cases s) (simp add: wl_update_timer_signal_def)

lemma links_update_status_signals [simp]:
  "links_ok out s \<Longrightarrow> links_ok out (wl_update_status_signals s)"
  by (cases s) (simp add: wl_update_status_signals_def)

lemma links_update_readiness [simp]: "links_ok out s \<Longrightarrow> links_ok out (update_readiness s)"
  by (cases s) (simp add: update_readiness_def)

lemma links_reconcile [simp]: "links_ok out s \<Longrightarrow> links_ok out (reconcile s)"
  by (cases s)
     (simp add: reconcile_def reconcile_create_def wl_create_pod_def seq_ids_alloc_def Let_def
       links_ok_def)

lemma links_pods_gone [simp]: "links_ok out s \<Longrightarrow> links_ok out (pods_gone s)"
  by (cases s) (simp add: pods_gone_def)

lemma links_on_pod_suspended [simp]: "links_ok out s \<Longrightarrow> links_ok out (on_pod_suspended a s)"
  by (cases s) (simp add: on_pod_suspended_def Let_def)

lemma links_on_pod_running [simp]: "links_ok out s \<Longrightarrow> links_ok out (on_pod_running s)"
  by (cases s) (simp add: on_pod_running_def Let_def case_prod_beta)

lemma links_on_pod_finished [simp]: "links_ok out s \<Longrightarrow> links_ok out (on_pod_finished code s)"
  by (cases s) (simp add: on_pod_finished_def Let_def case_prod_beta)

lemma links_on_pod_failed [simp]: "links_ok out s \<Longrightarrow> links_ok out (on_pod_failed code reason s)"
  by (cases s) (simp add: on_pod_failed_def Let_def case_prod_beta)

lemma links_on_pod_displaced [simp]: "links_ok out s \<Longrightarrow> links_ok out (on_pod_displaced s)"
  by (cases s) (simp add: on_pod_displaced_def Let_def case_prod_beta)

lemma links_pod_status_react [simp]:
  "links_ok out s \<Longrightarrow> links_ok out (pod_status_react statuses was s)"
  by (cases s) (simp add: pod_status_react_def Let_def case_prod_beta split: option.split)

lemma links_on_pod_status [simp]: "links_ok out s \<Longrightarrow> links_ok out (wl_on_pod_status statuses s)"
  by (cases s) (simp add: wl_on_pod_status_def Let_def)

lemma links_on_demand [simp]: "links_ok out s \<Longrightarrow> links_ok out (wl_on_demand d s)"
  by (cases s) (simp add: wl_on_demand_def Let_def)

lemma links_spec_endpoint [simp]: "links_ok out s \<Longrightarrow> links_ok out (wl_spec_endpoint wid spec s)"
  by (cases s)
     (simp add: wl_spec_endpoint_def wl_create_endpoint_def seq_ids_alloc_def Let_def
       split: option.split)

lemma links_pod_spec_changed [simp]: "links_ok out s \<Longrightarrow> links_ok out (wl_pod_spec_changed s)"
  by (cases s) (simp add: wl_pod_spec_changed_def Let_def case_prod_beta)

lemma links_suspend_disabled [simp]: "links_ok out s \<Longrightarrow> links_ok out (wl_suspend_disabled s)"
  by (cases s) (simp add: wl_suspend_disabled_def)

lemma links_spec_config [simp]: "links_ok out (wl_spec_config spec sm, ctx) = links_ok out (sm, ctx)"
  by (simp add: wl_spec_config_def Let_def)

lemma links_new_spec [simp]: "links_ok out s \<Longrightarrow> links_ok out (wl_new_spec wid spec s)"
  by (cases s) (simp add: wl_new_spec_def Let_def case_prod_beta)

lemma links_on_spec [simp]: "links_ok out s \<Longrightarrow> links_ok out (wl_on_spec wid spec_opt s)"
  by (cases s) (simp add: wl_on_spec_def Let_def case_prod_beta split: option.split)

lemma links_on_pod_worker [simp]: "links_ok out s \<Longrightarrow> links_ok out (wl_on_pod_worker ws s)"
  by (cases s) (simp add: wl_on_pod_worker_def Let_def)

lemma links_on_admin [simp]: "links_ok out s \<Longrightarrow> links_ok out (wl_on_admin cmd s)"
  by (cases "(cmd, s)" rule: wl_on_admin.cases) (simp_all add: Let_def case_prod_beta)

lemma links_on_artifact [simp]: "links_ok out s \<Longrightarrow> links_ok out (wl_on_artifact v s)"
  by (cases s) (simp add: wl_on_artifact_def)

lemma links_on_timer [simp]: "links_ok out s \<Longrightarrow> links_ok out (wl_on_timer key s)"
  by (cases "(key, s)" rule: wl_on_timer.cases) (simp_all add: Let_def case_prod_beta)

lemma links_handle: "links_ok out s \<Longrightarrow> links_ok out (workload_handle wid inp s)"
  by (cases inp) simp_all

section \<open>Timers and status follow the state\<close>

definition timers_set :: "wl \<Rightarrow> bool" where
  "timers_set = (\<lambda>(sm, ctx). wx_wanted_timers ctx = Some (wl_timers sm))"

definition status_set :: "wl \<Rightarrow> bool" where
  "status_set = (\<lambda>(sm, ctx). wx_status ctx = Some (wl_status_of sm) \<and>
     wx_consecutive_failures ctx = Some (w_consecutive_failures sm) \<and>
     wx_spec_stale ctx = Some (wl_spec_stale_of sm))"

lemma timers_set_update [simp]: "timers_set (wl_update_timer_signal s)"
  by (cases s) (simp add: timers_set_def wl_update_timer_signal_def)

lemma timers_set_status [simp]: "timers_set (wl_update_status_signals s) = timers_set s"
  by (cases s) (simp add: timers_set_def wl_update_status_signals_def)

lemma status_set_update [simp]: "status_set (wl_update_status_signals s)"
  by (cases s) (simp add: status_set_def wl_update_status_signals_def)

lemma fst_update_signals [simp]:
  "fst (wl_update_timer_signal s) = fst s" "fst (wl_update_status_signals s) = fst s"
  "fst (update_readiness s) = fst s"
  by (cases s; simp add: wl_update_timer_signal_def wl_update_status_signals_def
      update_readiness_def)+

lemma snd_update_signals [simp]:
  "wx_self_destruct (snd (wl_update_timer_signal s)) = wx_self_destruct (snd s)"
  "wx_self_destruct (snd (wl_update_status_signals s)) = wx_self_destruct (snd s)"
  "wx_created_pods (snd (wl_update_timer_signal s)) = wx_created_pods (snd s)"
  "wx_created_pods (snd (wl_update_status_signals s)) = wx_created_pods (snd s)"
  "wx_created_pods (snd (update_readiness s)) = wx_created_pods (snd s)"
  "wx_readiness (snd (wl_update_timer_signal s)) = wx_readiness (snd s)"
  "wx_readiness (snd (wl_update_status_signals s)) = wx_readiness (snd s)"
  "wx_wanted_timers (snd (wl_update_status_signals s)) = wx_wanted_timers (snd s)"
  by (cases s; simp add: wl_update_timer_signal_def wl_update_status_signals_def
      update_readiness_def)+

text \<open>The inputs whose handler may return with the timers untouched, and then with the state
  the timers depend on untouched as well.\<close>

lemma workload_handle_timers:
  assumes "\<not> wx_self_destruct (snd (workload_handle wid inp (sm, ctx)))"
  shows "timers_set (workload_handle wid inp (sm, ctx)) \<or>
    wx_wanted_timers (snd (workload_handle wid inp (sm, ctx))) = wx_wanted_timers ctx \<and>
    wl_timers (fst (workload_handle wid inp (sm, ctx))) = wl_timers sm"
proof (cases inp)
  case (DemandInput d)
  then show ?thesis by (simp add: wl_on_demand_def Let_def)
next
  case (SpecInput so)
  with assms show ?thesis
    by (cases so) (simp_all add: wl_on_spec_def Let_def case_prod_beta split: if_splits)
next
  case (PodStatusInput sts)
  then show ?thesis by (simp add: wl_on_pod_status_def Let_def)
next
  case (PodWorkerInput ws)
  then show ?thesis
    by (simp add: wl_on_pod_worker_def update_readiness_def wl_timers_def Let_def)
next
  case (AdminCommand cmd)
  then show ?thesis by (cases cmd) (simp_all add: Let_def case_prod_beta)
next
  case (ArtifactInput v)
  then show ?thesis by (simp add: wl_on_artifact_def)
next
  case (WorkloadTimerFired key)
  then show ?thesis by (cases key) (simp_all add: Let_def case_prod_beta)
qed

lemma workload_handle_status:
  assumes "\<not> wx_self_destruct (snd (workload_handle wid inp (sm, ctx)))"
  shows "status_set (workload_handle wid inp (sm, ctx)) \<or>
    inp = AdminCommand Scavenge \<and> workload_handle wid inp (sm, ctx) = (sm, ctx)"
proof (cases inp)
  case (SpecInput so)
  with assms show ?thesis
    by (cases so) (simp_all add: wl_on_spec_def Let_def case_prod_beta split: if_splits)
next
  case (AdminCommand cmd)
  then show ?thesis by (cases cmd) (simp_all add: Let_def case_prod_beta)
qed simp_all

section \<open>Readiness is published only while the pod runs\<close>

definition ready_ok :: "workload_out \<Rightarrow> wl \<Rightarrow> bool" where
  "ready_ok out = (\<lambda>(sm, ctx).
     latest (wx_readiness ctx) (wo_readiness out) \<noteq> None \<longrightarrow> w_pod_running sm)"

lemma pod_running_helpers [simp]:
  "w_pod_running (fst (clear_artifact_ref s)) = w_pod_running (fst s)"
  "w_pod_running (fst (drop_artifact s)) = w_pod_running (fst s)"
  "w_pod_running (fst (reap_retained_pod s)) = w_pod_running (fst s)"
  "w_pod_running (fst (release_pod s)) = w_pod_running (fst s)"
  "w_pod_running (fst (destroy_current_pod s)) = w_pod_running (fst s)"
  "w_pod_running (fst (reconcile s)) = w_pod_running (fst s)"
  "w_pod_running (fst (pods_gone s)) = w_pod_running (fst s)"
  by (cases s; simp add: clear_artifact_ref_def drop_artifact_def reap_retained_pod_def
      release_pod_def destroy_current_pod_def reconcile_def reconcile_create_def pods_gone_def
      wl_create_pod_def Let_def case_prod_beta)+

lemma pod_running_on_pod_running [simp]:
  "w_pod_running (fst (on_pod_running s)) = w_pod_running (fst s)"
  by (cases s) (simp add: on_pod_running_def Let_def case_prod_beta)

lemma ready_ok_running: "w_pod_running (fst s) \<Longrightarrow> ready_ok out s"
  by (cases s) (simp add: ready_ok_def)

lemma ready_ok_fst_snd:
  "ready_ok out s \<longleftrightarrow> (latest (wx_readiness (snd s)) (wo_readiness out) \<noteq> None \<longrightarrow> w_pod_running (fst s))"
  by (cases s) (simp add: ready_ok_def)

text \<open>The helpers either leave the readiness signal alone or clear it.\<close>

lemma readiness_helpers [simp]:
  "wx_readiness (snd (clear_artifact_ref s)) = wx_readiness (snd s)"
  "wx_readiness (snd (drop_artifact s)) = wx_readiness (snd s)"
  "wx_readiness (snd (reap_retained_pod s)) = wx_readiness (snd s)"
  "wx_readiness (snd (release_pod s)) = Some None"
  "wx_readiness (snd (destroy_current_pod s)) = Some None"
  "wx_readiness (snd (pods_gone s)) = Some None"
  by (cases s; simp add: clear_artifact_ref_def drop_artifact_def reap_retained_pod_def
      release_pod_def destroy_current_pod_def pods_gone_def Let_def case_prod_beta)+

lemma readiness_reconcile:
  "wx_readiness (snd (reconcile s)) = wx_readiness (snd s) \<or> wx_readiness (snd (reconcile s)) = Some None"
  by (cases s) (simp add: reconcile_def reconcile_create_def wl_create_pod_def Let_def case_prod_beta)

lemma ready_ok_reconcile [simp]: "ready_ok out s \<Longrightarrow> ready_ok out (reconcile s)"
  using readiness_reconcile [of s] by (auto simp: ready_ok_fst_snd)

lemma ready_ok_helpers [simp]:
  "ready_ok out s \<Longrightarrow> ready_ok out (wl_update_timer_signal s)"
  "ready_ok out s \<Longrightarrow> ready_ok out (wl_update_status_signals s)"
  "ready_ok out s \<Longrightarrow> ready_ok out (clear_artifact_ref s)"
  "ready_ok out s \<Longrightarrow> ready_ok out (drop_artifact s)"
  "ready_ok out s \<Longrightarrow> ready_ok out (reap_retained_pod s)"
  "ready_ok out (release_pod s)" "ready_ok out (destroy_current_pod s)"
  "ready_ok out (pods_gone s)"
  by (simp_all add: ready_ok_fst_snd)

lemma ready_cleared_ok: "wx_readiness (snd s) = Some None \<Longrightarrow> ready_ok out s"
  by (simp add: ready_ok_fst_snd)

lemma ready_ok_on_pod_finished: "ready_ok out (on_pod_finished code s)"
  by (cases s) (simp add: on_pod_finished_def Let_def case_prod_beta ready_cleared_ok)

lemma ready_ok_on_pod_displaced: "ready_ok out (on_pod_displaced s)"
  by (cases s) (simp add: on_pod_displaced_def Let_def case_prod_beta ready_cleared_ok)

lemma ready_ok_on_pod_failed: "ready_ok out (on_pod_failed code reason s)"
  by (cases s) (simp add: on_pod_failed_def Let_def case_prod_beta ready_cleared_ok)

lemma ready_ok_on_pod_suspended: "ready_ok out (on_pod_suspended a s)"
  by (cases s) (simp add: on_pod_suspended_def Let_def case_prod_beta ready_cleared_ok)

lemmas ready_ok_reports = ready_ok_on_pod_finished ready_ok_on_pod_displaced ready_ok_on_pod_failed
  ready_ok_on_pod_suspended

lemma ready_ok_pod_status_react:
  assumes "latest (wx_readiness (snd s)) (wo_readiness out) \<noteq> None \<Longrightarrow> was"
  shows "ready_ok out (pod_status_react statuses was s)"
proof -
  obtain sm ctx where s: "s = (sm, ctx)" by force
  have "ready_ok out (reconcile (sm, ctx))" if "w_pod_running sm \<or> \<not> was"
    using that assms by (intro ready_ok_reconcile) (auto simp: s ready_ok_def)
  then show ?thesis
    by (auto simp: s pod_status_react_def case_prod_beta ready_ok_reports ready_cleared_ok
        split: option.split intro: ready_ok_running)
qed

lemma ready_ok_on_pod_status [simp]:
  assumes "ready_ok out s" shows "ready_ok out (wl_on_pod_status statuses s)"
proof -
  obtain sm ctx where s: "s = (sm, ctx)" by force
  show ?thesis unfolding s wl_on_pod_status_def prod.case Let_def
    by (intro ready_ok_helpers(1) ready_ok_pod_status_react)
       (use assms in \<open>auto simp: s ready_ok_def split: if_splits\<close>)
qed

text \<open>On an explicit pair only the two components that matter are left.\<close>

definition ready_of :: "workload_out \<Rightarrow> ready_info option option \<Rightarrow> bool \<Rightarrow> bool" where
  "ready_of out r b \<longleftrightarrow> (latest r (wo_readiness out) \<noteq> None \<longrightarrow> b)"

lemma ready_ok_pair: "ready_ok out (sm, ctx) = ready_of out (wx_readiness ctx) (w_pod_running sm)"
  by (simp add: ready_ok_def ready_of_def)

lemma ready_of_cleared: "ready_of out (Some None) b"
  by (simp add: ready_of_def)

lemma ready_of_update_readiness:
  "w_pod_running (fst s) \<Longrightarrow> ready_ok out (update_readiness s)"
  by (simp add: ready_ok_fst_snd)

lemma ready_ok_on_demand [simp]: "ready_ok out s \<Longrightarrow> ready_ok out (wl_on_demand d s)"
  by (cases s) (simp add: wl_on_demand_def Let_def ready_ok_pair)

lemma ready_spec_endpoint [simp]:
  "wx_readiness (snd (wl_spec_endpoint wid spec s)) = wx_readiness (snd s)"
  "w_pod_running (fst (wl_spec_endpoint wid spec s)) = w_pod_running (fst s)"
  by (cases s; simp add: wl_spec_endpoint_def wl_create_endpoint_def Let_def case_prod_beta
      split: option.split)+

lemma ready_spec_config [simp]: "w_pod_running (wl_spec_config spec sm) = w_pod_running sm"
  by (simp add: wl_spec_config_def Let_def)

lemma ready_ok_pod_spec_changed [simp]: "ready_ok out s \<Longrightarrow> ready_ok out (wl_pod_spec_changed s)"
  by (cases s)
     (auto simp: wl_pod_spec_changed_def Let_def case_prod_beta ready_ok_pair)

lemma ready_ok_suspend_disabled [simp]: "ready_ok out s \<Longrightarrow> ready_ok out (wl_suspend_disabled s)"
  by (cases s) (simp add: wl_suspend_disabled_def)

lemma ready_ok_new_spec [simp]: "ready_ok out s \<Longrightarrow> ready_ok out (wl_new_spec wid spec s)"
  by (cases s) (simp add: wl_new_spec_def Let_def case_prod_beta ready_ok_pair)

lemma ready_ok_on_spec [simp]: "ready_ok out s \<Longrightarrow> ready_ok out (wl_on_spec wid so s)"
proof -
  assume ok: "ready_ok out s"
  obtain sm ctx where s: "s = (sm, ctx)" by force
  show ?thesis
  proof (cases so)
    case None
    with ok show ?thesis
      by (simp add: s wl_on_spec_def Let_def case_prod_beta ready_ok_pair ready_of_cleared)
  next
    case (Some ms)
    obtain sm1 ctx1 where n: "wl_new_spec wid (snd ms)
        (sm, ctx\<lparr>wx_pod_launch_spec := Some (Some (snd ms))\<rparr>) = (sm1, ctx1)" by force
    have "ready_ok out (sm1, ctx1)"
      unfolding n [symmetric] using ok by (intro ready_ok_new_spec) (simp add: s ready_ok_pair)
    with Some show ?thesis
      by (simp add: s wl_on_spec_def Let_def case_prod_beta n ready_ok_pair)
  qed
qed

lemma ready_ok_handle: "ready_ok out s \<Longrightarrow> ready_ok out (workload_handle wid inp s)"
proof (cases inp)
  case (PodWorkerInput ws)
  assume "ready_ok out s"
  with PodWorkerInput show ?thesis
    by (cases s) (auto simp: wl_on_pod_worker_def Let_def ready_ok_pair ready_of_update_readiness)
next
  case (AdminCommand cmd)
  assume "ready_ok out s"
  with AdminCommand show ?thesis
    by (cases s; cases cmd)
       (simp_all add: Let_def case_prod_beta ready_ok_pair ready_of_cleared)
next
  case (ArtifactInput v)
  assume "ready_ok out s"
  with ArtifactInput show ?thesis
    by (cases s) (simp add: wl_on_artifact_def ready_ok_pair)
next
  case (WorkloadTimerFired key)
  assume "ready_ok out s"
  with WorkloadTimerFired show ?thesis
    by (cases s; cases key) (simp_all add: Let_def case_prod_beta ready_ok_pair)
qed simp_all

section \<open>Reachable states\<close>

inductive workload_reach :: "workload_id \<Rightarrow> u32 \<Rightarrow> workload_sm \<Rightarrow> workload_out \<Rightarrow> bool"
  for wid max_retries where
  init: "workload_initialize (with_max_retries max_retries, workload_ctx_new a) = (sm, ctx) \<Longrightarrow>
    workload_reach wid max_retries sm (workload_publish ctx workload_out_default)"
| step: "workload_reach wid max_retries sm out \<Longrightarrow>
    workload_handle wid inp (sm, workload_ctx_new a) = (sm', ctx) \<Longrightarrow>
    \<not> wx_self_destruct ctx \<Longrightarrow> workload_reach wid max_retries sm' (workload_publish ctx out)"

definition workload_inv :: "workload_sm \<Rightarrow> workload_out \<Rightarrow> bool" where
  "workload_inv sm out \<longleftrightarrow>
     wo_pod_ownership out = opt_list (w_pod_id sm) \<and>
     wo_artifact_ref_edges out = opt_list (w_artifact_port sm) \<and>
     wo_artifact_ref out = (w_artifact_port sm \<noteq> None) \<and>
     (w_pod_id sm = None \<longrightarrow> wo_pod_intent out = IntentNone) \<and>
     (wo_readiness out \<noteq> None \<longrightarrow> w_pod_running sm) \<and>
     wo_wanted_timers out = wl_timers sm \<and>
     wo_status out = wl_status_of sm \<and>
     wo_consecutive_failures out = w_consecutive_failures sm \<and>
     wo_spec_stale out = wl_spec_stale_of sm"

lemma with_max_retries_sel [simp]:
  "w_pod_id (with_max_retries m) = None" "w_artifact_port (with_max_retries m) = None"
  "\<not> w_in_backoff (with_max_retries m)" "\<not> w_pod_running (with_max_retries m)"
  "w_consecutive_failures (with_max_retries m) = 0"
  by (simp_all add: with_max_retries_def)

lemma workload_inv_init:
  assumes "workload_initialize (with_max_retries m, workload_ctx_new a) = (sm, ctx)"
  shows "workload_inv sm (workload_publish ctx workload_out_default)"
proof -
  have sm: "sm = fst (workload_initialize (with_max_retries m, workload_ctx_new a))"
    and ctx: "ctx = snd (workload_initialize (with_max_retries m, workload_ctx_new a))"
    by (simp_all add: assms)
  show ?thesis unfolding sm ctx
    by (simp add: workload_initialize_def wl_update_status_signals_def workload_inv_def
      workload_publish_def workload_out_default_def wl_timers_def)
qed

lemma workload_inv_step:
  assumes inv: "workload_inv sm out"
    and h: "workload_handle wid inp (sm, workload_ctx_new a) = (sm', ctx)"
    and live: "\<not> wx_self_destruct ctx"
  shows "workload_inv sm' (workload_publish ctx out)"
proof -
  have "links_ok out (sm', ctx)"
    using links_handle [of out "(sm, workload_ctx_new a)" wid inp] inv h
    by (simp add: links_ok_def workload_inv_def)
  moreover have "ready_ok out (sm', ctx)"
    using ready_ok_handle [of out "(sm, workload_ctx_new a)" wid inp] inv h
    by (simp add: ready_ok_def workload_inv_def)
  moreover have "latest (wx_wanted_timers ctx) (wo_wanted_timers out) = wl_timers sm'"
    using workload_handle_timers [of wid inp sm "workload_ctx_new a"] inv h live
    by (auto simp: timers_set_def workload_inv_def)
  moreover have "latest (wx_status ctx) (wo_status out) = wl_status_of sm' \<and>
      latest (wx_consecutive_failures ctx) (wo_consecutive_failures out) = w_consecutive_failures sm' \<and>
      latest (wx_spec_stale ctx) (wo_spec_stale out) = wl_spec_stale_of sm'"
    using workload_handle_status [of wid inp sm "workload_ctx_new a"] inv h live
    by (auto simp: status_set_def workload_inv_def)
  ultimately show ?thesis
    by (simp add: workload_inv_def workload_publish_def links_ok_def ready_ok_def)
qed

lemma workload_reach_inv: "workload_reach wid m sm out \<Longrightarrow> workload_inv sm out"
  by (induction rule: workload_reach.induct) (blast intro: workload_inv_init workload_inv_step)+

section \<open>Every handler ends reconciled\<close>

text \<open>
  The fixpoint \<open>reconcile\<close> works towards: a wanted workload has a pod or waits
  for the confirmation of its artifact, an unwanted one has none, keeps a failed
  one for inspection, or waits for a suspend.
\<close>

definition settled :: "workload_sm \<Rightarrow> bool" where
  "settled sm \<longleftrightarrow> w_awaiting_suspend sm \<or>
     (if want_pod sm
      then w_pod_id sm \<noteq> None \<or> w_artifact_port sm \<noteq> None \<and> \<not> w_artifact_confirmed sm
      else w_pod_id sm = None \<or> \<not> w_pod_running sm \<and> (w_in_backoff sm \<or> retries_exhausted sm))"

lemma want_pod_upd [simp]:
  "want_pod (sm\<lparr>w_wants_pod := b\<rparr>) = want_pod sm"
  "want_pod (sm\<lparr>w_pod_id := p\<rparr>) = want_pod sm"
  "want_pod (sm\<lparr>w_launched_with_spec_version := v\<rparr>) = want_pod sm"
  "want_pod (sm\<lparr>w_pod_worker_id := w\<rparr>) = want_pod sm"
  by (simp_all add: want_pod_def effective_demand_def retries_exhausted_def)

lemma retries_exhausted_upd [simp]:
  "retries_exhausted (sm\<lparr>w_wants_pod := b\<rparr>) = retries_exhausted sm"
  "retries_exhausted (sm\<lparr>w_pod_id := p\<rparr>) = retries_exhausted sm"
  "retries_exhausted (sm\<lparr>w_pod_worker_id := w\<rparr>) = retries_exhausted sm"
  "retries_exhausted (sm\<lparr>w_launched_with_spec_version := v\<rparr>) = retries_exhausted sm"
  by (simp_all add: retries_exhausted_def)

lemma settled_worker: "settled (sm\<lparr>w_pod_worker_id := w\<rparr>) = settled sm"
  by (simp add: settled_def)

lemma reconcile_settled [simp]: "settled (fst (reconcile s))"
  by (cases s)
     (simp add: reconcile_def reconcile_create_def wl_create_pod_def settled_def Let_def
        case_prod_beta)

text \<open>A pod is created only for a wanted workload without a pod, and at most one.\<close>

lemma reconcile_created:
  "wx_created_pods (snd (reconcile (sm, ctx))) = wx_created_pods ctx \<or>
   (\<exists>pid pod. wx_created_pods (snd (reconcile (sm, ctx))) = wx_created_pods ctx @ [(pid, pod)] \<and>
      want_pod sm \<and> w_pod_id sm = None \<and> w_pod_id (fst (reconcile (sm, ctx))) = Some pid \<and>
      p_resume_artifact pod = w_artifact_port sm)"
  by (auto simp: reconcile_def reconcile_create_def wl_create_pod_def Let_def case_prod_beta
      pod_new_def pod_new_from_artifact_def split: option.split)

text \<open>
  A report that the pod runs is legal for a workload that launches a pod: the pod
  state machine leaves \<open>Pending\<close> at most once, and never leaves a terminal state.
\<close>

definition legal_report :: "workload_sm \<Rightarrow> pod_status list \<Rightarrow> bool" where
  "legal_report sm statuses \<longleftrightarrow> length statuses \<le> 1 \<and>
     (Running \<in> set statuses \<and> \<not> w_pod_running sm \<longrightarrow>
        w_pod_id sm \<noteq> None \<and> \<not> w_awaiting_suspend sm \<and>
        \<not> w_in_backoff sm \<and> \<not> retries_exhausted sm)"

fun legal_input :: "workload_sm \<Rightarrow> workload_input \<Rightarrow> bool" where
  "legal_input sm (PodStatusInput statuses) = legal_report sm statuses"
| "legal_input sm _ = True"

lemma on_pod_running_settled:
  assumes "settled sm" "w_pod_id sm \<noteq> None" "\<not> w_awaiting_suspend sm" "\<not> w_in_backoff sm"
    "\<not> retries_exhausted sm"
  shows "settled (fst (on_pod_running (sm\<lparr>w_pod_running := True\<rparr>, ctx)))"
proof -
  have "want_pod sm" using assms by (auto simp: settled_def split: if_splits)
  moreover have "\<not> w_max_retries sm \<le> 0"
    using assms(5) by (auto simp: retries_exhausted_def)
  ultimately show ?thesis using assms(2)
    by (auto simp: on_pod_running_def Let_def case_prod_beta)
       (auto simp: settled_def want_pod_def clear_artifact_ref_def effective_demand_def
          retries_exhausted_def)
qed

lemma pod_status_react_settled:
  assumes "w_pod_running sm \<and> \<not> was \<Longrightarrow> find_map suspended_artifact_of statuses = None \<Longrightarrow>
      settled (fst (on_pod_running (sm, ctx)))"
  shows "settled (fst (pod_status_react statuses was (sm, ctx)))"
  using assms
  by (auto simp: pod_status_react_def Let_def case_prod_beta on_pod_suspended_def on_pod_failed_def
      on_pod_displaced_def on_pod_finished_def split: option.split)

lemma workload_handle_settled:
  assumes "settled sm" "legal_input sm inp"
    and live: "\<not> wx_self_destruct (snd (workload_handle wid inp (sm, ctx)))"
  shows "settled (fst (workload_handle wid inp (sm, ctx)))"
proof (cases inp)
  case (DemandInput d)
  then show ?thesis by (simp add: wl_on_demand_def Let_def)
next
  case (SpecInput so)
  with live show ?thesis
    by (cases so) (simp_all add: wl_on_spec_def Let_def case_prod_beta split: if_splits)
next
  case (PodStatusInput statuses)
  with assms have legal: "legal_report sm statuses" by simp
  show ?thesis
  proof (cases "statuses = [] \<and> w_pod_id sm \<noteq> None")
    case True
    with PodStatusInput show ?thesis
      by (simp add: wl_on_pod_status_def Let_def pod_status_react_def case_prod_beta pods_gone_def
          release_pod_def)
  next
    case False
    have "settled (fst (pod_status_react statuses (w_pod_running sm)
            (sm\<lparr>w_pod_running := Running \<in> set statuses\<rparr>, ctx)))"
      by (rule pod_status_react_settled)
         (use assms(1) legal in \<open>auto simp: legal_report_def intro!: on_pod_running_settled\<close>)
    with False PodStatusInput show ?thesis
      by (auto simp: wl_on_pod_status_def Let_def)
  qed
next
  case (PodWorkerInput ws)
  with assms show ?thesis
    by (simp add: wl_on_pod_worker_def Let_def settled_worker)
next
  case (AdminCommand cmd)
  with assms show ?thesis by (cases cmd) (simp_all add: Let_def case_prod_beta)
next
  case (ArtifactInput v)
  with assms show ?thesis by (simp add: wl_on_artifact_def)
next
  case (WorkloadTimerFired key)
  with assms show ?thesis by (cases key) (simp_all add: Let_def case_prod_beta)
qed

section \<open>A suspend always has a pod to wait for\<close>

definition guards_ok :: "workload_sm \<Rightarrow> bool" where
  "guards_ok sm \<longleftrightarrow> 0 < w_max_retries sm \<and>
     (w_awaiting_suspend sm \<longrightarrow> w_pod_id sm \<noteq> None \<and> \<not> w_in_backoff sm \<and> \<not> retries_exhausted sm) \<and>
     (w_pod_running sm \<longrightarrow> \<not> w_in_backoff sm \<and> \<not> retries_exhausted sm)"

definition guards :: "wl \<Rightarrow> bool" where
  "guards s = guards_ok (fst s)"

definition guards_of :: "u32 \<Rightarrow> bool \<Rightarrow> bool \<Rightarrow> bool \<Rightarrow> u32 \<Rightarrow> bool \<Rightarrow> bool" where
  "guards_of m awaiting has_pod backoff failures running \<longleftrightarrow> 0 < m \<and>
     (awaiting \<longrightarrow> has_pod \<and> \<not> backoff \<and> \<not> failures \<ge> m) \<and>
     (running \<longrightarrow> \<not> backoff \<and> \<not> failures \<ge> m)"

text \<open>An explicit pair is reduced to the fields the guards read.\<close>

lemma guards_pair:
  "guards (sm, ctx) = guards_of (w_max_retries sm) (w_awaiting_suspend sm) (w_pod_id sm \<noteq> None)
     (w_in_backoff sm) (w_consecutive_failures sm) (w_pod_running sm)"
  by (simp add: guards_def guards_ok_def guards_of_def retries_exhausted_def)

lemma guards_of_weaken:
  "guards_of m a p b f r \<Longrightarrow> guards_of m False q b f r"
  "guards_of m a p b f r \<Longrightarrow> guards_of m a p False 0 r"
  "guards_of m a p b f r \<Longrightarrow> guards_of m a p False f r"
  "guards_of m a p b f r \<Longrightarrow> guards_of m False q b' f' False"
  "guards_of m a p b f r \<Longrightarrow> guards_of m a p b f False"
  "guards_of m a p b f r \<Longrightarrow> guards_of m False q False 0 r"
  by (auto simp: guards_of_def)

lemmas guards_defs = guards_def guards_ok_def retries_exhausted_def

lemma guards_clear_artifact_ref [simp]: "guards (clear_artifact_ref s) = guards s"
  by (cases s) (simp add: clear_artifact_ref_def guards_defs)

lemma guards_drop_artifact [simp]: "guards (drop_artifact s) = guards s"
  by (cases s) (simp add: drop_artifact_def guards_defs)

lemma guards_destroy_current_pod [simp]: "guards s \<Longrightarrow> guards (destroy_current_pod s)"
  by (cases s) (simp add: destroy_current_pod_def clear_artifact_ref_def guards_defs Let_def)

lemma guards_reap_retained_pod [simp]: "guards s \<Longrightarrow> guards (reap_retained_pod s)"
  by (cases s) (auto simp: reap_retained_pod_def guards_defs Let_def)

lemma guards_reconcile [simp]: "guards s \<Longrightarrow> guards (reconcile s)"
  by (cases s)
     (simp add: reconcile_def reconcile_create_def wl_create_pod_def guards_defs Let_def
        case_prod_beta)

lemma guards_pods_gone [simp]: "guards s \<Longrightarrow> guards (pods_gone s)"
  by (cases s) (simp add: pods_gone_def release_pod_def guards_defs)

lemma guards_update_signals [simp]:
  "guards (wl_update_timer_signal s) = guards s" "guards (wl_update_status_signals s) = guards s"
  "guards (update_readiness s) = guards s"
  by (simp_all add: guards_def)

lemma clear_artifact_ref_fields [simp]:
  "w_awaiting_suspend (fst (clear_artifact_ref s)) = w_awaiting_suspend (fst s)"
  "w_max_retries (fst (clear_artifact_ref s)) = w_max_retries (fst s)"
  "w_in_backoff (fst (clear_artifact_ref s)) = w_in_backoff (fst s)"
  "w_consecutive_failures (fst (clear_artifact_ref s)) = w_consecutive_failures (fst s)"
  "w_pod_id (fst (clear_artifact_ref s)) = w_pod_id (fst s)"
  "w_has_demand (fst (clear_artifact_ref s)) = w_has_demand (fst s)"
  "w_respects_demand (fst (clear_artifact_ref s)) = w_respects_demand (fst s)"
  "w_artifact_port (fst (clear_artifact_ref s)) = None"
  by (cases s; simp add: clear_artifact_ref_def)+

lemma release_pod_fields [simp]:
  "w_awaiting_suspend (fst (release_pod s)) = w_awaiting_suspend (fst s)"
  "w_max_retries (fst (release_pod s)) = w_max_retries (fst s)"
  "w_in_backoff (fst (release_pod s)) = w_in_backoff (fst s)"
  "w_consecutive_failures (fst (release_pod s)) = w_consecutive_failures (fst s)"
  "w_pod_id (fst (release_pod s)) = None"
  "w_artifact_port (fst (release_pod s)) = w_artifact_port (fst s)"
  by (cases s; simp add: release_pod_def)+

lemma guards_on_pod_running:
  assumes "0 < w_max_retries sm" "\<not> w_in_backoff sm" "\<not> w_awaiting_suspend sm"
  shows "guards (on_pod_running (sm, ctx))"
proof -
  have "guards (sm\<lparr>w_committed_to_boot := False, w_consecutive_failures := 0\<rparr>, ctx)"
    using assms by (auto simp: guards_pair guards_of_def)
  then show ?thesis by (simp add: on_pod_running_def Let_def case_prod_beta)
qed

lemma guards_on_pod_finished: "guards s \<Longrightarrow> guards (on_pod_finished code s)"
  by (cases s)
     (simp add: on_pod_finished_def Let_def case_prod_beta guards_pair guards_of_weaken)

lemma guards_on_pod_displaced: "guards s \<Longrightarrow> guards (on_pod_displaced s)"
  by (cases s)
     (simp add: on_pod_displaced_def Let_def case_prod_beta guards_pair guards_of_weaken)

lemma guards_on_pod_suspended: "guards s \<Longrightarrow> guards (on_pod_suspended a s)"
  by (cases s)
     (simp add: on_pod_suspended_def release_pod_def Let_def case_prod_beta guards_pair
        guards_of_weaken)

lemma guards_on_pod_failed:
  "guards s \<Longrightarrow> \<not> w_pod_running (fst s) \<Longrightarrow> guards (on_pod_failed code reason s)"
  by (cases s)
     (simp add: on_pod_failed_def Let_def case_prod_beta guards_pair guards_of_weaken)

lemma guards_pod_status_react:
  assumes "guards (sm, ctx)" "find_map failed_of statuses \<noteq> None \<Longrightarrow> \<not> w_pod_running sm"
    and "w_pod_running sm \<Longrightarrow> \<not> was \<Longrightarrow> \<not> w_in_backoff sm \<and> \<not> w_awaiting_suspend sm"
  shows "guards (pod_status_react statuses was (sm, ctx))"
proof -
  have "0 < w_max_retries sm" using assms(1) by (simp add: guards_pair guards_of_def)
  moreover have "guards (sm, ctx\<lparr>wx_readiness := r, wx_placement := p\<rparr>)" for r p
    using assms(1) by (simp add: guards_pair)
  ultimately show ?thesis
    using assms
    by (auto simp: pod_status_react_def case_prod_beta guards_on_pod_running guards_on_pod_finished
        guards_on_pod_displaced guards_on_pod_suspended guards_on_pod_failed split: option.split)
qed

lemma legal_report_failed:
  "length statuses \<le> 1 \<Longrightarrow> find_map failed_of statuses \<noteq> None \<Longrightarrow> Running \<notin> set statuses"
  by (cases statuses) auto

lemma guards_on_pod_status:
  assumes "guards (sm, ctx)" "legal_report sm statuses"
  shows "guards (wl_on_pod_status statuses (sm, ctx))"
proof -
  let ?sm = "sm\<lparr>w_pod_running := Running \<in> set statuses\<rparr>"
  have g: "guards (?sm, ctx)"
    using assms by (auto simp: guards_pair guards_of_def legal_report_def retries_exhausted_def)
  have "guards (pod_status_react statuses (w_pod_running sm) (?sm, ctx))"
    using g assms(2) legal_report_failed [of statuses]
    by (intro guards_pod_status_react) (auto simp: legal_report_def)
  moreover have "guards (pod_status_react [] (w_pod_running sm) (pods_gone (sm\<lparr>w_pod_running := False\<rparr>, ctx)))"
    if "statuses = []"
  proof -
    have "guards (pods_gone (sm\<lparr>w_pod_running := False\<rparr>, ctx))"
      using g that by (intro guards_pods_gone) simp
    moreover have "\<not> w_pod_running (fst (pods_gone (sm\<lparr>w_pod_running := False\<rparr>, ctx)))" by simp
    ultimately show ?thesis
      by (metis (no_types, lifting) find_map.simps(1) guards_pod_status_react prod.collapse)
  qed
  ultimately show ?thesis
    by (auto simp: wl_on_pod_status_def Let_def)
qed

lemma guards_on_demand: "guards s \<Longrightarrow> guards (wl_on_demand d s)"
  by (cases s) (auto simp: wl_on_demand_def Let_def guards_pair guards_of_def intro!: guards_reconcile)

lemma guards_spec_endpoint [simp]: "guards (wl_spec_endpoint wid spec s) = guards s"
  by (cases s) (simp add: wl_spec_endpoint_def wl_create_endpoint_def Let_def case_prod_beta
      guards_defs split: option.split)

lemma guards_spec_config [simp]:
  "guards (wl_spec_config spec sm\<lparr>w_current_pod_spec := ps\<rparr>, ctx) = guards (sm, ctx)"
  by (simp add: wl_spec_config_def Let_def guards_pair)

lemma guards_pod_spec_changed [simp]:
  assumes "guards s" shows "guards (wl_pod_spec_changed s)"
proof -
  obtain sm ctx where s: "s = (sm, ctx)" by force
  obtain sm1 ctx1 where r: "reap_retained_pod (sm\<lparr>w_spec_version := w_spec_version sm + 1\<rparr>, ctx)
      = (sm1, ctx1)" by force
  have "guards (sm1, ctx1)"
    unfolding r [symmetric] using assms by (intro guards_reap_retained_pod) (simp add: s guards_pair)
  then have "guards (sm1\<lparr>w_consecutive_failures := 0, w_restart_count := 0, w_in_backoff := False,
      w_completed := False\<rparr>, ctx1)"
    by (simp add: guards_pair guards_of_weaken)
  then show ?thesis by (simp add: s wl_pod_spec_changed_def Let_def case_prod_beta r)
qed

lemma guards_suspend_disabled [simp]: "guards s \<Longrightarrow> guards (wl_suspend_disabled s)"
  by (cases s) (simp add: wl_suspend_disabled_def)

lemma guards_new_spec:
  assumes "guards s" shows "guards (wl_new_spec wid spec s)"
proof -
  obtain sm ctx where s: "s = (sm, ctx)" by force
  obtain sm1 ctx1 where e: "wl_spec_endpoint wid spec
      (sm\<lparr>w_pod_ip := unwrap_or (map_option pn_ip (ps_network (ws_pod_spec spec))) ipv4_unspecified\<rparr>, ctx)
      = (sm1, ctx1)" by force
  have "guards (sm1, ctx1)"
    unfolding e [symmetric] using assms by (simp add: s guards_pair)
  then show ?thesis
    by (simp add: s wl_new_spec_def Let_def case_prod_beta e)
qed

lemma guards_on_spec:
  assumes "guards s" shows "guards (wl_on_spec wid so s)"
proof -
  obtain sm ctx where s: "s = (sm, ctx)" by force
  show ?thesis
  proof (cases so)
    case None
    obtain sm1 ctx1 where d: "destroy_current_pod (sm, ctx\<lparr>wx_pod_launch_spec := Some None\<rparr>)
        = (sm1, ctx1)" by force
    have "guards (sm1, ctx1)"
      unfolding d [symmetric] using assms
      by (intro guards_destroy_current_pod) (simp add: s guards_pair)
    with None assms show ?thesis
      by (simp add: s wl_on_spec_def Let_def case_prod_beta guards_pair d)
  next
    case (Some ms)
    obtain sm1 ctx1 where n: "wl_new_spec wid (snd ms)
        (sm, ctx\<lparr>wx_pod_launch_spec := Some (Some (snd ms))\<rparr>) = (sm1, ctx1)" by force
    have "guards (sm1, ctx1)"
      unfolding n [symmetric] using assms by (intro guards_new_spec) (simp add: s guards_pair)
    with Some show ?thesis
      by (simp add: s wl_on_spec_def Let_def case_prod_beta n guards_pair)
  qed
qed

lemma guards_on_admin:
  assumes "guards s" shows "guards (wl_on_admin cmd s)"
proof -
  obtain sm ctx where s: "s = (sm, ctx)" by force
  show ?thesis
  proof (cases cmd)
    case Restart
    obtain sm1 ctx1 where d: "destroy_current_pod
        (sm\<lparr>w_consecutive_failures := 0, w_restart_count := 0, w_in_backoff := False,
            w_completed := False\<rparr>, ctx) = (sm1, ctx1)" by force
    have "guards (sm1, ctx1)"
      unfolding d [symmetric] using assms
      by (intro guards_destroy_current_pod) (simp add: s guards_pair guards_of_weaken)
    with Restart show ?thesis by (simp add: s Let_def case_prod_beta d guards_pair)
  next
    case Scavenge
    with assms show ?thesis by (simp add: s guards_pair guards_of_weaken)
  qed
qed

lemma guards_on_timer:
  assumes "guards s" shows "guards (wl_on_timer key s)"
proof -
  obtain sm ctx where s: "s = (sm, ctx)" by force
  show ?thesis
  proof (cases key)
    case RetryBackoff
    obtain sm1 ctx1 where r: "reap_retained_pod (sm, ctx) = (sm1, ctx1)" by force
    have "guards (sm1, ctx1)"
      unfolding r [symmetric] using assms by (simp add: s)
    with RetryBackoff assms show ?thesis
      by (simp add: s Let_def case_prod_beta r guards_pair guards_of_weaken)
  next
    case ArtifactConfirm
    with assms show ?thesis by (simp add: s)
  qed
qed

lemma guards_handle:
  assumes "guards (sm, ctx)" "legal_input sm inp"
  shows "guards (workload_handle wid inp (sm, ctx))"
proof (cases inp)
  case (PodWorkerInput ws)
  with assms show ?thesis by (auto simp: wl_on_pod_worker_def Let_def guards_pair)
next
  case (ArtifactInput v)
  with assms show ?thesis by (simp add: wl_on_artifact_def guards_pair)
qed (use assms in \<open>simp_all add: guards_on_demand guards_on_spec guards_on_pod_status guards_on_admin
       guards_on_timer\<close>)

section \<open>Exhausted retries are final\<close>

text \<open>
  The inputs that do not end a terminal failure: demand that persists, reports of
  a pod that does not run, timers, artifacts, a scavenge (the workload is
  demanded), and a specification with the same pod-affecting part.
\<close>

fun keeps_failed :: "workload_sm \<Rightarrow> workload_input \<Rightarrow> bool" where
  "keeps_failed sm (DemandInput d) = (0 < di_demand_count d)"
| "keeps_failed sm (SpecInput None) = False"
| "keeps_failed sm (SpecInput (Some (_, spec))) =
     (w_has_spec sm \<and> w_current_pod_spec sm = Some (ws_pod_spec spec) \<and>
      (wcf_respects_demand (ws_config spec) \<longrightarrow> w_has_demand sm))"
| "keeps_failed sm (PodStatusInput statuses) =
     (Running \<notin> set statuses \<and> w_consecutive_failures sm \<noteq> - 1)"
| "keeps_failed sm (AdminCommand Restart) = False"
| "keeps_failed sm _ = True"

definition gave_up :: "wl \<Rightarrow> bool" where
  "gave_up s \<longleftrightarrow> retries_exhausted (fst s) \<and> effective_demand (fst s) \<and> wx_created_pods (snd s) = []"

lemma gave_up_pair:
  "gave_up (sm, ctx) \<longleftrightarrow> w_max_retries sm \<le> w_consecutive_failures sm \<and>
     (\<not> w_respects_demand sm \<or> w_has_demand sm) \<and> wx_created_pods ctx = []"
  by (simp add: gave_up_def retries_exhausted_def effective_demand_def)

lemmas gave_up_defs = gave_up_def retries_exhausted_def effective_demand_def

lemma gave_up_helpers [simp]:
  "gave_up (clear_artifact_ref s) = gave_up s" "gave_up (drop_artifact s) = gave_up s"
  "gave_up (reap_retained_pod s) = gave_up s" "gave_up (release_pod s) = gave_up s"
  "gave_up (destroy_current_pod s) = gave_up s" "gave_up (pods_gone s) = gave_up s"
  "gave_up (wl_update_timer_signal s) = gave_up s" "gave_up (wl_update_status_signals s) = gave_up s"
  "gave_up (update_readiness s) = gave_up s"
  by (cases s; simp add: clear_artifact_ref_def drop_artifact_def reap_retained_pod_def
      release_pod_def destroy_current_pod_def pods_gone_def gave_up_defs Let_def)+

lemma gave_up_reconcile [simp]: "gave_up s \<Longrightarrow> gave_up (reconcile s)"
  by (cases s)
     (auto simp: reconcile_def want_pod_def gave_up_defs Let_def)

lemma gave_up_on_pod_suspended: "gave_up s \<Longrightarrow> gave_up (on_pod_suspended a s)"
  by (cases s) (simp add: on_pod_suspended_def Let_def case_prod_beta gave_up_pair)

lemma gave_up_on_pod_displaced: "gave_up s \<Longrightarrow> gave_up (on_pod_displaced s)"
  by (cases s)
     (simp add: on_pod_displaced_def release_pod_def Let_def case_prod_beta gave_up_pair)

lemma gave_up_on_pod_finished: "gave_up s \<Longrightarrow> gave_up (on_pod_finished code s)"
  by (cases s)
     (simp add: on_pod_finished_def release_pod_def clear_artifact_ref_def Let_def case_prod_beta
        gave_up_pair)

lemma u32_succ_le: "m \<le> (f :: u32) \<Longrightarrow> f \<noteq> - 1 \<Longrightarrow> m \<le> f + 1"
  using unatSuc [of f] by (simp add: word_le_nat_alt add.commute add_eq_0_iff)

lemma gave_up_on_pod_failed:
  "gave_up s \<Longrightarrow> w_consecutive_failures (fst s) \<noteq> - 1 \<Longrightarrow> gave_up (on_pod_failed code reason s)"
  by (cases s)
     (auto simp: on_pod_failed_def clear_artifact_ref_def Let_def case_prod_beta gave_up_pair
        retries_exhausted_def effective_demand_def u32_succ_le intro!: gave_up_reconcile)

lemma pods_gone_failures:
  "w_consecutive_failures (fst (pods_gone s)) = w_consecutive_failures (fst s)"
  by (cases s) (simp add: pods_gone_def release_pod_def)

lemma gave_up_pod_status_react:
  "gave_up s \<Longrightarrow> w_consecutive_failures (fst s) \<noteq> - 1 \<Longrightarrow> \<not> w_pod_running (fst s) \<Longrightarrow>
   gave_up (pod_status_react statuses was s)"
  by (cases s)
     (auto simp: pod_status_react_def case_prod_beta gave_up_on_pod_suspended
        gave_up_on_pod_displaced gave_up_on_pod_finished gave_up_on_pod_failed gave_up_pair
        split: option.split intro!: gave_up_reconcile)

lemma gave_up_new_spec:
  assumes "gave_up (sm, ctx)" "keeps_failed sm (SpecInput (Some (m, spec)))"
  shows "gave_up (wl_new_spec wid spec (sm, ctx))"
  using assms
  by (auto simp: wl_new_spec_def wl_spec_endpoint_def wl_create_endpoint_def wl_spec_config_def
      wl_suspend_disabled_def Let_def case_prod_beta gave_up_pair split: option.split)

lemma gave_up_handle:
  assumes "gave_up (sm, ctx)" "keeps_failed sm inp"
  shows "gave_up (workload_handle wid inp (sm, ctx))"
proof (cases inp)
  case (DemandInput d)
  with assms show ?thesis
    by (auto simp: wl_on_demand_def Let_def gave_up_pair intro!: gave_up_reconcile)
next
  case (SpecInput so)
  with assms(2) obtain m spec where so: "so = Some (m, spec)" by (cases so) auto
  obtain sm1 ctx1 where n: "wl_new_spec wid spec
      (sm, ctx\<lparr>wx_pod_launch_spec := Some (Some spec)\<rparr>) = (sm1, ctx1)" by force
  have "gave_up (sm1, ctx1)"
    unfolding n [symmetric]
    by (rule gave_up_new_spec) (use assms SpecInput so in \<open>auto simp: gave_up_pair\<close>)
  then show ?thesis
    by (simp add: SpecInput so wl_on_spec_def Let_def case_prod_beta n gave_up_pair)
next
  case (PodStatusInput statuses)
  have "gave_up (pod_status_react statuses w (pods_gone (sm\<lparr>w_pod_running := False\<rparr>, ctx)))"
    and "gave_up (pod_status_react statuses w (sm\<lparr>w_pod_running := False\<rparr>, ctx))" for w
    using assms PodStatusInput
    by (auto intro!: gave_up_pod_status_react simp: gave_up_pair pods_gone_failures)
  with assms PodStatusInput show ?thesis
    by (auto simp: wl_on_pod_status_def Let_def)
next
  case (PodWorkerInput ws)
  with assms show ?thesis by (auto simp: wl_on_pod_worker_def Let_def gave_up_pair)
next
  case (AdminCommand cmd)
  with assms show ?thesis
    by (cases cmd) (simp_all add: gave_up_pair effective_demand_def)
next
  case (ArtifactInput v)
  with assms show ?thesis by (simp add: wl_on_artifact_def gave_up_pair)
next
  case (WorkloadTimerFired key)
  obtain sm1 ctx1 where r: "reap_retained_pod (sm, ctx) = (sm1, ctx1)" by force
  have "gave_up (sm1, ctx1)"
    unfolding r [symmetric] using assms(1) by simp
  with assms WorkloadTimerFired show ?thesis
    by (cases key) (simp_all add: Let_def case_prod_beta r gave_up_pair)
qed

section \<open>Artifacts and specification changes\<close>

lemma reconcile_artifact [simp]:
  "w_artifact_port (fst (reconcile s)) = w_artifact_port (fst s)"
  "w_artifact_confirmed (fst (reconcile s)) = w_artifact_confirmed (fst s)"
  "w_artifact_confirm_gen (fst (reconcile s)) = w_artifact_confirm_gen (fst s)"
  "w_spec_version (fst (reconcile s)) = w_spec_version (fst s)"
  by (cases s; simp add: reconcile_def reconcile_create_def wl_create_pod_def Let_def
      case_prod_beta)+

text \<open>A suspend of a pod of the current specification saves the artifact and arms its timer;
  no pod is launched before the artifact is confirmed.\<close>

lemma suspended_saves_artifact:
  assumes "w_spec_version sm = w_launched_with_spec_version sm"
    and s: "s = workload_handle wid (PodStatusInput [Suspended a]) (sm, ctx)"
  shows "w_artifact_port (fst s) = Some a" "\<not> w_artifact_confirmed (fst s)"
    "w_pod_id (fst s) = None" "wx_created_pods (snd s) = wx_created_pods ctx"
  unfolding s using assms(1)
  by (simp_all add: wl_on_pod_status_def pod_status_react_def on_pod_suspended_def release_pod_def
      Let_def case_prod_beta)
     (simp_all add: reconcile_def Let_def)

text \<open>The artifact of a pod of an outdated specification is not saved.\<close>

lemma suspended_discards_stale_artifact:
  assumes "w_spec_version sm \<noteq> w_launched_with_spec_version sm"
  shows "w_artifact_port (fst (workload_handle wid (PodStatusInput [Suspended a]) (sm, ctx))) =
    w_artifact_port sm"
  using assms
  by (simp add: wl_on_pod_status_def pod_status_react_def on_pod_suspended_def release_pod_def
      Let_def case_prod_beta)

text \<open>A pod of an outdated specification never becomes ready.\<close>

lemma stale_pod_not_ready:
  assumes "w_spec_version sm \<noteq> w_launched_with_spec_version sm" "\<not> w_pod_running sm"
    and s: "s = workload_handle wid (PodStatusInput [Running]) (sm, ctx)"
  shows "wx_readiness (snd s) = Some None"
    "w_pod_id (fst s) = None \<or> (\<exists>pid. w_pod_id (fst s) = Some pid \<and>
       pid \<in> fst ` set (wx_created_pods (snd s)) \<and> w_launched_with_spec_version (fst s) = w_spec_version (fst s))"
  unfolding s using assms(1,2)
  by (simp_all add: wl_on_pod_status_def pod_status_react_def on_pod_running_def
      clear_artifact_ref_def destroy_current_pod_def Let_def case_prod_beta)
     (auto simp: reconcile_def reconcile_create_def wl_create_pod_def Let_def case_prod_beta)

text \<open>A failed pod takes the artifact it was resumed from with it.\<close>

lemma failed_drops_artifact:
  assumes "w_pod_id sm \<noteq> None"
  shows "w_artifact_port (fst (workload_handle wid (PodStatusInput [Failed c r]) (sm, ctx))) = None"
proof -
  have [simp]: "w_artifact_port (fst (reap_retained_pod s)) = w_artifact_port (fst s)" for s
    by (cases s) (simp add: reap_retained_pod_def Let_def)
  show ?thesis using assms
    by (simp add: wl_on_pod_status_def pod_status_react_def on_pod_failed_def Let_def
        case_prod_beta)
qed

section \<open>Runs under a well-behaved router\<close>

text \<open>
  A run feeds the workload the reports its pods can make: at most one status at
  a time, and a pod that starts running is one the workload launched and waits
  for.  All other inputs are arbitrary.
\<close>

inductive workload_run :: "workload_id \<Rightarrow> u32 \<Rightarrow> workload_sm \<Rightarrow> bool" for wid max_retries where
  start: "workload_run wid max_retries (with_max_retries max_retries)"
| input: "workload_run wid max_retries sm \<Longrightarrow> legal_input sm inp \<Longrightarrow>
    \<not> wx_self_destruct (snd (workload_handle wid inp (sm, workload_ctx_new a))) \<Longrightarrow>
    workload_run wid max_retries (fst (workload_handle wid inp (sm, workload_ctx_new a)))"

lemma workload_run_settled: "workload_run wid m sm \<Longrightarrow> settled sm"
proof (induction rule: workload_run.induct)
  case start
  show ?case by (simp add: settled_def want_pod_def with_max_retries_def)
next
  case (input sm inp a)
  then show ?case by (intro workload_handle_settled)
qed

lemma workload_run_guards: "workload_run wid m sm \<Longrightarrow> 0 < m \<Longrightarrow> guards_ok sm"
proof (induction rule: workload_run.induct)
  case start
  then show ?case by (simp add: guards_ok_def retries_exhausted_def with_max_retries_def)
next
  case (input sm inp a)
  then show ?case using guards_handle [of sm "workload_ctx_new a" inp wid] by (simp add: guards_def)
qed

lemma retry_relaunches:
  assumes "w_in_backoff sm" "\<not> w_awaiting_suspend sm" "\<not> w_pod_running sm"
    and "w_has_spec sm" "effective_demand sm" "\<not> retries_exhausted sm" "\<not> w_completed sm"
    and "w_artifact_port sm = None"
    and s: "s = workload_handle wid (WorkloadTimerFired RetryBackoff) (sm, ctx)"
  shows "\<exists>pid. w_pod_id (fst s) = Some pid \<and> wx_pod_ownership (snd s) = Some [pid] \<and>
      wx_created_pods (snd s) = wx_created_pods ctx @ [(pid, pod_new)] \<and> \<not> w_in_backoff (fst s)"
  unfolding s using assms(1-8)
  by (simp add: reap_retained_pod_def reconcile_def reconcile_create_def wl_create_pod_def
      wl_update_timer_signal_def wl_update_status_signals_def want_pod_def retries_exhausted_def
      effective_demand_def Let_def split: prod.split)

section \<open>Properties\<close>



text \<open>
  C2.  Between inputs a workload is always where it wants to be: unless a suspend
  is under way, it has a pod exactly when it wants one, but for a pod held back
  until the artifact it resumes from is confirmed and for a failed pod kept
  during backoff or after the last retry.
\<close>

theorem workload_settled:
  assumes "workload_run wid m sm"
  shows "w_awaiting_suspend sm \<or>
    (if want_pod sm
     then w_pod_id sm \<noteq> None \<or> w_artifact_port sm \<noteq> None \<and> \<not> w_artifact_confirmed sm
     else w_pod_id sm = None \<or> \<not> w_pod_running sm \<and> (w_in_backoff sm \<or> retries_exhausted sm))"
  using workload_run_settled [OF assms] by (simp add: settled_def)

theorem workload_settled_witness:
  "workload_run (WorkloadId 1) 5 (with_max_retries 5) \<and> w_pod_id (with_max_retries 5) = None"
proof -
  have r: "workload_run (WorkloadId 1) 5 (with_max_retries 5)" by (rule workload_run.start)
  moreover have "\<not> w_awaiting_suspend (with_max_retries 5)" "\<not> want_pod (with_max_retries 5)"
    "\<not> w_in_backoff (with_max_retries 5)" "\<not> retries_exhausted (with_max_retries 5)"
    by (simp_all add: with_max_retries_def want_pod_def retries_exhausted_def)
  ultimately show ?thesis using workload_settled [OF r] by simp
qed



text \<open>
  C11.  Giving up is final: a demanded workload that has used up its retries stays
  so and launches no pod, until demand ends, the pod specification changes, an
  administrator restarts it or a pod reports that it runs after all.
\<close>

theorem workload_gave_up_final:
  assumes "retries_exhausted sm" "effective_demand sm" "keeps_failed sm inp"
    and "s = workload_handle wid inp (sm, workload_ctx_new a)"
  shows "retries_exhausted (fst s) \<and> effective_demand (fst s) \<and> wx_created_pods (snd s) = []"
  using gave_up_handle [of sm "workload_ctx_new a" inp wid] assms
  by (simp add: gave_up_def workload_ctx_new_def)

theorem workload_gave_up_final_witness:
  "retries_exhausted (with_max_retries 0) \<and>
   wx_created_pods (snd (workload_handle (WorkloadId 1) (WorkloadTimerFired RetryBackoff)
     (with_max_retries 0, workload_ctx_new seq_ids_new))) = []"
proof -
  have "retries_exhausted (with_max_retries 0)" "effective_demand (with_max_retries 0)"
    by (simp_all add: retries_exhausted_def effective_demand_def with_max_retries_def)
  with workload_gave_up_final [of "with_max_retries 0" "WorkloadTimerFired RetryBackoff",
      OF _ _ _ refl, of "WorkloadId 1" seq_ids_new]
  show ?thesis by simp
qed

text \<open>
  C12.  Retries happen: when the backoff timer of a demanded workload with a
  specification, retries left and no artifact fires, exactly one fresh pod is
  created and owned, and the backoff is over.
\<close>

theorem workload_retry_relaunches:
  assumes "w_in_backoff sm" "\<not> w_awaiting_suspend sm" "\<not> w_pod_running sm"
    and "w_has_spec sm" "effective_demand sm" "\<not> retries_exhausted sm" "\<not> w_completed sm"
    and "w_artifact_port sm = None"
    and "s = workload_handle wid (WorkloadTimerFired RetryBackoff) (sm, workload_ctx_new a)"
  shows "\<exists>pid. w_pod_id (fst s) = Some pid \<and> wx_pod_ownership (snd s) = Some [pid] \<and>
      wx_created_pods (snd s) = [(pid, pod_new)] \<and> \<not> w_in_backoff (fst s)"
  using retry_relaunches [OF assms] by (simp add: workload_ctx_new_def)

theorem workload_retry_relaunches_witness:
  "\<exists>pid. w_pod_id (fst (workload_handle (WorkloadId 1) (WorkloadTimerFired RetryBackoff)
     ((with_max_retries 5)\<lparr>w_in_backoff := True, w_has_spec := True, w_consecutive_failures := 1,
        w_pod_id := Some (PodId 9)\<rparr>, workload_ctx_new seq_ids_new))) = Some pid"
proof -
  let ?sm = "(with_max_retries 5)\<lparr>w_in_backoff := True, w_has_spec := True, w_consecutive_failures := 1,
        w_pod_id := Some (PodId 9)\<rparr>"
  have "w_in_backoff ?sm" "\<not> w_awaiting_suspend ?sm" "\<not> w_pod_running ?sm" "w_has_spec ?sm"
    "effective_demand ?sm" "\<not> retries_exhausted ?sm" "\<not> w_completed ?sm" "w_artifact_port ?sm = None"
    by (simp_all add: with_max_retries_def effective_demand_def retries_exhausted_def word_le_nat_alt)
  from workload_retry_relaunches [OF this refl, of "WorkloadId 1" seq_ids_new] show ?thesis by blast
qed

text \<open>
   A suspended pod's artifact is saved for the next launch exactly when the pod
  ran the current specification; an artifact of an older specification is never
  adopted.  A saved artifact is unconfirmed and no pod is launched from it yet.
\<close>

theorem workload_suspended_artifact:
  assumes "s = workload_handle wid (PodStatusInput [Suspended art]) (sm, ctx)"
  shows "if w_spec_version sm = w_launched_with_spec_version sm
    then w_artifact_port (fst s) = Some art \<and> \<not> w_artifact_confirmed (fst s) \<and>
         w_pod_id (fst s) = None \<and> wx_created_pods (snd s) = wx_created_pods ctx
    else w_artifact_port (fst s) = w_artifact_port sm"
  using suspended_saves_artifact [OF _ assms] suspended_discards_stale_artifact [of sm wid art ctx] assms
  by simp

theorem workload_suspended_artifact_witness:
  "w_artifact_port (fst (workload_handle (WorkloadId 1) (PodStatusInput [Suspended (ArtifactPortId 4)])
     (with_max_retries 5, workload_ctx_new seq_ids_new))) = Some (ArtifactPortId 4)"
  using workload_suspended_artifact [OF refl, of "with_max_retries 5"]
  by (simp add: with_max_retries_def)





end
