(* ===== verification/Timers.thy ===== *)
theory Timers
  imports Sm_Types "HOL-Library.Product_Lexorder" "HOL-Library.AList"
begin

text \<open>
  Timers of a namespace: the adapter that turns changes of the wanted timers into
  start and cancel actions (\<open>adapter/timer/mod.rs\<close>) and the wheel that keeps
  their deadlines (\<open>core/namespace/timer_wheel.rs\<close>).

  The wheel holds two indices.  They are shown to stay consistent, a tick fires
  exactly the timers whose deadline has been reached, in deadline order, and the
  armed timers always mirror what the state machines want.
\<close>

section \<open>Identities and actions\<close>

datatype timer_identity =
    TWorkload workload_id workload_timer_key
  | TEndpoint endpoint_id endpoint_timer_key
  | TPod pod_id pod_timer_key

datatype timer_action =
    Start timer_identity u64 duration
  | Cancel timer_identity

text \<open>The derived order: the variant first, then the identifier, then the key.\<close>

fun workload_timer_rank :: "workload_timer_key \<Rightarrow> nat" where
  "workload_timer_rank RetryBackoff = 0"
| "workload_timer_rank ArtifactConfirm = 1"

fun pod_timer_rank :: "pod_timer_key \<Rightarrow> nat" where
  "pod_timer_rank LaunchTimeout = 0"
| "pod_timer_rank SuspendTimeout = 1"

fun timer_identity_rank :: "timer_identity \<Rightarrow> nat \<times> u64 \<times> nat" where
  "timer_identity_rank (TWorkload w k) = (0, workload_id_val w, workload_timer_rank k)"
| "timer_identity_rank (TEndpoint e k) = (1, endpoint_id_val e, 0)"
| "timer_identity_rank (TPod p k) = (2, pod_id_val p, pod_timer_rank k)"

lemma timer_rank_inj [simp]:
  "workload_timer_rank a = workload_timer_rank b \<longleftrightarrow> a = b"
  "pod_timer_rank c = pod_timer_rank d \<longleftrightarrow> c = d"
  by (cases a; cases b; simp) (cases c; cases d; simp)

lemma endpoint_key_eq: "(k :: endpoint_timer_key) = k'"
  by (cases k; cases k') simp

lemma timer_identity_rank_inj [simp]: "timer_identity_rank a = timer_identity_rank b \<longleftrightarrow> a = b"
  by (cases a; cases b) (auto simp: endpoint_key_eq)

instantiation timer_identity :: linorder
begin
definition less_eq_timer_identity :: "timer_identity \<Rightarrow> timer_identity \<Rightarrow> bool" where
  "less_eq_timer_identity a b \<longleftrightarrow> timer_identity_rank a \<le> timer_identity_rank b"
definition less_timer_identity :: "timer_identity \<Rightarrow> timer_identity \<Rightarrow> bool" where
  "less_timer_identity a b \<longleftrightarrow> timer_identity_rank a < timer_identity_rank b"
instance
proof
  fix a b c :: timer_identity
  show "a < b \<longleftrightarrow> a \<le> b \<and> \<not> b \<le> a"
    unfolding less_eq_timer_identity_def less_timer_identity_def by (rule less_le_not_le)
  show "a \<le> a" by (simp add: less_eq_timer_identity_def)
  show "a \<le> b \<Longrightarrow> b \<le> c \<Longrightarrow> a \<le> c"
    unfolding less_eq_timer_identity_def by (rule order_trans)
  show "a \<le> b \<Longrightarrow> b \<le> a \<Longrightarrow> a = b"
    unfolding less_eq_timer_identity_def by (metis order_antisym timer_identity_rank_inj)
  show "a \<le> b \<or> b \<le> a"
    unfolding less_eq_timer_identity_def by (rule linear)
qed
end

lemma timer_identity_least: "TWorkload (WorkloadId 0) RetryBackoff \<le> i"
  by (cases i) (auto simp: less_eq_timer_identity_def less_eq_prod_def)

section \<open>The adapter\<close>

text \<open>
  Collecting pairs into a \<open>HashMap\<close>: a repeated key keeps its last value.  The
  iteration order of a \<open>HashMap\<close> is unspecified; the actions are computed for an
  arbitrary enumeration of its entries.
\<close>

definition hm_collect :: "('k \<times> 'v) list \<Rightarrow> ('k \<times> 'v) list" where
  "hm_collect xs = fold (\<lambda>(k, v). AList.update k v) xs []"

definition cancel_entry ::
  "('key \<Rightarrow> timer_identity) \<Rightarrow> ('key \<times> u64 \<times> duration) list \<Rightarrow> 'key \<times> u64 \<Rightarrow> timer_action list" where
  "cancel_entry mk new_map = (\<lambda>(key, generation).
     case map_of new_map key of
       None \<Rightarrow> [Cancel (mk key)]
     | Some (new_generation, _) \<Rightarrow>
         if new_generation \<noteq> generation then [Cancel (mk key)] else [])"

definition start_entry ::
  "('key \<Rightarrow> timer_identity) \<Rightarrow> ('key \<times> u64) list \<Rightarrow> 'key \<times> u64 \<times> duration \<Rightarrow> timer_action list" where
  "start_entry mk old_map = (\<lambda>(key, generation, dur).
     case map_of old_map key of
       None \<Rightarrow> [Start (mk key) generation dur]
     | Some old_generation \<Rightarrow>
         if old_generation \<noteq> generation then [Start (mk key) generation dur] else [])"

definition diff_timer_maps ::
  "('key \<Rightarrow> timer_identity) \<Rightarrow> ('key \<times> u64) list \<Rightarrow> ('key \<times> u64 \<times> duration) list \<Rightarrow> timer_action list"
where
  "diff_timer_maps mk old_map new_map =
     concat (map (cancel_entry mk new_map) old_map) @
     concat (map (start_entry mk old_map) new_map)"

definition diff_timer_requests ::
  "('key \<Rightarrow> timer_identity) \<Rightarrow> 'key timer_request list \<Rightarrow> 'key timer_request list \<Rightarrow> timer_action list"
where
  "diff_timer_requests mk old new =
     diff_timer_maps mk
       (hm_collect (map (\<lambda>r. (tr_key r, tr_generation r)) old))
       (hm_collect (map (\<lambda>r. (tr_key r, tr_generation r, tr_duration r)) new))"

definition nonempty :: "'a list \<Rightarrow> 'a list option" where
  "nonempty xs = (if xs = [] then None else Some xs)"

definition timer_aggregator ::
  "('sm \<Rightarrow> 'key \<Rightarrow> timer_identity) \<Rightarrow>
   ('sm \<times> 'key timer_request list, timer_action list) incremental_aggregator" where
  "timer_aggregator make_identity =
     \<lparr>ia_added = (\<lambda>(sm_id, requests). nonempty
        (map (\<lambda>req. Start (make_identity sm_id (tr_key req)) (tr_generation req) (tr_duration req))
           requests)),
      ia_removed = (\<lambda>(sm_id, requests). nonempty
        (map (\<lambda>req. Cancel (make_identity sm_id (tr_key req))) requests)),
      ia_changed = (\<lambda>(sm_id, old_reqs) (_, new_reqs). nonempty
        (diff_timer_requests (make_identity sm_id) old_reqs new_reqs))\<rparr>"

datatype timer_port_input =
    WorkloadTimersInput "timer_action list"
  | EndpointTimersInput "timer_action list"
  | PodTimersInput "timer_action list"

fun timer_input_actions :: "timer_port_input \<Rightarrow> timer_action list" where
  "timer_input_actions (WorkloadTimersInput as) = as"
| "timer_input_actions (EndpointTimersInput as) = as"
| "timer_input_actions (PodTimersInput as) = as"

definition timer_adapter_reconcile ::
  "(timer_id \<times> timer_port_input) list \<Rightarrow> timer_action list \<times> bool" where
  "timer_adapter_reconcile inputs =
     (concat (map (\<lambda>(_, inp). timer_input_actions inp) (filter (\<lambda>(tid, _). tid = TIMER) inputs)),
      False)"

section \<open>The wheel\<close>

record timer_wheel =
  tw_by_deadline :: "(duration \<times> timer_identity, u64) omap"
  tw_by_identity :: "timer_identity \<rightharpoonup> u64 \<times> duration"

definition wheel_new :: timer_wheel where
  "wheel_new = \<lparr>tw_by_deadline = [], tw_by_identity = Map.empty\<rparr>"

text \<open>Remove an identity from both indices.\<close>

definition wheel_remove :: "timer_identity \<Rightarrow> timer_wheel \<Rightarrow> timer_wheel" where
  "wheel_remove i w = (case tw_by_identity w i of
       Some (_, old_deadline) \<Rightarrow>
         w\<lparr>tw_by_identity := (tw_by_identity w)(i := None),
           tw_by_deadline := om_remove (old_deadline, i) (tw_by_deadline w)\<rparr>
     | None \<Rightarrow> w)"

fun absorb_one :: "duration \<Rightarrow> timer_action \<Rightarrow> timer_wheel \<Rightarrow> timer_wheel" where
  "absorb_one now (Start i generation dur) w =
     (let w = wheel_remove i w;
          deadline = now + dur
      in w\<lparr>tw_by_deadline := om_insert (deadline, i) generation (tw_by_deadline w),
           tw_by_identity := (tw_by_identity w)(i \<mapsto> (generation, deadline))\<rparr>)"
| "absorb_one now (Cancel i) w = wheel_remove i w"

definition wheel_absorb :: "timer_action list \<Rightarrow> duration \<Rightarrow> timer_wheel \<Rightarrow> timer_wheel" where
  "wheel_absorb actions now w = fold (absorb_one now) actions w"

record fired_timer =
  ft_identity :: timer_identity
  ft_generation :: u64

definition fire_expired :: "duration \<Rightarrow> timer_wheel \<Rightarrow> timer_wheel \<times> fired_timer list" where
  "fire_expired now w =
     (let split_key = (now + 1, TWorkload (WorkloadId 0) RetryBackoff);
          remaining = filter (\<lambda>(k, _). split_key \<le> k) (tw_by_deadline w);
          expired = filter (\<lambda>(k, _). \<not> split_key \<le> k) (tw_by_deadline w)
      in (w\<lparr>tw_by_deadline := remaining,
            tw_by_identity := fold (\<lambda>((_, i), _) m. m(i := None)) expired (tw_by_identity w)\<rparr>,
          map (\<lambda>((_, i), g). \<lparr>ft_identity = i, ft_generation = g\<rparr>) expired))"

definition next_deadline :: "timer_wheel \<Rightarrow> duration option" where
  "next_deadline w = map_option (\<lambda>((deadline, _), _). deadline) (first (tw_by_deadline w))"

subsection \<open>Consistency of the two indices\<close>

definition wheel_inv :: "timer_wheel \<Rightarrow> bool" where
  "wheel_inv w \<longleftrightarrow> om_wf (tw_by_deadline w) \<and>
     (\<forall>i g d. map_of (tw_by_deadline w) (d, i) = Some g \<longleftrightarrow> tw_by_identity w i = Some (g, d))"

lemma wheel_inv_new [simp]: "wheel_inv wheel_new"
  by (simp add: wheel_inv_def wheel_new_def)

lemma wheel_remove_identity: "tw_by_identity (wheel_remove i w) = (tw_by_identity w)(i := None)"
  by (auto simp: wheel_remove_def fun_eq_iff split: option.splits)

lemma wheel_inv_remove:
  assumes "wheel_inv w" shows "wheel_inv (wheel_remove i w)"
proof (cases "tw_by_identity w i")
  case None
  then show ?thesis using assms by (simp add: wheel_remove_def)
next
  case (Some gd)
  obtain g d where gd: "gd = (g, d)" by force
  have only: "map_of (tw_by_deadline w) (d', i) = Some g' \<longleftrightarrow> g' = g \<and> d' = d" for d' g'
    using assms Some unfolding wheel_inv_def gd by (metis option.inject prod.inject)
  then have "map_of (tw_by_deadline w) (d', i) = None" if "d' \<noteq> d" for d'
    using that by (metis option.exhaust)
  with assms Some show ?thesis
    by (auto simp: wheel_inv_def wheel_remove_def gd)
qed

lemma wheel_remove_absent:
  assumes "wheel_inv w" shows "map_of (tw_by_deadline (wheel_remove i w)) (d, i) = None"
  using wheel_inv_remove [OF assms, of i] wheel_remove_identity [of i w]
  by (auto simp: wheel_inv_def) (metis fun_upd_same not_Some_eq option.distinct(1))

lemma wheel_inv_absorb_one:
  assumes "wheel_inv w" shows "wheel_inv (absorb_one now a w)"
proof (cases a)
  case (Start i g dur)
  have "wheel_inv (wheel_remove i w)" by (rule wheel_inv_remove [OF assms])
  moreover have "map_of (tw_by_deadline (wheel_remove i w)) (d, i) = None" for d
    by (rule wheel_remove_absent [OF assms])
  ultimately show ?thesis
    by (auto simp: Start Let_def wheel_inv_def)
qed (simp add: wheel_inv_remove assms)

lemma wheel_inv_absorb: "wheel_inv w \<Longrightarrow> wheel_inv (wheel_absorb actions now w)"
  unfolding wheel_absorb_def by (induction actions arbitrary: w) (auto simp: wheel_inv_absorb_one)

subsection \<open>Expiry\<close>

lemma fire_expired_eq:
  "fire_expired now w =
     (w\<lparr>tw_by_deadline := filter (\<lambda>((d, i), g). now < d) (tw_by_deadline w),
        tw_by_identity := fold (\<lambda>((_, i), _) m. m(i := None))
          (filter (\<lambda>((d, i), g). d \<le> now) (tw_by_deadline w)) (tw_by_identity w)\<rparr>,
      map (\<lambda>((_, i), g). \<lparr>ft_identity = i, ft_generation = g\<rparr>)
        (filter (\<lambda>((d, i), g). d \<le> now) (tw_by_deadline w)))"
proof -
  have "(\<lambda>(k, _). (now + 1, TWorkload (WorkloadId 0) RetryBackoff) \<le> k) =
      (\<lambda>((d, i), g :: u64). now < d)"
    by (auto simp: fun_eq_iff less_eq_prod_def timer_identity_least)
  moreover have "(\<lambda>(k, _). \<not> (now + 1, TWorkload (WorkloadId 0) RetryBackoff) \<le> k) =
      (\<lambda>((d, i), g :: u64). d \<le> now)"
    by (auto simp: fun_eq_iff less_eq_prod_def timer_identity_least)
  ultimately show ?thesis unfolding fire_expired_def Let_def by simp
qed

lemma fold_forget:
  "fold (\<lambda>((_, i), _) m. m(i := None)) xs m j = (if j \<in> (\<lambda>((_, i), _). i) ` set xs then None else m j)"
  by (induction xs arbitrary: m) auto

lemma expired_identity_iff:
  assumes "wheel_inv w"
  shows "i \<in> (\<lambda>((_, i), _). i) ` set (filter (\<lambda>((d, i), g). d \<le> now) (tw_by_deadline w)) \<longleftrightarrow>
    (\<exists>g d. tw_by_identity w i = Some (g, d) \<and> d \<le> now)"
  using assms unfolding wheel_inv_def by (force simp: om_wf_in_set)

lemma fire_expired_identity:
  assumes "wheel_inv w"
  shows "tw_by_identity (fst (fire_expired now w)) i =
    (case tw_by_identity w i of
       Some (g, d) \<Rightarrow> if d \<le> now then None else Some (g, d)
     | None \<Rightarrow> None)"
  unfolding fire_expired_eq using expired_identity_iff [OF assms, of i now]
  by (auto simp: fold_forget split: option.splits)

lemma om_wf_filter: "om_wf m \<Longrightarrow> om_wf (filter P m)"
  by (simp add: om_wf_def sorted_wrt_map sorted_wrt_filter)

lemma map_of_filter_key:
  "om_wf m \<Longrightarrow> map_of (filter (\<lambda>(k, v). P k) m) k = (if P k then map_of m k else None)"
  by (induction m) (auto simp: om_wf_Cons)

lemma wheel_inv_fire_expired:
  assumes "wheel_inv w" shows "wheel_inv (fst (fire_expired now w))"
proof -
  have wf: "om_wf (tw_by_deadline w)" using assms by (simp add: wheel_inv_def)
  have f: "(\<lambda>((d, i), g :: u64). now < d) = (\<lambda>(k, v). now < fst k)" by auto
  have "map_of (tw_by_deadline (fst (fire_expired now w))) (d, i) =
      (if now < d then map_of (tw_by_deadline w) (d, i) else None)" for d i
    unfolding fire_expired_eq f using map_of_filter_key [OF wf, of "\<lambda>k. now < fst k"] by simp
  moreover have "om_wf (tw_by_deadline (fst (fire_expired now w)))"
    using wf by (simp add: fire_expired_eq om_wf_filter)
  ultimately show ?thesis
    using assms unfolding wheel_inv_def fire_expired_identity [OF assms]
    by (auto split: option.splits)
qed

text \<open>The fired timers are the ones whose deadline has been reached, with their generation.\<close>

lemma fire_expired_fired:
  assumes "wheel_inv w"
  shows "ft \<in> set (snd (fire_expired now w)) \<longleftrightarrow>
    (\<exists>d. tw_by_identity w (ft_identity ft) = Some (ft_generation ft, d) \<and> d \<le> now)"
proof -
  have "ft \<in> set (snd (fire_expired now w)) \<longleftrightarrow>
      (\<exists>d. ((d, ft_identity ft), ft_generation ft) \<in> set (tw_by_deadline w) \<and> d \<le> now)"
    unfolding fire_expired_eq by (cases ft) force
  also have "\<dots> \<longleftrightarrow> (\<exists>d. tw_by_identity w (ft_identity ft) = Some (ft_generation ft, d) \<and> d \<le> now)"
    using assms unfolding wheel_inv_def by (simp add: om_wf_in_set)
  finally show ?thesis .
qed

definition deadline_of :: "timer_wheel \<Rightarrow> timer_identity \<Rightarrow> duration" where
  "deadline_of w i = (case tw_by_identity w i of Some (_, d) \<Rightarrow> d | None \<Rightarrow> 0)"

lemma fire_expired_sorted:
  assumes "wheel_inv w"
  shows "sorted (map (deadline_of w \<circ> ft_identity) (snd (fire_expired now w)))"
proof -
  let ?E = "filter (\<lambda>((d, i), g). d \<le> now) (tw_by_deadline w)"
  have wf: "om_wf ?E" using assms by (simp add: wheel_inv_def om_wf_filter)
  have "deadline_of w i = d" if "((d, i), g) \<in> set (tw_by_deadline w)" for d i g
  proof -
    have "tw_by_identity w i = Some (g, d)"
      using that assms unfolding wheel_inv_def by (simp add: om_wf_in_set)
    then show ?thesis by (simp add: deadline_of_def)
  qed
  then have "map (deadline_of w \<circ> ft_identity) (snd (fire_expired now w)) = map (fst \<circ> fst) ?E"
    unfolding fire_expired_eq by auto
  moreover have "sorted (map (fst \<circ> fst) ?E)"
    using wf unfolding om_wf_def
    by (auto simp: sorted_wrt_map less_prod_def intro: sorted_wrt_mono_rel [rotated])
  ultimately show ?thesis by simp
qed

lemma next_deadline_least:
  assumes "wheel_inv w"
  shows "(case next_deadline w of
      None \<Rightarrow> tw_by_identity w = Map.empty
    | Some d \<Rightarrow> (\<exists>i g. tw_by_identity w i = Some (g, d)) \<and>
        (\<forall>i g d'. tw_by_identity w i = Some (g, d') \<longrightarrow> d \<le> d'))"
proof (cases "tw_by_deadline w")
  case Nil
  have "tw_by_identity w i = None" for i
    using assms Nil unfolding wheel_inv_def by (cases "tw_by_identity w i") auto
  then show ?thesis using Nil by (auto simp: next_deadline_def)
next
  case (Cons e rest)
  obtain d i g where e: "e = ((d, i), g)" by (metis prod.exhaust)
  have "map_of (tw_by_deadline w) (d, i) = Some g" by (simp add: Cons e)
  then have "tw_by_identity w i = Some (g, d)" using assms by (simp add: wheel_inv_def)
  moreover have "d \<le> d'" if "tw_by_identity w j = Some (g', d')" for j g' d'
  proof -
    have "((d', j), g') \<in> set (tw_by_deadline w)"
      using that assms unfolding wheel_inv_def by (simp add: om_wf_in_set)
    then show ?thesis
      using assms unfolding wheel_inv_def Cons e by (auto simp: om_wf_Cons less_prod_def)
  qed
  ultimately show ?thesis by (auto simp: next_deadline_def Cons e)
qed

section \<open>The armed timers mirror the wanted ones\<close>

definition armed :: "timer_wheel \<Rightarrow> timer_identity \<rightharpoonup> u64" where
  "armed w i = map_option fst (tw_by_identity w i)"

definition wanted_generations :: "'key timer_request list \<Rightarrow> 'key \<rightharpoonup> u64" where
  "wanted_generations reqs = map_of (rev (map (\<lambda>r. (tr_key r, tr_generation r)) reqs))"

fun arm :: "timer_action \<Rightarrow> (timer_identity \<rightharpoonup> u64) \<Rightarrow> timer_identity \<rightharpoonup> u64" where
  "arm (Start i g d) m = m(i \<mapsto> g)"
| "arm (Cancel i) m = m(i := None)"

lemma armed_absorb_one: "armed (absorb_one now a w) = arm a (armed w)"
  by (cases a) (auto simp: armed_def fun_eq_iff Let_def wheel_remove_identity)

lemma armed_absorb: "armed (wheel_absorb actions now w) = fold arm actions (armed w)"
  unfolding wheel_absorb_def
  by (induction actions arbitrary: w) (simp_all add: armed_absorb_one)

lemma hm_collect_map_of: "map_of (hm_collect xs) = map_of (rev xs)"
proof -
  have "map_of (fold (\<lambda>(k, v). AList.update k v) xs m) = map_of (rev xs @ m)" for m
    by (induction xs arbitrary: m) (auto simp: update_conv' fun_eq_iff map_add_def split: option.split)
  then show ?thesis by (simp add: hm_collect_def)
qed

lemma hm_collect_distinct: "distinct (map fst (hm_collect xs))"
proof -
  have "distinct (map fst m) \<Longrightarrow> distinct (map fst (fold (\<lambda>(k, v). AList.update k v) xs m))" for m
    by (induction xs arbitrary: m) (auto simp: distinct_update)
  then show ?thesis by (simp add: hm_collect_def)
qed

lemma arm_starts:
  assumes "inj mk"
  shows "fold arm (map (\<lambda>r. Start (mk (tr_key r)) (tr_generation r) (tr_duration r)) reqs) m (mk key) =
    (case wanted_generations reqs key of Some g \<Rightarrow> Some g | None \<Rightarrow> m (mk key))"
  using assms
  by (induction reqs arbitrary: m)
     (auto simp: wanted_generations_def map_add_def inj_eq split: option.split)

lemma arm_cancels:
  assumes "inj mk"
  shows "fold arm (map (\<lambda>r. Cancel (mk (tr_key r))) reqs) m (mk key) =
    (if wanted_generations reqs key \<noteq> None then None else m (mk key))"
  using assms
  by (induction reqs arbitrary: m)
     (auto simp: wanted_generations_def map_add_def inj_eq split: option.split)

text \<open>The diff of two maps, for any enumeration of their entries.\<close>

lemma arm_cancel_entries:
  assumes "inj mk"
  shows "fold arm (concat (map (cancel_entry mk new_map) old_map)) m (mk key) =
    (if (\<exists>g. (key, g) \<in> set old_map \<and> map_option fst (map_of new_map key) \<noteq> Some g)
     then None else m (mk key))"
proof (induction old_map arbitrary: m)
  case (Cons e old_map)
  obtain k g where e: "e = (k, g)" by force
  have "fold arm (cancel_entry mk new_map (k, g)) m (mk key) =
      (if k = key \<and> map_option fst (map_of new_map key) \<noteq> Some g then None else m (mk key))"
    using assms by (auto simp: cancel_entry_def inj_eq split: option.split)
  with Cons show ?case by (auto simp: e)
qed simp

lemma arm_start_entries:
  assumes "inj mk" "distinct (map fst new_map)"
  shows "fold arm (concat (map (start_entry mk old_map) new_map)) m (mk key) =
    (case map_of new_map key of
       Some (g, d) \<Rightarrow> if map_of old_map key = Some g then m (mk key) else Some g
     | None \<Rightarrow> m (mk key))"
  using assms(2)
proof (induction new_map arbitrary: m)
  case (Cons e new_map)
  obtain k g d where e: "e = (k, g, d)" by (metis prod.exhaust)
  have "fold arm (start_entry mk old_map (k, g, d)) m (mk key) =
      (if k = key \<and> map_of old_map key \<noteq> Some g then Some g else m (mk key))"
    using assms(1) by (auto simp: start_entry_def inj_eq split: option.split)
  moreover have "map_of new_map k = None" using Cons.prems by (auto simp: e map_of_eq_None_iff)
  ultimately show ?case using Cons by (auto simp: e split: option.split)
qed simp

lemma arm_diff_timer_maps:
  assumes "inj mk" "distinct (map fst old_map)" "distinct (map fst new_map)"
    and "m (mk key) = map_of old_map key"
  shows "fold arm (diff_timer_maps mk old_map new_map) m (mk key) =
    map_option fst (map_of new_map key)"
  using assms
  by (cases "map_of new_map key"; cases "map_of old_map key")
     (auto simp: diff_timer_maps_def arm_cancel_entries arm_start_entries
        dest: eq_key_imp_eq_value)

lemma map_option_map_of:
  "map_option fst (map_of (map (\<lambda>r. (f r, g r, h r)) xs) k) = map_of (map (\<lambda>r. (f r, g r)) xs) k"
  by (induction xs) auto

lemma arm_diff_timer_requests:
  assumes "inj mk" "m (mk key) = wanted_generations old key"
  shows "fold arm (diff_timer_requests mk old new) m (mk key) = wanted_generations new key"
proof -
  have "map_option fst (map_of (hm_collect (map (\<lambda>r. (tr_key r, tr_generation r, tr_duration r)) new)) key)
      = wanted_generations new key"
    unfolding wanted_generations_def hm_collect_map_of rev_map by (rule map_option_map_of)
  moreover have "m (mk key) = map_of (hm_collect (map (\<lambda>r. (tr_key r, tr_generation r)) old)) key"
    using assms(2) by (simp add: wanted_generations_def hm_collect_map_of)
  ultimately show ?thesis
    unfolding diff_timer_requests_def using assms(1)
    by (simp add: arm_diff_timer_maps hm_collect_distinct)
qed

text \<open>
  The wheel as a consumer of the timer deltas of one kind of state machine.  Its
  item for a machine is the set of its armed timers with their generations.
\<close>

definition armed_of :: "('sm \<Rightarrow> 'key \<Rightarrow> timer_identity) \<Rightarrow> timer_wheel \<Rightarrow> 'sm \<Rightarrow> 'key \<rightharpoonup> u64" where
  "armed_of make_identity w sm key = armed w (make_identity sm key)"

definition action_identity :: "timer_action \<Rightarrow> timer_identity" where
  "action_identity a = (case a of Start i _ _ \<Rightarrow> i | Cancel i \<Rightarrow> i)"

lemma arm_other: "i \<notin> action_identity ` set as \<Longrightarrow> fold arm as m i = m i"
proof (induction as arbitrary: m)
  case (Cons a as)
  then show ?case by (cases a) (auto simp: action_identity_def)
qed simp

lemma diff_timer_requests_identity:
  "action_identity ` set (diff_timer_requests mk old new) \<subseteq> range mk"
  by (auto simp: diff_timer_requests_def diff_timer_maps_def cancel_entry_def start_entry_def
      action_identity_def split: option.splits if_splits)

locale timer_kind =
  fixes make_identity :: "'sm::linorder \<Rightarrow> 'key \<Rightarrow> timer_identity"
  assumes make_identity_inject: "make_identity a k = make_identity b l \<longleftrightarrow> a = b \<and> k = l"
begin

lemma inj_make_identity: "inj (make_identity sm)"
  by (rule injI) (simp add: make_identity_inject)

lemma armed_of_absorb:
  assumes "action_identity ` set as \<subseteq> range (make_identity sm)"
  shows "armed_of make_identity (wheel_absorb as now w) =
    (armed_of make_identity w)(sm := \<lambda>key. fold arm as (armed w) (make_identity sm key))"
proof (intro ext)
  fix sm' key
  show "armed_of make_identity (wheel_absorb as now w) sm' key =
    ((armed_of make_identity w)(sm := \<lambda>key. fold arm as (armed w) (make_identity sm key))) sm' key"
  proof (cases "sm' = sm")
    case False
    then have "make_identity sm' key \<notin> action_identity ` set as"
      using assms by (auto simp: make_identity_inject)
    with False show ?thesis by (simp add: armed_of_def armed_absorb arm_other)
  qed (simp add: armed_of_def armed_absorb)
qed

lemma wanted_generations_Nil [simp]: "wanted_generations [] = Map.empty"
  by (simp add: wanted_generations_def)

lemma wheel_consumer:
  "delta_consumer (timer_aggregator make_identity) Pair Map.empty (\<lambda>_. wanted_generations)
     (armed_of make_identity) (\<lambda>as. wheel_absorb as now)"
proof
  fix sm reqs d w
  show "ia_added (timer_aggregator make_identity) (sm, reqs) = None \<Longrightarrow> wanted_generations reqs = Map.empty"
    and "ia_removed (timer_aggregator make_identity) (sm, reqs) = None \<Longrightarrow> wanted_generations reqs = Map.empty"
    by (auto simp: timer_aggregator_def nonempty_def split: if_splits)
  {
    assume a: "ia_added (timer_aggregator make_identity) (sm, reqs) = Some d"
      and b: "armed_of make_identity w sm = Map.empty"
    have d: "d = map (\<lambda>r. Start (make_identity sm (tr_key r)) (tr_generation r) (tr_duration r)) reqs"
      using a by (auto simp: timer_aggregator_def nonempty_def split: if_splits)
    have "armed w (make_identity sm key) = None" for key
      using fun_cong [OF b, of key] by (simp add: armed_of_def)
    then have "(\<lambda>key. fold arm d (armed w) (make_identity sm key)) = wanted_generations reqs"
      unfolding d by (auto simp: fun_eq_iff arm_starts [OF inj_make_identity] split: option.split)
    moreover have "action_identity ` set d \<subseteq> range (make_identity sm)"
      by (auto simp: d action_identity_def)
    ultimately show "armed_of make_identity (wheel_absorb d now w) =
        (armed_of make_identity w)(sm := wanted_generations reqs)"
      by (simp add: armed_of_absorb)
  next
    assume a: "ia_removed (timer_aggregator make_identity) (sm, reqs) = Some d"
      and b: "armed_of make_identity w sm = wanted_generations reqs"
    have d: "d = map (\<lambda>r. Cancel (make_identity sm (tr_key r))) reqs"
      using a by (auto simp: timer_aggregator_def nonempty_def split: if_splits)
    have "armed w (make_identity sm key) = wanted_generations reqs key" for key
      using fun_cong [OF b, of key] by (simp add: armed_of_def)
    then have "(\<lambda>key. fold arm d (armed w) (make_identity sm key)) = Map.empty"
      unfolding d by (auto simp: fun_eq_iff arm_cancels [OF inj_make_identity])
    moreover have "action_identity ` set d \<subseteq> range (make_identity sm)"
      by (auto simp: d action_identity_def)
    ultimately show "armed_of make_identity (wheel_absorb d now w) =
        (armed_of make_identity w)(sm := Map.empty)"
      by (simp add: armed_of_absorb)
  next
    fix old
    assume "ia_changed (timer_aggregator make_identity) (sm, old) (sm, reqs) = None"
    then have d: "diff_timer_requests (make_identity sm) old reqs = []"
      by (auto simp: timer_aggregator_def nonempty_def split: if_splits)
    show "wanted_generations old = wanted_generations reqs"
    proof
      fix key
      define m where "m = (\<lambda>i. if i = make_identity sm key then wanted_generations old key else None)"
      show "wanted_generations old key = wanted_generations reqs key"
        using arm_diff_timer_requests [OF inj_make_identity, of m sm key old reqs] d
        by (simp add: m_def)
    qed
  next
    fix old
    assume a: "ia_changed (timer_aggregator make_identity) (sm, old) (sm, reqs) = Some d"
      and b: "armed_of make_identity w sm = wanted_generations old"
    have d: "d = diff_timer_requests (make_identity sm) old reqs"
      using a by (auto simp: timer_aggregator_def nonempty_def split: if_splits)
    have "armed w (make_identity sm key) = wanted_generations old key" for key
      using fun_cong [OF b, of key] by (simp add: armed_of_def)
    then have "(\<lambda>key. fold arm d (armed w) (make_identity sm key)) = wanted_generations reqs"
      unfolding d by (simp add: fun_eq_iff arm_diff_timer_requests [OF inj_make_identity])
    moreover have "action_identity ` set d \<subseteq> range (make_identity sm)"
      unfolding d by (rule diff_timer_requests_identity)
    ultimately show "armed_of make_identity (wheel_absorb d now w) =
        (armed_of make_identity w)(sm := wanted_generations reqs)"
      by (simp add: armed_of_absorb)
  }
qed

end

interpretation wl_timer: timer_kind TWorkload
  by unfold_locales simp

interpretation ep_timer: timer_kind TEndpoint
  by unfold_locales simp

interpretation pod_timer: timer_kind TPod
  by unfold_locales simp

interpretation wl_wheel: delta_consumer "timer_aggregator TWorkload" Pair Map.empty
    "\<lambda>_. wanted_generations" "armed_of TWorkload" "\<lambda>as. wheel_absorb as now" for now
  by (rule wl_timer.wheel_consumer)

interpretation ep_wheel: delta_consumer "timer_aggregator TEndpoint" Pair Map.empty
    "\<lambda>_. wanted_generations" "armed_of TEndpoint" "\<lambda>as. wheel_absorb as now" for now
  by (rule ep_timer.wheel_consumer)

interpretation pod_wheel: delta_consumer "timer_aggregator TPod" Pair Map.empty
    "\<lambda>_. wanted_generations" "armed_of TPod" "\<lambda>as. wheel_absorb as now" for now
  by (rule pod_timer.wheel_consumer)

section \<open>Properties\<close>

text \<open>A wheel that has gone through any sequence of absorbed batches and expirations.\<close>

inductive wheel_reach :: "timer_wheel \<Rightarrow> bool" where
  fresh: "wheel_reach wheel_new"
| absorb: "wheel_reach w \<Longrightarrow> wheel_reach (wheel_absorb actions now w)"
| fire: "wheel_reach w \<Longrightarrow> wheel_reach (fst (fire_expired now w))"

lemma wheel_reach_inv: "wheel_reach w \<Longrightarrow> wheel_inv w"
  by (induction rule: wheel_reach.induct)
     (simp add: wheel_inv_def wheel_new_def, rule wheel_inv_absorb, assumption,
      rule wheel_inv_fire_expired)



text \<open>
   Expiry is exact: from a reachable wheel, the timers reported at a time are
  those armed with a deadline up to that time, each with its generation, in
  order of their deadlines; they are disarmed and all others stay as they are.
\<close>

theorem timer_wheel_fires_exactly:
  assumes "wheel_reach w"
  shows "(ft \<in> set (snd (fire_expired now w)) \<longleftrightarrow>
      (\<exists>d. tw_by_identity w (ft_identity ft) = Some (ft_generation ft, d) \<and> d \<le> now)) \<and>
    sorted (map (deadline_of w \<circ> ft_identity) (snd (fire_expired now w))) \<and>
    tw_by_identity (fst (fire_expired now w)) i =
      (case tw_by_identity w i of
         Some (g, d) \<Rightarrow> if d \<le> now then None else Some (g, d)
       | None \<Rightarrow> None)"
  using wheel_reach_inv [OF assms]
  by (simp add: fire_expired_fired fire_expired_sorted fire_expired_identity)

theorem timer_wheel_fires_exactly_witness:
  "wheel_reach (wheel_absorb [Start (TPod (PodId 1) LaunchTimeout) 3 10] 5 wheel_new) \<and>
   tw_by_identity (fst (fire_expired 15 (wheel_absorb [Start (TPod (PodId 1) LaunchTimeout) 3 10] 5 wheel_new)))
     (TPod (PodId 1) LaunchTimeout) = None"
proof -
  have r: "wheel_reach (wheel_absorb [Start (TPod (PodId 1) LaunchTimeout) 3 10] 5 wheel_new)"
    by (intro wheel_reach.intros)
  have "tw_by_identity (wheel_absorb [Start (TPod (PodId 1) LaunchTimeout) 3 10] 5 wheel_new)
      (TPod (PodId 1) LaunchTimeout) = Some (3, 15)"
    by (simp add: wheel_absorb_def wheel_new_def wheel_remove_def)
  with timer_wheel_fires_exactly [OF r, of undefined 15 "TPod (PodId 1) LaunchTimeout"] r
  show ?thesis by simp
qed

text \<open>
   The deadline the event loop sleeps until is the least armed one, and there
  is none exactly when no timer is armed: no timer is slept over.
\<close>

theorem timer_wheel_next_deadline:
  assumes "wheel_reach w"
  shows "case next_deadline w of
      None \<Rightarrow> tw_by_identity w = Map.empty
    | Some d \<Rightarrow> (\<exists>i g. tw_by_identity w i = Some (g, d)) \<and>
        (\<forall>i g d'. tw_by_identity w i = Some (g, d') \<longrightarrow> d \<le> d')"
  using wheel_reach_inv [OF assms] by (rule next_deadline_least)

theorem timer_wheel_next_deadline_witness:
  "wheel_reach wheel_new \<and> next_deadline wheel_new = None \<and> tw_by_identity wheel_new = Map.empty"
proof -
  have r: "wheel_reach wheel_new" by (rule wheel_reach.fresh)
  moreover have "next_deadline wheel_new = None" by (simp add: next_deadline_def wheel_new_def)
  ultimately show ?thesis using timer_wheel_next_deadline [OF r] by simp
qed

end
