(* ===== verification/Ip_Alloc.thy ===== *)
theory Ip_Alloc
  imports Sm_Types "HOL-Library.Product_Lexorder" "HOL-Library.List_Lexorder"
    "HOL-Library.Char_ord"
begin

text \<open>
  Address allocation of a namespace: the allocator of workload and service
  addresses (\<open>core/namespace/ip_alloc.rs\<close>) and the manager of WireGuard peer
  addresses (\<open>core/namespace/wg_peers.rs\<close>).

  The allocator is shown to keep an invariant that makes all live addresses
  distinct, keeps automatic and manual addresses in their zones, loses no
  address on release, and reports exhaustion only when the zone is full.  The
  peer manager hands out addresses top-down and never reuses one; the reserve
  of the allocator does not bound it.
\<close>

unbundle bit_operations_syntax

section \<open>Keys, kinds and errors\<close>

datatype ip_resource_key = IpWorkload string | IpService string

datatype ip_alloc_kind = IpAuto | IpManual

record ip_allocation =
  ipa_ip :: ipv4
  ipa_kind :: ip_alloc_kind

datatype ip_alloc_error =
    AutoZoneExhausted
  | ManualZoneExhausted
  | IpOutsideManualZone ipv4
  | ManualIpCollision ipv4 ip_resource_key
  | KindMigration ip_resource_key ip_alloc_kind ip_alloc_kind

fun ip_resource_rank :: "ip_resource_key \<Rightarrow> nat \<times> string" where
  "ip_resource_rank (IpWorkload n) = (0, n)"
| "ip_resource_rank (IpService n) = (1, n)"

lemma ip_resource_rank_inj [simp]: "ip_resource_rank a = ip_resource_rank b \<longleftrightarrow> a = b"
  by (cases a; cases b) auto

instantiation ip_resource_key :: linorder
begin
definition less_eq_ip_resource_key :: "ip_resource_key \<Rightarrow> ip_resource_key \<Rightarrow> bool" where
  "less_eq_ip_resource_key a b \<longleftrightarrow> ip_resource_rank a \<le> ip_resource_rank b"
definition less_ip_resource_key :: "ip_resource_key \<Rightarrow> ip_resource_key \<Rightarrow> bool" where
  "less_ip_resource_key a b \<longleftrightarrow> ip_resource_rank a < ip_resource_rank b"
instance
proof
  fix a b c :: ip_resource_key
  show "a < b \<longleftrightarrow> a \<le> b \<and> \<not> b \<le> a"
    unfolding less_eq_ip_resource_key_def less_ip_resource_key_def by (rule less_le_not_le)
  show "a \<le> a" by (simp add: less_eq_ip_resource_key_def)
  show "a \<le> b \<Longrightarrow> b \<le> c \<Longrightarrow> a \<le> c"
    unfolding less_eq_ip_resource_key_def by (rule order_trans)
  show "a \<le> b \<Longrightarrow> b \<le> a \<Longrightarrow> a = b"
    unfolding less_eq_ip_resource_key_def by (metis order_antisym ip_resource_rank_inj)
  show "a \<le> b \<or> b \<le> a"
    unfolding less_eq_ip_resource_key_def by (rule linear)
qed
end

section \<open>The allocator\<close>

record ip_allocator =
  ia_subnet_base :: u32
  ia_first_host :: u32
  ia_auto_zone_size :: u32
  ia_manual_zone_start :: u32
  ia_manual_zone_end :: u32
  ia_allocations :: "(ip_resource_key, u32 \<times> ip_alloc_kind) omap"
  ia_occupied :: "u32 set"
  ia_next_auto :: u32
  ia_auto_free :: "u32 list"

definition u32_checked_shl :: "u32 \<Rightarrow> u32 \<Rightarrow> u32 option" where
  "u32_checked_shl x n = (if n < 32 then Some (push_bit (unat n) x) else None)"

definition u32_saturating_sub :: "u32 \<Rightarrow> u32 \<Rightarrow> u32" where
  "u32_saturating_sub x y = (if y \<le> x then x - y else 0)"

definition u32_checked_sub :: "u32 \<Rightarrow> u32 \<Rightarrow> u32 option" where
  "u32_checked_sub x y = (if y \<le> x then Some (x - y) else None)"

definition ip_allocator_new :: "ipv4 \<Rightarrow> u8 \<Rightarrow> u32 \<Rightarrow> ip_allocator" where
  "ip_allocator_new subnet prefix_len wg_reserve =
     (let subnet_base = subnet;
          total_addrs = unwrap_or (u32_checked_shl 1 (32 - ucast prefix_len)) 0;
          usable = u32_saturating_sub total_addrs 2;
          non_wg = u32_saturating_sub usable wg_reserve;
          auto_zone_size = non_wg div 2
      in \<lparr>ia_subnet_base = subnet_base, ia_first_host = subnet_base + 2,
          ia_auto_zone_size = auto_zone_size, ia_manual_zone_start = auto_zone_size,
          ia_manual_zone_end = non_wg, ia_allocations = [], ia_occupied = {},
          ia_next_auto = 0, ia_auto_free = []\<rparr>)"

definition offset_to_ip :: "ip_allocator \<Rightarrow> u32 \<Rightarrow> ipv4" where
  "offset_to_ip a offset = ia_first_host a + offset"

definition ip_to_offset :: "ip_allocator \<Rightarrow> ipv4 \<Rightarrow> u32 option" where
  "ip_to_offset a ip = u32_checked_sub ip (ia_first_host a)"

text \<open>\<open>Vec::pop\<close> takes the last element.\<close>

definition ia_occupy :: "ip_resource_key \<Rightarrow> u32 \<Rightarrow> ip_alloc_kind \<Rightarrow> ip_allocator \<Rightarrow> ip_allocator" where
  "ia_occupy key offset kind a =
     a\<lparr>ia_occupied := insert offset (ia_occupied a),
       ia_allocations := om_insert key (offset, kind) (ia_allocations a)\<rparr>"

definition allocate_auto ::
  "ip_resource_key \<Rightarrow> ip_allocator \<Rightarrow> ip_allocator \<times> (ip_alloc_error + ip_allocation)" where
  "allocate_auto key a =
     (if ia_auto_free a \<noteq> [] then
        let offset = last (ia_auto_free a);
            a = a\<lparr>ia_auto_free := butlast (ia_auto_free a)\<rparr>
        in (ia_occupy key offset IpAuto a,
            Inr \<lparr>ipa_ip = offset_to_ip a offset, ipa_kind = IpAuto\<rparr>)
      else
        let start = ia_next_auto a
        in if start \<ge> ia_auto_zone_size a then (a, Inl AutoZoneExhausted)
           else (case List.find (\<lambda>c. c \<notin> ia_occupied a)
                    (map of_nat [unat start ..< unat (ia_auto_zone_size a)]) of
               Some candidate \<Rightarrow>
                 (ia_occupy key candidate IpAuto (a\<lparr>ia_next_auto := candidate + 1\<rparr>),
                  Inr \<lparr>ipa_ip = offset_to_ip a candidate, ipa_kind = IpAuto\<rparr>)
             | None \<Rightarrow> (a, Inl AutoZoneExhausted)))"

definition allocate_manual ::
  "ip_resource_key \<Rightarrow> ipv4 \<Rightarrow> ip_allocator \<Rightarrow> ip_allocator \<times> (ip_alloc_error + ip_allocation)" where
  "allocate_manual key ip a = (case ip_to_offset a ip of
       None \<Rightarrow> (a, Inl (IpOutsideManualZone ip))
     | Some offset \<Rightarrow>
         if offset < ia_manual_zone_start a \<or> offset \<ge> ia_manual_zone_end a
         then (a, Inl (IpOutsideManualZone ip))
         else if offset \<in> ia_occupied a
         then (a, Inl (ManualIpCollision ip
                 (unwrap_or (map_option fst
                    (List.find (\<lambda>(_, (off, _)). off = offset) (ia_allocations a))) key)))
         else (ia_occupy key offset IpManual a,
               Inr \<lparr>ipa_ip = ip, ipa_kind = IpManual\<rparr>))"

definition allocate ::
  "ip_resource_key \<Rightarrow> ipv4 option \<Rightarrow> ip_allocator \<Rightarrow>
   ip_allocator \<times> (ip_alloc_error + ip_allocation)" where
  "allocate key explicit_ip a =
     (let requested_kind = (if explicit_ip \<noteq> None then IpManual else IpAuto)
      in case map_of (ia_allocations a) key of
           Some (offset, existing_kind) \<Rightarrow>
             if existing_kind \<noteq> requested_kind
             then (a, Inl (KindMigration key existing_kind requested_kind))
             else (a, Inr \<lparr>ipa_ip = offset_to_ip a offset, ipa_kind = existing_kind\<rparr>)
         | None \<Rightarrow> (case explicit_ip of
               None \<Rightarrow> allocate_auto key a
             | Some ip \<Rightarrow> allocate_manual key ip a))"

definition release :: "ip_resource_key \<Rightarrow> ip_allocator \<Rightarrow> ip_allocator" where
  "release key a = (case map_of (ia_allocations a) key of
       Some (offset, kind) \<Rightarrow>
         let a = a\<lparr>ia_allocations := om_remove key (ia_allocations a),
                   ia_occupied := ia_occupied a - {offset}\<rparr>
         in if kind = IpAuto then a\<lparr>ia_auto_free := ia_auto_free a @ [offset]\<rparr> else a
     | None \<Rightarrow> a)"

record ip_alloc_result =
  iar_workload_ips :: "(string, ip_allocation) omap"
  iar_service_ips :: "(string, ip_allocation) omap"

definition snapshot_step ::
  "ip_allocator \<Rightarrow> ip_resource_key \<times> u32 \<times> ip_alloc_kind \<Rightarrow> ip_alloc_result \<Rightarrow> ip_alloc_result" where
  "snapshot_step a = (\<lambda>(key, (offset, kind)) result.
       let alloc = \<lparr>ipa_ip = offset_to_ip a offset, ipa_kind = kind\<rparr>
       in case key of
            IpWorkload name \<Rightarrow>
              result\<lparr>iar_workload_ips := om_insert name alloc (iar_workload_ips result)\<rparr>
          | IpService name \<Rightarrow>
              result\<lparr>iar_service_ips := om_insert name alloc (iar_service_ips result)\<rparr>)"

definition full_snapshot :: "ip_allocator \<Rightarrow> ip_alloc_result" where
  "full_snapshot a =
     fold (snapshot_step a) (ia_allocations a) \<lparr>iar_workload_ips = [], iar_service_ips = []\<rparr>"

definition ip_octet :: "ipv4 \<Rightarrow> nat \<Rightarrow> u8" where
  "ip_octet ip i = ucast (drop_bit (8 * (3 - i)) ip)"

definition ip_to_mac :: "ipv4 \<Rightarrow> u8 list" where
  "ip_to_mac ip = [0x02, 0x00, ip_octet ip 0, ip_octet ip 1, ip_octet ip 2, ip_octet ip 3]"

section \<open>Invariant\<close>

definition offset_of :: "ip_allocator \<Rightarrow> ip_resource_key \<Rightarrow> u32 option" where
  "offset_of a key = map_option fst (map_of (ia_allocations a) key)"

definition auto_offsets :: "ip_allocator \<Rightarrow> u32 set" where
  "auto_offsets a = {off. \<exists>key. map_of (ia_allocations a) key = Some (off, IpAuto)}"

definition ip_alloc_inv :: "ip_allocator \<Rightarrow> bool" where
  "ip_alloc_inv a \<longleftrightarrow> om_wf (ia_allocations a) \<and>
     ia_manual_zone_start a = ia_auto_zone_size a \<and> ia_auto_zone_size a \<le> ia_manual_zone_end a \<and>
     ia_next_auto a \<le> ia_auto_zone_size a \<and>
     (\<forall>off. off \<in> ia_occupied a \<longleftrightarrow> (\<exists>key kind. map_of (ia_allocations a) key = Some (off, kind))) \<and>
     (\<forall>k1 k2 off n1 n2. map_of (ia_allocations a) k1 = Some (off, n1) \<longrightarrow>
        map_of (ia_allocations a) k2 = Some (off, n2) \<longrightarrow> k1 = k2) \<and>
     (\<forall>key off. map_of (ia_allocations a) key = Some (off, IpManual) \<longrightarrow>
        ia_manual_zone_start a \<le> off \<and> off < ia_manual_zone_end a) \<and>
     distinct (ia_auto_free a) \<and>
     auto_offsets a \<union> set (ia_auto_free a) = {off. off < ia_next_auto a} \<and>
     auto_offsets a \<inter> set (ia_auto_free a) = {}"

lemma word_succ_unat:
  fixes x y :: "'a::len word"
  assumes "x < y"
  shows "unat (x + 1) = Suc (unat x)"
proof -
  have "unat x < unat y" using assms by (simp add: word_less_nat_alt)
  moreover have "unat y < 2 ^ LENGTH('a)" by (rule unsigned_less)
  ultimately have "Suc (unat x) < 2 ^ LENGTH('a)" by linarith
  then show ?thesis by (simp add: unat_word_ariths)
qed

lemma u32_half_le: "(x :: u32) div 2 \<le> x"
  by (simp add: word_le_nat_alt unat_div)

lemma ip_alloc_inv_new: "ip_alloc_inv (ip_allocator_new subnet p r)"
  by (simp add: ip_alloc_inv_def ip_allocator_new_def auto_offsets_def Let_def u32_half_le)

lemma auto_offsets_occupy:
  assumes "map_of (ia_allocations a) key = None"
  shows "auto_offsets (ia_occupy key off kind a) =
    (if kind = IpAuto then insert off (auto_offsets a) else auto_offsets a)"
proof -
  have "x \<in> auto_offsets (ia_occupy key off kind a) \<longleftrightarrow>
      kind = IpAuto \<and> x = off \<or> x \<in> auto_offsets a" for x
    unfolding auto_offsets_def ia_occupy_def using assms by auto (metis option.distinct(1))+
  then show ?thesis by auto
qed

lemma auto_offsets_free [simp]:
  "auto_offsets (a\<lparr>ia_auto_free := fl\<rparr>) = auto_offsets a"
  "auto_offsets (a\<lparr>ia_next_auto := n\<rparr>) = auto_offsets a"
  by (simp_all add: auto_offsets_def)

text \<open>An automatic offset lies below the cursor, so the cursor itself is free.\<close>

lemma ip_alloc_inv_occupied:
  assumes "ip_alloc_inv a" "off \<in> ia_occupied a"
  shows "off < ia_next_auto a \<or> ia_manual_zone_start a \<le> off"
proof -
  obtain key kind where k: "map_of (ia_allocations a) key = Some (off, kind)"
    using assms by (auto simp: ip_alloc_inv_def)
  show ?thesis
  proof (cases kind)
    case IpAuto
    then have "off \<in> auto_offsets a" using k by (auto simp: auto_offsets_def)
    then show ?thesis using assms(1) unfolding ip_alloc_inv_def by blast
  next
    case IpManual
    then show ?thesis using assms(1) k unfolding ip_alloc_inv_def by blast
  qed
qed

lemma ip_alloc_inv_cursor_free:
  assumes "ip_alloc_inv a" "ia_next_auto a < ia_auto_zone_size a"
  shows "ia_next_auto a \<notin> ia_occupied a"
proof
  assume "ia_next_auto a \<in> ia_occupied a"
  moreover have "ia_manual_zone_start a = ia_auto_zone_size a"
    using assms(1) by (simp add: ip_alloc_inv_def)
  ultimately show False
    using ip_alloc_inv_occupied [OF assms(1), of "ia_next_auto a"] assms(2) by simp
qed

text \<open>So the scan always takes its first candidate.\<close>

lemma allocate_auto_scan:
  assumes "ip_alloc_inv a" "ia_next_auto a < ia_auto_zone_size a"
  shows "List.find (\<lambda>c. c \<notin> ia_occupied a)
    (map of_nat [unat (ia_next_auto a) ..< unat (ia_auto_zone_size a)]) = Some (ia_next_auto a)"
proof -
  have "unat (ia_next_auto a) < unat (ia_auto_zone_size a)"
    using assms(2) by (simp add: word_less_nat_alt)
  then show ?thesis
    using ip_alloc_inv_cursor_free [OF assms] by (simp add: upt_rec [of "unat (ia_next_auto a)"])
qed

lemma ip_alloc_inv_free_last:
  assumes "ip_alloc_inv a" "ia_auto_free a \<noteq> []"
  shows "last (ia_auto_free a) \<notin> ia_occupied a" "last (ia_auto_free a) < ia_next_auto a"
proof -
  have mem: "last (ia_auto_free a) \<in> set (ia_auto_free a)" using assms(2) by simp
  then show lt: "last (ia_auto_free a) < ia_next_auto a"
    using assms(1) unfolding ip_alloc_inv_def by blast
  show "last (ia_auto_free a) \<notin> ia_occupied a"
  proof
    assume "last (ia_auto_free a) \<in> ia_occupied a"
    then obtain key kind where k: "map_of (ia_allocations a) key = Some (last (ia_auto_free a), kind)"
      using assms by (auto simp: ip_alloc_inv_def)
    show False
    proof (cases kind)
      case IpAuto
      then have "last (ia_auto_free a) \<in> auto_offsets a" using k by (auto simp: auto_offsets_def)
      then show False using assms(1) mem unfolding ip_alloc_inv_def by blast
    next
      case IpManual
      then have "ia_manual_zone_start a \<le> last (ia_auto_free a)"
        using assms(1) k unfolding ip_alloc_inv_def by blast
      with lt assms(1) show False unfolding ip_alloc_inv_def by (metis leD le_less_trans not_less order.trans)
    qed
  qed
qed

lemma ip_alloc_inv_occupy_auto:
  assumes inv: "om_wf (ia_allocations a)" "ia_manual_zone_start a = ia_auto_zone_size a"
      "ia_auto_zone_size a \<le> ia_manual_zone_end a" "ia_next_auto a \<le> ia_auto_zone_size a"
      "\<forall>off. off \<in> ia_occupied a \<longleftrightarrow> (\<exists>key kind. map_of (ia_allocations a) key = Some (off, kind))"
      "\<forall>k1 k2 off n1 n2. map_of (ia_allocations a) k1 = Some (off, n1) \<longrightarrow>
        map_of (ia_allocations a) k2 = Some (off, n2) \<longrightarrow> k1 = k2"
      "\<forall>key off. map_of (ia_allocations a) key = Some (off, IpManual) \<longrightarrow>
        ia_manual_zone_start a \<le> off \<and> off < ia_manual_zone_end a"
      "distinct (ia_auto_free a)"
    and parts: "insert x (auto_offsets a \<union> set (ia_auto_free a)) = {off. off < ia_next_auto a}"
      "auto_offsets a \<inter> set (ia_auto_free a) = {}" "x \<notin> set (ia_auto_free a)"
    and new: "x \<notin> ia_occupied a" "map_of (ia_allocations a) key = None"
  shows "ip_alloc_inv (ia_occupy key x IpAuto a)"
proof -
  have "auto_offsets (ia_occupy key x IpAuto a) = insert x (auto_offsets a)"
    using new by (simp add: auto_offsets_occupy)
  moreover have occ: "map_of (ia_allocations a) k \<noteq> Some (x, n)" for k n
    using inv(5) new(1) by blast
  ultimately show ?thesis
    using inv parts new unfolding ip_alloc_inv_def
    by (auto simp: ia_occupy_def) (metis option.distinct(1))
qed

lemma allocate_auto_inv:
  assumes inv: "ip_alloc_inv a" and new: "map_of (ia_allocations a) key = None"
  shows "ip_alloc_inv (fst (allocate_auto key a))"
proof (cases "ia_auto_free a = []")
  case False
  let ?x = "last (ia_auto_free a)"
  let ?a = "a\<lparr>ia_auto_free := butlast (ia_auto_free a)\<rparr>"
  have split: "ia_auto_free a = butlast (ia_auto_free a) @ [?x]" using False by simp
  then have sets: "set (ia_auto_free a) = insert ?x (set (butlast (ia_auto_free a)))"
    "distinct (butlast (ia_auto_free a))" "?x \<notin> set (butlast (ia_auto_free a))"
    using inv unfolding ip_alloc_inv_def
    by (metis append.right_neutral list.set(1,2) set_append Un_insert_right)
       (use inv in \<open>auto simp: ip_alloc_inv_def distinct_butlast\<close>,
        metis False distinct_append append_butlast_last_id disjoint_insert(2) list.set_intros(1)
          distinct.simps(2) not_distinct_conv_prefix)
  have "ip_alloc_inv (ia_occupy key ?x IpAuto ?a)"
    by (rule ip_alloc_inv_occupy_auto)
       (use inv new sets ip_alloc_inv_free_last [OF inv False] in
        \<open>auto simp: ip_alloc_inv_def\<close>)
  with False show ?thesis by (simp add: allocate_auto_def Let_def)
next
  case True
  show ?thesis
  proof (cases "ia_next_auto a < ia_auto_zone_size a")
    case lt: True
    let ?x = "ia_next_auto a"
    have nowrap: "{off. off < ?x + 1} = insert ?x {off. off < ?x}"
    proof -
      have "unat (?x + 1) = Suc (unat ?x)"
        using lt by (rule word_succ_unat)
      then show ?thesis by (auto simp: word_less_nat_alt less_Suc_eq word_unat_eq_iff)
    qed
    have le: "?x + 1 \<le> ia_auto_zone_size a" using lt by (rule inc_le)
    have "ip_alloc_inv (ia_occupy key ?x IpAuto (a\<lparr>ia_next_auto := ?x + 1\<rparr>))"
      by (rule ip_alloc_inv_occupy_auto)
         (use inv new True nowrap le ip_alloc_inv_cursor_free [OF inv lt] in
          \<open>auto simp: ip_alloc_inv_def\<close>)
    moreover have "\<not> ia_auto_zone_size a \<le> ?x" using lt by simp
    ultimately show ?thesis
      using True allocate_auto_scan [OF inv lt] by (simp add: allocate_auto_def Let_def)
  next
    case False
    with True inv show ?thesis by (simp add: allocate_auto_def Let_def)
  qed
qed

lemma allocate_manual_inv:
  assumes inv: "ip_alloc_inv a" and new: "map_of (ia_allocations a) key = None"
  shows "ip_alloc_inv (fst (allocate_manual key ip a))"
proof -
  have "ip_alloc_inv (ia_occupy key off IpManual a)"
    if "off \<notin> ia_occupied a" "ia_manual_zone_start a \<le> off" "off < ia_manual_zone_end a" for off
  proof -
    have "map_of (ia_allocations a) k \<noteq> Some (off, n)" for k n
      using inv that(1) unfolding ip_alloc_inv_def by blast
    moreover have "auto_offsets (ia_occupy key off IpManual a) = auto_offsets a"
      using new by (simp add: auto_offsets_occupy)
    ultimately show ?thesis
      using inv that new unfolding ip_alloc_inv_def
      by (auto simp: ia_occupy_def) (metis option.distinct(1))
  qed
  with inv show ?thesis
    by (auto simp: allocate_manual_def not_less not_le split: option.split)
qed

lemma allocate_inv: "ip_alloc_inv a \<Longrightarrow> ip_alloc_inv (fst (allocate key explicit a))"
  by (auto simp: allocate_def Let_def allocate_auto_inv allocate_manual_inv split: option.split)

lemma release_map_of: "map_of (ia_allocations (release key a)) = (map_of (ia_allocations a))(key := None)"
  by (auto simp: release_def Let_def om_remove_map_of split: option.split)

lemma release_other [simp]:
  "ia_subnet_base (release key a) = ia_subnet_base a"
  "ia_first_host (release key a) = ia_first_host a"
  "ia_auto_zone_size (release key a) = ia_auto_zone_size a"
  "ia_manual_zone_start (release key a) = ia_manual_zone_start a"
  "ia_manual_zone_end (release key a) = ia_manual_zone_end a"
  "ia_next_auto (release key a) = ia_next_auto a"
  by (simp_all add: release_def Let_def split: option.split)

lemma release_inv:
  assumes inv: "ip_alloc_inv a" shows "ip_alloc_inv (release key a)"
proof (cases "map_of (ia_allocations a) key")
  case None
  with inv show ?thesis by (simp add: release_def)
next
  case (Some ok)
  obtain off kind where ok: "ok = (off, kind)" by force
  have wf: "om_wf (ia_allocations a)" using inv by (simp add: ip_alloc_inv_def)
  have m: "map_of (ia_allocations (release key a)) = (map_of (ia_allocations a))(key := None)"
    by (rule release_map_of)
  have uniq: "map_of (ia_allocations a) k \<noteq> Some (off, n)" if "k \<noteq> key" for k n
    using inv Some that unfolding ip_alloc_inv_def ok by blast
  have rel: "map_of (ia_allocations (release key a)) k = Some (x, n) \<longleftrightarrow>
      x \<noteq> off \<and> map_of (ia_allocations a) k = Some (x, n)" for k x n
    using uniq [of k n] Some ok unfolding m by (cases "k = key") auto
  have autos: "auto_offsets (release key a) = auto_offsets a - {off}"
    unfolding auto_offsets_def rel by blast
  have occ: "ia_occupied (release key a) = ia_occupied a - {off}"
    and free: "ia_auto_free (release key a) = ia_auto_free a @ (if kind = IpAuto then [off] else [])"
    and wf': "om_wf (ia_allocations (release key a))"
    using Some wf by (simp_all add: release_def ok Let_def)
  have auto_mem: "off \<in> auto_offsets a \<longleftrightarrow> kind = IpAuto"
  proof
    assume "off \<in> auto_offsets a"
    then obtain k where k: "map_of (ia_allocations a) k = Some (off, IpAuto)"
      unfolding auto_offsets_def by blast
    with uniq [of k IpAuto] have "k = key" by blast
    with k Some ok show "kind = IpAuto" by simp
  qed (use Some ok in \<open>auto simp: auto_offsets_def\<close>)
  have parts: "auto_offsets a \<union> set (ia_auto_free a) = {off. off < ia_next_auto a}"
      "auto_offsets a \<inter> set (ia_auto_free a) = {}"
    using inv unfolding ip_alloc_inv_def by blast+
  have "auto_offsets (release key a) \<union> set (ia_auto_free (release key a)) =
        {off. off < ia_next_auto a}"
      "auto_offsets (release key a) \<inter> set (ia_auto_free (release key a)) = {}"
      "distinct (ia_auto_free (release key a))"
    using parts auto_mem inv unfolding autos free ip_alloc_inv_def by (cases kind; auto)+
  moreover have "\<forall>x. x \<in> ia_occupied (release key a) \<longleftrightarrow>
      (\<exists>k n. map_of (ia_allocations (release key a)) k = Some (x, n))"
    using inv unfolding occ rel ip_alloc_inv_def by blast
  moreover have "\<forall>k1 k2 off n1 n2. map_of (ia_allocations (release key a)) k1 = Some (off, n1) \<longrightarrow>
        map_of (ia_allocations (release key a)) k2 = Some (off, n2) \<longrightarrow> k1 = k2"
      "\<forall>k off. map_of (ia_allocations (release key a)) k = Some (off, IpManual) \<longrightarrow>
        ia_manual_zone_start a \<le> off \<and> off < ia_manual_zone_end a"
    using inv unfolding rel ip_alloc_inv_def by blast+
  ultimately show ?thesis
    using inv wf' unfolding ip_alloc_inv_def release_other by blast
qed

section \<open>WireGuard peers\<close>

text \<open>A client is known by its 32-byte public key.\<close>

type_synonym wg_key = "u8 list"

datatype wg_peer_output = WgAddPeer wg_key ipv4 | WgRemovePeer wg_key

datatype connect_result = ConnectOk ipv4 "wg_peer_output list" | ConnectError string

record wg_peer_manager =
  wgm_peers :: "(wg_key, ipv4) omap"
  wgm_next_host_offset :: u16
  wgm_subnet :: ipv4
  wgm_prefix_len :: u8

text \<open>
  The shift masks its amount to five bits and the subtraction wraps, as in an
  optimised build; the cast to 16 bits keeps the low half.
\<close>

definition wg_new :: "ipv4 \<Rightarrow> u8 \<Rightarrow> wg_peer_manager" where
  "wg_new subnet prefix_len =
     \<lparr>wgm_peers = [],
      wgm_next_host_offset = ucast (push_bit (unat (((32 :: u32) - ucast prefix_len) AND 31)) (1 :: u32) - 2),
      wgm_subnet = subnet, wgm_prefix_len = prefix_len\<rparr>"

definition wg_connect :: "wg_key \<Rightarrow> wg_peer_manager \<Rightarrow> wg_peer_manager \<times> connect_result" where
  "wg_connect key w = (case map_of (wgm_peers w) key of
       Some client_ip \<Rightarrow> (w, ConnectOk client_ip [])
     | None \<Rightarrow>
         if wgm_next_host_offset w < 2
         then (w, ConnectError ''no more WireGuard peer IPs available'')
         else let client_ip = wgm_subnet w + ucast (wgm_next_host_offset w)
              in (w\<lparr>wgm_next_host_offset := wgm_next_host_offset w - 1,
                    wgm_peers := om_insert key client_ip (wgm_peers w)\<rparr>,
                  ConnectOk client_ip [WgAddPeer key client_ip]))"

definition wg_disconnect :: "wg_key \<Rightarrow> wg_peer_manager \<Rightarrow> wg_peer_manager \<times> wg_peer_output list" where
  "wg_disconnect key w =
     (if map_of (wgm_peers w) key \<noteq> None
      then (w\<lparr>wgm_peers := om_remove key (wgm_peers w)\<rparr>, [WgRemovePeer key])
      else (w, []))"

text \<open>Every address given out lies above the cursor.\<close>

definition wg_inv :: "wg_peer_manager \<Rightarrow> bool" where
  "wg_inv w \<longleftrightarrow>
     (\<forall>k ip. map_of (wgm_peers w) k = Some ip \<longrightarrow>
        (\<exists>off. wgm_next_host_offset w < off \<and> ip = wgm_subnet w + ucast off)) \<and>
     (\<forall>k1 k2 ip. map_of (wgm_peers w) k1 = Some ip \<longrightarrow> map_of (wgm_peers w) k2 = Some ip \<longrightarrow> k1 = k2)"

lemma ucast_u16_u32_down: "(ucast (ucast (x :: u16) :: u32) :: u16) = x"
  by (simp add: bit_eq_iff bit_ucast_iff)

lemma ucast_u16_u32_inj: "(ucast (x :: u16) :: u32) = ucast y \<longleftrightarrow> x = y"
  by (metis ucast_u16_u32_down)

lemma wg_inv_new: "wg_inv (wg_new subnet p)"
  by (simp add: wg_inv_def wg_new_def)

lemma wg_connect_inv:
  assumes inv: "wg_inv w" shows "wg_inv (fst (wg_connect key w))"
proof (cases "map_of (wgm_peers w) key = None \<and> 2 \<le> wgm_next_host_offset w")
  case True
  let ?n = "wgm_next_host_offset w"
  have "?n \<noteq> 0" using True by auto
  then have below: "?n - 1 < ?n" by (simp add: word_less_nat_alt unat_minus_one word_unat_eq_iff)
  have fresh: "map_of (wgm_peers w) k \<noteq> Some (wgm_subnet w + ucast ?n)" for k
  proof
    assume "map_of (wgm_peers w) k = Some (wgm_subnet w + ucast ?n)"
    then obtain off where "?n < off" "wgm_subnet w + ucast ?n = wgm_subnet w + ucast off"
      using inv unfolding wg_inv_def by blast
    then show False by (simp add: ucast_u16_u32_inj)
  qed
  have bound: "\<exists>off. ?n - 1 < off \<and> ip = wgm_subnet w + ucast off"
    if "map_of (wgm_peers w) k = Some ip" for k ip
    using inv that below unfolding wg_inv_def by (meson less_trans)
  have uniq: "\<forall>k1 k2 ip. map_of (wgm_peers w) k1 = Some ip \<longrightarrow> map_of (wgm_peers w) k2 = Some ip \<longrightarrow> k1 = k2"
    using inv unfolding wg_inv_def by blast
  have "wg_inv (w\<lparr>wgm_next_host_offset := ?n - 1,
      wgm_peers := om_insert key (wgm_subnet w + ucast ?n) (wgm_peers w)\<rparr>)"
    unfolding wg_inv_def using bound uniq fresh below by auto
  with True show ?thesis by (simp add: wg_connect_def Let_def not_less [symmetric])
next
  case False
  with inv show ?thesis by (auto simp: wg_connect_def not_le split: option.split)
qed

lemma wg_disconnect_inv: "wg_inv w \<Longrightarrow> wg_inv (fst (wg_disconnect key w))"
  unfolding wg_inv_def wg_disconnect_def by (auto split: if_splits)

section \<open>The contract of an address pool\<close>

text \<open>
  What the namespace relies on in both: under any sequence of operations no two
  holders share an address, and a holder keeps its address until it is freed.
\<close>

locale address_pool =
  fixes inv :: "'s \<Rightarrow> bool"
    and addr :: "'s \<Rightarrow> 'k \<Rightarrow> ipv4 option"
    and step :: "'op \<Rightarrow> 's \<Rightarrow> 's"
    and frees :: "'op \<Rightarrow> 'k \<Rightarrow> bool"
  assumes inv_step: "inv s \<Longrightarrow> inv (step op s)"
    and addr_inj: "inv s \<Longrightarrow> addr s k1 = Some ip \<Longrightarrow> addr s k2 = Some ip \<Longrightarrow> k1 = k2"
    and addr_kept: "addr s k = Some ip \<Longrightarrow> \<not> frees op k \<Longrightarrow> addr (step op s) k = Some ip"
begin

lemma run_inv: "inv s \<Longrightarrow> inv (fold step ops s)"
  by (induction ops arbitrary: s) (simp_all add: inv_step)

lemma run_distinct:
  "inv s \<Longrightarrow> addr (fold step ops s) k1 = Some ip \<Longrightarrow> addr (fold step ops s) k2 = Some ip \<Longrightarrow> k1 = k2"
  by (blast intro: addr_inj run_inv)

lemma run_kept:
  "addr s k = Some ip \<Longrightarrow> list_all (\<lambda>op. \<not> frees op k) ops \<Longrightarrow> addr (fold step ops s) k = Some ip"
  by (induction ops arbitrary: s) (simp_all add: addr_kept)

end

datatype ip_op = OpAllocate ip_resource_key "ipv4 option" | OpRelease ip_resource_key

definition ip_step :: "ip_op \<Rightarrow> ip_allocator \<Rightarrow> ip_allocator" where
  "ip_step op a = (case op of
       OpAllocate key explicit \<Rightarrow> fst (allocate key explicit a)
     | OpRelease key \<Rightarrow> release key a)"

definition ip_addr :: "ip_allocator \<Rightarrow> ip_resource_key \<Rightarrow> ipv4 option" where
  "ip_addr a key = map_option (offset_to_ip a \<circ> fst) (map_of (ia_allocations a) key)"

datatype wg_op = OpConnect wg_key | OpDisconnect wg_key

definition wg_step :: "wg_op \<Rightarrow> wg_peer_manager \<Rightarrow> wg_peer_manager" where
  "wg_step op w = (case op of
       OpConnect key \<Rightarrow> fst (wg_connect key w)
     | OpDisconnect key \<Rightarrow> fst (wg_disconnect key w))"

lemma allocate_other [simp]:
  "ia_first_host (fst (allocate key explicit a)) = ia_first_host a"
  "ia_auto_zone_size (fst (allocate key explicit a)) = ia_auto_zone_size a"
  "ia_manual_zone_end (fst (allocate key explicit a)) = ia_manual_zone_end a"
  by (simp_all add: allocate_def allocate_auto_def allocate_manual_def ia_occupy_def Let_def
      split: option.split prod.split)

lemma ia_occupy_map_of [simp]:
  "map_of (ia_allocations (ia_occupy key off kind a)) = (map_of (ia_allocations a))(key \<mapsto> (off, kind))"
  by (simp add: ia_occupy_def)

lemma allocate_auto_other_key:
  "k \<noteq> key \<Longrightarrow> map_of (ia_allocations (fst (allocate_auto key a))) k = map_of (ia_allocations a) k"
  by (simp add: allocate_auto_def Let_def split: option.split)

lemma allocate_manual_other_key:
  "k \<noteq> key \<Longrightarrow> map_of (ia_allocations (fst (allocate_manual key ip a))) k = map_of (ia_allocations a) k"
  by (simp add: allocate_manual_def split: option.split)

lemma allocate_kept:
  assumes "map_of (ia_allocations a) k = Some v"
  shows "map_of (ia_allocations (fst (allocate key explicit a))) k = Some v"
proof (cases "key = k")
  case True
  with assms show ?thesis by (simp add: allocate_def Let_def split: prod.split)
next
  case False
  with assms show ?thesis
    by (simp add: allocate_def Let_def allocate_auto_other_key allocate_manual_other_key
        split: option.split prod.split)
qed

lemma offset_to_ip_first_host: "ia_first_host a = ia_first_host b \<Longrightarrow> offset_to_ip a = offset_to_ip b"
  by (simp add: offset_to_ip_def fun_eq_iff)

interpretation ip_pool: address_pool ip_alloc_inv ip_addr ip_step "\<lambda>op k. op = OpRelease k"
proof
  show "ip_alloc_inv (ip_step op a)" if "ip_alloc_inv a" for op a
    using that by (simp add: ip_step_def allocate_inv release_inv split: ip_op.split)
  show "k1 = k2"
    if inv: "ip_alloc_inv a" and addrs: "ip_addr a k1 = Some ip" "ip_addr a k2 = Some ip" for a k1 k2 ip
  proof -
    obtain o1 n1 o2 n2 where m: "map_of (ia_allocations a) k1 = Some (o1, n1)"
        "map_of (ia_allocations a) k2 = Some (o2, n2)"
        and "offset_to_ip a o1 = offset_to_ip a o2"
      using addrs by (auto simp: ip_addr_def)
    then have "o1 = o2" by (simp add: offset_to_ip_def)
    with m inv show ?thesis unfolding ip_alloc_inv_def by blast
  qed
  show "ip_addr (ip_step op a) k = Some ip"
    if "ip_addr a k = Some ip" "op \<noteq> OpRelease k" for a k ip op
  proof (cases op)
    case (OpAllocate key explicit)
    have "offset_to_ip (fst (allocate key explicit a)) = offset_to_ip a"
      by (rule offset_to_ip_first_host) simp
    with that(1) OpAllocate show ?thesis
      by (auto simp: ip_addr_def ip_step_def allocate_kept)
  next
    case (OpRelease key)
    have "offset_to_ip (release key a) = offset_to_ip a" by (rule offset_to_ip_first_host) simp
    with that OpRelease show ?thesis
      by (auto simp: ip_addr_def ip_step_def release_map_of)
  qed
qed

interpretation wg_pool: address_pool wg_inv "\<lambda>w. map_of (wgm_peers w)" wg_step
  "\<lambda>op k. op = OpDisconnect k"
proof
  show "wg_inv (wg_step op w)" if "wg_inv w" for op w
    using that by (simp add: wg_step_def wg_connect_inv wg_disconnect_inv split: wg_op.split)
  show "k1 = k2"
    if "wg_inv w" "map_of (wgm_peers w) k1 = Some ip" "map_of (wgm_peers w) k2 = Some ip" for w k1 k2 ip
    using that unfolding wg_inv_def by blast
  show "map_of (wgm_peers (wg_step op w)) k = Some ip"
    if "map_of (wgm_peers w) k = Some ip" "op \<noteq> OpDisconnect k" for w k ip op
    using that by (cases op) (auto simp: wg_step_def wg_connect_def wg_disconnect_def Let_def
        split: option.split)
qed

section \<open>Allocation outcomes\<close>

lemma auto_full_card:
  assumes "ip_alloc_inv a"
  shows "card (auto_offsets a) + length (ia_auto_free a) = unat (ia_next_auto a)"
proof -
  have "{off. off < ia_next_auto a} = of_nat ` {..< unat (ia_next_auto a)}"
  proof (intro set_eqI iffI)
    fix x assume "x \<in> {off. off < ia_next_auto a}"
    then have "unat x < unat (ia_next_auto a)" by (simp add: word_less_nat_alt)
    then show "x \<in> of_nat ` {..< unat (ia_next_auto a)}"
      by (intro image_eqI [of _ _ "unat x"]) simp_all
  next
    fix x :: u32 assume "x \<in> of_nat ` {..< unat (ia_next_auto a)}"
    then obtain n where n: "x = of_nat n" "n < unat (ia_next_auto a)" by auto
    moreover have "unat (ia_next_auto a) < 2 ^ 32" using unsigned_less [of "ia_next_auto a"] by simp
    ultimately show "x \<in> {off. off < ia_next_auto a}"
      by (simp add: word_less_nat_alt unat_of_nat)
  qed
  moreover have "inj_on (of_nat :: nat \<Rightarrow> u32) {..< unat (ia_next_auto a)}"
  proof (rule inj_onI)
    fix m n assume mn: "m \<in> {..< unat (ia_next_auto a)}" "n \<in> {..< unat (ia_next_auto a)}"
      and eq: "(of_nat m :: u32) = of_nat n"
    have "unat (ia_next_auto a) < 2 ^ 32" using unsigned_less [of "ia_next_auto a"] by simp
    with mn have "unat (of_nat m :: u32) = m" "unat (of_nat n :: u32) = n"
      by (simp_all add: unat_of_nat)
    with eq show "m = n" by metis
  qed
  ultimately have c: "card {off. off < ia_next_auto a} = unat (ia_next_auto a)"
    by (simp add: card_image)
  have parts: "auto_offsets a \<union> set (ia_auto_free a) = {off. off < ia_next_auto a}"
    "auto_offsets a \<inter> set (ia_auto_free a) = {}" "distinct (ia_auto_free a)"
    using assms unfolding ip_alloc_inv_def by blast+
  have "finite (auto_offsets a)" by simp
  with parts have "card {off. off < ia_next_auto a} = card (auto_offsets a) + length (ia_auto_free a)"
    by (metis List.finite_set card_Un_disjoint distinct_card)
  with c show ?thesis by simp
qed

text \<open>An automatic request fails exactly when every offset of the zone is held.\<close>

lemma allocate_auto_exhausted_iff:
  assumes inv: "ip_alloc_inv a" and new: "map_of (ia_allocations a) key = None"
  shows "snd (allocate key None a) = Inl AutoZoneExhausted \<longleftrightarrow>
    card (auto_offsets a) = unat (ia_auto_zone_size a)"
proof -
  have le: "unat (ia_next_auto a) \<le> unat (ia_auto_zone_size a)"
    using inv by (simp add: ip_alloc_inv_def word_le_nat_alt)
  have card: "card (auto_offsets a) + length (ia_auto_free a) = unat (ia_next_auto a)"
    using inv by (rule auto_full_card)
  show ?thesis
  proof (cases "ia_auto_free a = [] \<and> ia_auto_zone_size a \<le> ia_next_auto a")
    case True
    then have "unat (ia_auto_zone_size a) \<le> unat (ia_next_auto a)" by (simp add: word_le_nat_alt)
    with True card le new show ?thesis by (simp add: allocate_def allocate_auto_def)
  next
    case False
    have "card (auto_offsets a) < unat (ia_auto_zone_size a)"
    proof (cases "ia_auto_free a = []")
      case True
      with False have "unat (ia_next_auto a) < unat (ia_auto_zone_size a)"
        by (simp add: word_less_nat_alt not_le)
      with card show ?thesis by linarith
    next
      case False
      then have "0 < length (ia_auto_free a)" by simp
      with card le show ?thesis by linarith
    qed
    moreover have "snd (allocate key None a) \<noteq> Inl AutoZoneExhausted"
      using False new allocate_auto_scan [OF inv]
      by (auto simp: allocate_def allocate_auto_def Let_def not_le)
    ultimately show ?thesis by simp
  qed
qed

text \<open>A manual request succeeds exactly for a free address of the manual zone.\<close>

lemma allocate_manual_ok_iff:
  assumes new: "map_of (ia_allocations a) key = None"
  shows "(\<exists>alloc. snd (allocate key (Some ip) a) = Inr alloc) \<longleftrightarrow>
    ia_first_host a \<le> ip \<and> ip - ia_first_host a \<notin> ia_occupied a \<and>
    ia_manual_zone_start a \<le> ip - ia_first_host a \<and> ip - ia_first_host a < ia_manual_zone_end a"
  using new by (auto simp: allocate_def allocate_manual_def ip_to_offset_def u32_checked_sub_def
      split: if_splits)

lemma ia_occupy_addr: "ia_first_host b = ia_first_host a \<Longrightarrow>
    ip_addr (ia_occupy key off kind b) key = Some (offset_to_ip a off)"
  by (simp add: ip_addr_def offset_to_ip_def ia_occupy_def)

lemma allocate_auto_ok:
  "snd (allocate_auto key a) = Inr alloc \<Longrightarrow>
    ip_addr (fst (allocate_auto key a)) key = Some (ipa_ip alloc) \<and> ipa_kind alloc = IpAuto"
  by (auto simp: allocate_auto_def Let_def ia_occupy_addr [of _ a] split: option.splits if_splits)
     (simp_all add: offset_to_ip_def)

lemma allocate_manual_ok:
  "snd (allocate_manual key ip a) = Inr alloc \<Longrightarrow>
    ip_addr (fst (allocate_manual key ip a)) key = Some (ipa_ip alloc) \<and>
    ipa_ip alloc = ip \<and> ipa_kind alloc = IpManual"
  by (auto simp: allocate_manual_def ia_occupy_addr [of _ a] offset_to_ip_def ip_to_offset_def
      u32_checked_sub_def split: option.splits if_splits)

lemma allocate_ok:
  assumes "snd (allocate key explicit a) = Inr alloc"
  shows "ip_addr (fst (allocate key explicit a)) key = Some (ipa_ip alloc) \<and>
    ipa_kind alloc = (if explicit = None then IpAuto else IpManual)"
proof (cases "map_of (ia_allocations a) key")
  case None
  with assms allocate_auto_ok [of key a alloc] allocate_manual_ok [of key _ a alloc] show ?thesis
    by (cases explicit) (simp_all add: allocate_def)
next
  case (Some v)
  with assms show ?thesis by (cases v) (auto simp: allocate_def Let_def ip_addr_def split: if_splits)
qed

lemma allocate_error_unchanged:
  "snd (allocate key explicit a) = Inl err \<Longrightarrow> fst (allocate key explicit a) = a"
  by (auto simp: allocate_def allocate_auto_def allocate_manual_def Let_def
      split: option.splits prod.splits if_splits)

text \<open>The snapshot reports exactly the addresses held.\<close>

definition result_entry :: "ip_alloc_result \<Rightarrow> ip_resource_key \<Rightarrow> ip_allocation option" where
  "result_entry r key = (case key of
       IpWorkload n \<Rightarrow> map_of (iar_workload_ips r) n
     | IpService n \<Rightarrow> map_of (iar_service_ips r) n)"

lemma result_entry_step:
  "result_entry (snapshot_step a (key, (off, kind)) r) =
     (result_entry r)(key \<mapsto> \<lparr>ipa_ip = offset_to_ip a off, ipa_kind = kind\<rparr>)"
  by (rule ext) (simp add: result_entry_def snapshot_step_def split: ip_resource_key.split)

lemma result_entry_fold:
  "distinct (map fst m) \<Longrightarrow> result_entry (fold (snapshot_step a) m r) key =
     (case map_of m key of
        Some (off, kind) \<Rightarrow> Some \<lparr>ipa_ip = offset_to_ip a off, ipa_kind = kind\<rparr>
      | None \<Rightarrow> result_entry r key)"
proof (induction m arbitrary: r)
  case (Cons e m)
  obtain k off kind where e: "e = (k, (off, kind))" by (cases e)
  show ?case
  proof (cases "k = key")
    case True
    with Cons.prems e have "map_of m key = None" by (auto simp: map_of_eq_None_iff)
    with Cons e True show ?thesis by (simp add: result_entry_step)
  next
    case False
    with Cons e show ?thesis by (simp add: result_entry_step split: option.split)
  qed
qed simp

lemma full_snapshot_entry:
  assumes "om_wf (ia_allocations a)"
  shows "result_entry (full_snapshot a) key = map_option
    (\<lambda>(off, kind). \<lparr>ipa_ip = offset_to_ip a off, ipa_kind = kind\<rparr>) (map_of (ia_allocations a) key)"
proof -
  have "distinct (map fst (ia_allocations a))" using assms by (rule om_wf_distinct)
  moreover have "result_entry \<lparr>iar_workload_ips = [], iar_service_ips = []\<rparr> key = None"
    by (simp add: result_entry_def split: ip_resource_key.split)
  ultimately show ?thesis by (auto simp: full_snapshot_def result_entry_fold split: option.split)
qed

section \<open>Properties\<close>

text \<open>
  C33.  Whatever sequence of allocations (automatic or manual) and releases a
  fresh allocator goes through, two resources never hold the same address, and
  a resource keeps its address through every later operation but its own
  release.
\<close>

theorem ip_alloc_distinct_sticky:
  assumes "a = fold ip_step ops (ip_allocator_new subnet prefix_len wg_reserve)"
    and "ip_addr a k1 = Some ip"
  shows "(ip_addr a k2 = Some ip \<longrightarrow> k2 = k1) \<and>
    (list_all (\<lambda>op. op \<noteq> OpRelease k1) later \<longrightarrow> ip_addr (fold ip_step later a) k1 = Some ip)"
  using assms ip_pool.run_distinct [OF ip_alloc_inv_new, of ops subnet prefix_len wg_reserve]
    ip_pool.run_kept [of a k1 ip later] by blast

theorem ip_alloc_distinct_sticky_witness:
  "ip_addr (fold ip_step [OpAllocate (IpWorkload ''db'') None, OpAllocate (IpWorkload ''web'') None]
     (ip_allocator_new 0xAC100000 24 10)) (IpWorkload ''db'') = Some 0xAC100002 \<and>
   ip_addr (fold ip_step [OpRelease (IpWorkload ''web''), OpAllocate (IpService ''api'') None]
     (fold ip_step [OpAllocate (IpWorkload ''db'') None, OpAllocate (IpWorkload ''web'') None]
       (ip_allocator_new 0xAC100000 24 10))) (IpWorkload ''db'') = Some 0xAC100002"
proof -
  have db: "ip_addr (fold ip_step [OpAllocate (IpWorkload ''db'') None, OpAllocate (IpWorkload ''web'') None]
     (ip_allocator_new 0xAC100000 24 10)) (IpWorkload ''db'') = Some 0xAC100002"
    by code_simp
  with ip_alloc_distinct_sticky [OF refl db,
      where later = "[OpRelease (IpWorkload ''web''), OpAllocate (IpService ''api'') None]"]
  show ?thesis by simp
qed

text \<open>
  C34.  In every reachable allocator, an automatic request of a resource that
  holds no address is refused exactly when the whole automatic zone is held:
  released addresses are never lost.
\<close>

theorem ip_alloc_exhausted_iff:
  assumes "a = fold ip_step ops (ip_allocator_new subnet prefix_len wg_reserve)"
    and "ip_addr a key = None"
  shows "snd (allocate key None a) = Inl AutoZoneExhausted \<longleftrightarrow>
    card (auto_offsets a) = unat (ia_auto_zone_size a)"
proof -
  have "ip_alloc_inv a" unfolding assms(1) by (rule ip_pool.run_inv [OF ip_alloc_inv_new])
  moreover have "map_of (ia_allocations a) key = None" using assms(2) by (simp add: ip_addr_def)
  ultimately show ?thesis by (rule allocate_auto_exhausted_iff)
qed

theorem ip_alloc_exhausted_iff_witness:
  "snd (allocate (IpWorkload ''db'') None
      (fold ip_step [OpAllocate (IpWorkload ''web'') None] (ip_allocator_new 0xAC100000 30 0))) =
     Inl AutoZoneExhausted \<and>
   card (auto_offsets (fold ip_step [OpAllocate (IpWorkload ''web'') None]
     (ip_allocator_new 0xAC100000 30 0))) = 1"
proof -
  let ?a = "fold ip_step [OpAllocate (IpWorkload ''web'') None] (ip_allocator_new 0xAC100000 30 0)"
  have "ip_addr ?a (IpWorkload ''db'') = None" by code_simp
  moreover have ex: "snd (allocate (IpWorkload ''db'') None ?a) = Inl AutoZoneExhausted" by code_simp
  moreover have "ia_auto_zone_size ?a = 1" by code_simp
  ultimately show ?thesis
    using ip_alloc_exhausted_iff [of ?a "[OpAllocate (IpWorkload ''web'') None]" "0xAC100000" 30 0
      "IpWorkload ''db''"] by simp
qed

text \<open>
   No two connected WireGuard clients of a namespace share an address, and a
  client keeps its address until it disconnects.
\<close>

theorem wg_distinct_sticky:
  assumes "w = fold wg_step ops (wg_new subnet prefix_len)"
    and "map_of (wgm_peers w) k1 = Some ip"
  shows "(map_of (wgm_peers w) k2 = Some ip \<longrightarrow> k2 = k1) \<and>
    (list_all (\<lambda>op. op \<noteq> OpDisconnect k1) later \<longrightarrow>
       map_of (wgm_peers (fold wg_step later w)) k1 = Some ip)"
  using assms wg_pool.run_distinct [OF wg_inv_new, of ops subnet prefix_len]
    wg_pool.run_kept [of w k1 ip later] by blast

theorem wg_distinct_sticky_witness:
  "map_of (wgm_peers (fold wg_step [OpConnect [1], OpConnect [2]] (wg_new 0xAC100000 24))) [1] =
     Some 0xAC1000FE \<and>
   map_of (wgm_peers (fold wg_step [OpDisconnect [2], OpConnect [3]]
     (fold wg_step [OpConnect [1], OpConnect [2]] (wg_new 0xAC100000 24)))) [1] = Some 0xAC1000FE"
proof -
  have one: "map_of (wgm_peers (fold wg_step [OpConnect [1], OpConnect [2]] (wg_new 0xAC100000 24))) [1] =
     Some 0xAC1000FE"
    by code_simp
  with wg_distinct_sticky [OF refl one, where later = "[OpDisconnect [2], OpConnect [3]]"]
  show ?thesis by simp
qed


end
