(* ===== verification/Scheduler.thy ===== *)
theory Scheduler
  imports Complex_Main Sm_Types "HOL-Library.AList" "HOL-Library.Product_Lexorder"
begin

text \<open>
  The global scheduler: pressure bands (\<open>core/pressure.rs\<close>, \<open>types/states.rs\<close>),
  the table of artifact placements (\<open>core/orchestrator/scheduler/placement_table.rs\<close>)
  and the scheduler core (\<open>core/orchestrator/scheduler/mod.rs\<close>).

  Hash maps are association lists: they are iterated in the order of the list,
  one of the orders a hash map may use.  The choice of a worker is shown not to
  depend on that order.  The scheduler never lets a request wait while a worker
  could take it, and its table of grants is the replay of its decisions.
\<close>

section \<open>Floating-point scores\<close>

text \<open>
  A float is not a number, an infinity or a rational.  Only comparisons, one
  rounded division and a clamp are used; comparisons with \<open>NaN\<close> are false.
\<close>

datatype float_val = FNan | FInf | FNegInf | FFin rat

fun float_ge :: "float_val \<Rightarrow> rat \<Rightarrow> bool" where
  "float_ge FNan _ = False"
| "float_ge FInf _ = True"
| "float_ge FNegInf _ = False"
| "float_ge (FFin x) y = (y \<le> x)"

fun float_lt :: "float_val \<Rightarrow> rat \<Rightarrow> bool" where
  "float_lt FNan _ = False"
| "float_lt FInf _ = False"
| "float_lt FNegInf _ = True"
| "float_lt (FFin x) y = (x < y)"

definition round_half_even :: "rat \<Rightarrow> int" where
  "round_half_even x =
     (let l = \<lfloor>x\<rfloor>; d = x - of_int l
      in if d < 1 / 2 then l else if 1 / 2 < d then l + 1 else if even l then l else l + 1)"

text \<open>
  Rounding to single precision: a significand of 24 bits and an exponent from
  -149, ties to even; past the largest finite value the result is infinite.
\<close>

definition f32_round :: "rat \<Rightarrow> float_val" where
  "f32_round x =
     (case List.find (\<lambda>k. \<bar>x\<bar> * 2 ^ 149 < 2 ^ (24 + k)) [0 ..< 254] of
        None \<Rightarrow> if 0 < x then FInf else FNegInf
      | Some k \<Rightarrow>
          let m = round_half_even (\<bar>x\<bar> * 2 ^ 149 / 2 ^ k);
              v = of_int m * 2 ^ k / 2 ^ 149
          in if 2 ^ 128 \<le> v then (if 0 < x then FInf else FNegInf)
             else FFin (if 0 \<le> x then v else - v))"

fun f64_as_f32 :: "float_val \<Rightarrow> float_val" where
  "f64_as_f32 (FFin x) = f32_round x"
| "f64_as_f32 x = x"

fun f32_div100 :: "float_val \<Rightarrow> float_val" where
  "f32_div100 (FFin x) = f32_round (x / 100)"
| "f32_div100 x = x"

fun f32_clamp01 :: "float_val \<Rightarrow> float_val" where
  "f32_clamp01 (FFin x) = FFin (if x < 0 then 0 else if 1 < x then 1 else x)"
| "f32_clamp01 FInf = FFin 1"
| "f32_clamp01 FNegInf = FFin 0"
| "f32_clamp01 FNan = FNan"

section \<open>Pressure bands\<close>

datatype pressure_band = BandNormal | BandElevated | BandHigh | BandCritical

fun band_rank :: "pressure_band \<Rightarrow> nat" where
  "band_rank BandNormal = 0"
| "band_rank BandElevated = 1"
| "band_rank BandHigh = 2"
| "band_rank BandCritical = 3"

lemma band_rank_inj: "band_rank a = band_rank b \<longleftrightarrow> a = b"
  by (cases a; cases b) simp_all

instantiation pressure_band :: linorder
begin
definition less_eq_pressure_band :: "pressure_band \<Rightarrow> pressure_band \<Rightarrow> bool" where
  "less_eq_pressure_band a b \<longleftrightarrow> band_rank a \<le> band_rank b"
definition less_pressure_band :: "pressure_band \<Rightarrow> pressure_band \<Rightarrow> bool" where
  "less_pressure_band a b \<longleftrightarrow> band_rank a < band_rank b"
instance
  by standard (auto simp: less_eq_pressure_band_def less_pressure_band_def band_rank_inj)
end

text \<open>The thresholds are the single-precision values of 0.5, 0.8, 0.95 and 0.4, 0.7, 0.85.\<close>

fun enter_threshold :: "pressure_band \<Rightarrow> rat" where
  "enter_threshold BandNormal = 0"
| "enter_threshold BandElevated = 1 / 2"
| "enter_threshold BandHigh = 13421773 / 16777216"
| "enter_threshold BandCritical = 15938355 / 16777216"

fun leave_threshold :: "pressure_band \<Rightarrow> rat" where
  "leave_threshold BandNormal = 0"
| "leave_threshold BandElevated = 13421773 / 33554432"
| "leave_threshold BandHigh = 11744051 / 16777216"
| "leave_threshold BandCritical = 14260634 / 16777216"

definition compute_band_with_hysteresis :: "pressure_band \<Rightarrow> float_val \<Rightarrow> pressure_band" where
  "compute_band_with_hysteresis current score =
     (if float_ge score (enter_threshold BandCritical) then BandCritical
      else if float_ge score (enter_threshold BandHigh) \<and> current < BandHigh then BandHigh
      else if float_ge score (enter_threshold BandElevated) \<and> current < BandElevated then BandElevated
      else if current = BandCritical \<and> float_lt score (leave_threshold BandCritical) then
        (if float_ge score (enter_threshold BandHigh) then BandHigh
         else if float_ge score (enter_threshold BandElevated) then BandElevated
         else BandNormal)
      else if current = BandHigh \<and> float_lt score (leave_threshold BandHigh) then
        (if float_ge score (enter_threshold BandElevated) then BandElevated else BandNormal)
      else if current = BandElevated \<and> float_lt score (leave_threshold BandElevated) then BandNormal
      else current)"

record worker_pressure =
  pr_compute :: float_val
  pr_memory :: float_val
  pr_storage :: float_val
  pr_network :: float_val

record pressure_bands =
  pb_compute :: pressure_band
  pb_memory :: pressure_band
  pb_storage :: pressure_band
  pb_network :: pressure_band

definition max_band :: "pressure_bands \<Rightarrow> pressure_band" where
  "max_band b = max (max (max (pb_compute b) (pb_memory b)) (pb_storage b)) (pb_network b)"

definition update_bands :: "worker_pressure \<Rightarrow> pressure_bands \<Rightarrow> pressure_bands" where
  "update_bands p current =
     \<lparr>pb_compute = compute_band_with_hysteresis (pb_compute current) (pr_compute p),
      pb_memory = compute_band_with_hysteresis (pb_memory current) (pr_memory p),
      pb_storage = compute_band_with_hysteresis (pb_storage current) (pr_storage p),
      pb_network = compute_band_with_hysteresis (pb_network current) (pr_network p)\<rparr>"

section \<open>Placement table\<close>

datatype artifact_status = ArtWriting | ArtReady pool_id u64

datatype artifact_placement_event =
    WriteStarted artifact_id pool_id
  | WriteCommitted artifact_id pool_id u64
  | TransferReceived artifact_id pool_id u64
  | TransferFailed artifact_id

type_synonym placement_table = "(artifact_id \<times> (worker_id \<times> artifact_status) list) list"

definition placement_put :: "artifact_id \<Rightarrow> worker_id \<Rightarrow> artifact_status \<Rightarrow> placement_table \<Rightarrow> placement_table" where
  "placement_put art w st t =
     AList.update art (AList.update w st (unwrap_or (map_of t art) [])) t"

fun apply_event :: "worker_id \<Rightarrow> artifact_placement_event \<Rightarrow> placement_table \<Rightarrow> placement_table" where
  "apply_event w (WriteStarted art _) t = placement_put art w ArtWriting t"
| "apply_event w (WriteCommitted art pool bytes) t = placement_put art w (ArtReady pool bytes) t"
| "apply_event w (TransferReceived art pool bytes) t = placement_put art w (ArtReady pool bytes) t"
| "apply_event w (TransferFailed art) t = (case map_of t art of
       None \<Rightarrow> t
     | Some ws \<Rightarrow>
         let ws = AList.delete w ws
         in if ws = [] then AList.delete art t else AList.update art ws t)"

definition remove_worker :: "worker_id \<Rightarrow> placement_table \<Rightarrow> placement_table" where
  "remove_worker w t =
     filter (\<lambda>(_, ws). ws \<noteq> []) (map (\<lambda>(art, ws). (art, AList.delete w ws)) t)"

fun is_ready :: "artifact_status \<Rightarrow> bool" where
  "is_ready (ArtReady _ _) = True"
| "is_ready ArtWriting = False"

definition workers_with_artifact :: "placement_table \<Rightarrow> artifact_id \<Rightarrow> worker_id list" where
  "workers_with_artifact t art =
     unwrap_or (map_option (\<lambda>ws. map fst (filter (is_ready \<circ> snd) ws)) (map_of t art)) []"

definition any_worker_with_artifact :: "placement_table \<Rightarrow> artifact_id \<Rightarrow> (worker_id \<times> pool_id) option" where
  "any_worker_with_artifact t art = (case map_of t art of
       None \<Rightarrow> None
     | Some ws \<Rightarrow> find_map (\<lambda>(w, st). case st of
           ArtReady pool _ \<Rightarrow> Some (w, pool)
         | ArtWriting \<Rightarrow> None) ws)"

definition remove_artifact :: "artifact_id \<Rightarrow> placement_table \<Rightarrow> placement_table" where
  "remove_artifact art t = AList.delete art t"

section \<open>Choosing a worker\<close>

record worker_candidate =
  cand_worker_id :: worker_id
  cand_max_pressure_band :: pressure_band
  cand_pod_count :: u64
  cand_draining :: bool
  cand_active :: bool

definition min_by_key :: "('a \<Rightarrow> 'k::linorder) \<Rightarrow> 'a list \<Rightarrow> 'a option" where
  "min_by_key f xs = (case xs of
       [] \<Rightarrow> None
     | x # xs \<Rightarrow> Some (fold (\<lambda>y m. if f y < f m then y else m) xs x))"

definition eligible :: "worker_candidate \<Rightarrow> bool" where
  "eligible c \<longleftrightarrow> cand_active c \<and> \<not> cand_draining c \<and> cand_max_pressure_band c < BandHigh"

definition candidate_key ::
  "artifact_id option \<Rightarrow> placement_table \<Rightarrow> worker_candidate \<Rightarrow> bool \<times> pressure_band \<times> u64 \<times> worker_id" where
  "candidate_key resume t c =
     (let affinity_workers = (case resume of
            None \<Rightarrow> None
          | Some art \<Rightarrow> let ws = workers_with_artifact t art in if ws = [] then None else Some ws);
          no_affinity = unwrap_or (map_option (\<lambda>ws. cand_worker_id c \<notin> set ws) affinity_workers) False
      in (no_affinity, cand_max_pressure_band c, cand_pod_count c, cand_worker_id c))"

definition select_worker ::
  "worker_candidate list \<Rightarrow> artifact_id option \<Rightarrow> placement_table \<Rightarrow> worker_id option" where
  "select_worker candidates resume t =
     map_option cand_worker_id (min_by_key (candidate_key resume t) (filter eligible candidates))"

section \<open>The scheduler core\<close>

type_synonym pod_key = "namespace_id \<times> pod_id"

datatype scheduler_decision =
    Grant namespace_id pod_id worker_id
  | Revoke namespace_id pod_id worker_id

record delete_artifact_command =
  del_worker_id :: worker_id
  del_artifact_id :: artifact_id
  del_pool_id :: pool_id

record scheduler_effects =
  se_decisions :: "scheduler_decision list"
  se_artifact_invalidations :: "u64 list"
  se_delete_commands :: "delete_artifact_command list"

datatype scheduler_input =
    RequestLease namespace_id pod_id "artifact_id option"
  | DropRequest namespace_id pod_id
  | WorkerUpdate worker_id worker_candidate
  | WorkerRemoved worker_id
  | ArtifactEvent worker_id artifact_placement_event
  | ArtifactReferenced artifact_id namespace_id
  | ArtifactReleased artifact_id namespace_id

record scheduler_core =
  sc_pending :: "(pod_key \<times> artifact_id option) list"
  sc_granted :: "(pod_key \<times> worker_id) list"
  sc_workers :: "(worker_id \<times> worker_candidate) list"
  sc_placements :: placement_table
  sc_artifact_refs :: "(artifact_id \<times> namespace_id) list"

definition scheduler_new :: scheduler_core where
  "scheduler_new =
     \<lparr>sc_pending = [], sc_granted = [], sc_workers = [], sc_placements = [], sc_artifact_refs = []\<rparr>"

definition effects_new :: scheduler_effects where
  "effects_new = \<lparr>se_decisions = [], se_artifact_invalidations = [], se_delete_commands = []\<rparr>"

definition from_decisions :: "scheduler_decision list \<Rightarrow> scheduler_effects" where
  "from_decisions ds = \<lparr>se_decisions = ds, se_artifact_invalidations = [], se_delete_commands = []\<rparr>"

text \<open>\<open>str::parse::<u64>\<close>: an optional plus sign and digits, within 64 bits.\<close>

fun parse_digits :: "int \<Rightarrow> string \<Rightarrow> int option" where
  "parse_digits acc [] = Some acc"
| "parse_digits acc (c # cs) =
     (if 48 \<le> (of_char c :: int) \<and> (of_char c :: int) \<le> 57 then
        let acc = acc * 10 + (of_char c - 48)
        in if acc < 2 ^ 64 then parse_digits acc cs else None
      else None)"

definition parse_u64 :: "string \<Rightarrow> u64 option" where
  "parse_u64 s =
     (let digits = (case s of c # cs \<Rightarrow> if c = CHR ''+'' then cs else s | [] \<Rightarrow> s)
      in if digits = [] then None else map_option of_int (parse_digits 0 digits))"

definition sched_select :: "scheduler_core \<Rightarrow> artifact_id option \<Rightarrow> worker_id option" where
  "sched_select s resume = select_worker (map snd (sc_workers s)) resume (sc_placements s)"

definition retry_one ::
  "pod_key \<Rightarrow> scheduler_core \<times> scheduler_decision list \<Rightarrow> scheduler_core \<times> scheduler_decision list" where
  "retry_one key = (\<lambda>(s, decisions). case map_of (sc_pending s) key of
       None \<Rightarrow> (s, decisions)
     | Some entry \<Rightarrow>
         let s = s\<lparr>sc_pending := AList.delete key (sc_pending s)\<rparr>
         in case sched_select s entry of
              Some w \<Rightarrow> (s\<lparr>sc_granted := AList.update key w (sc_granted s)\<rparr>,
                          decisions @ [Grant (fst key) (snd key) w])
            | None \<Rightarrow> (s\<lparr>sc_pending := AList.update key entry (sc_pending s)\<rparr>, decisions))"

definition retry_pending :: "scheduler_core \<Rightarrow> scheduler_core \<times> scheduler_decision list" where
  "retry_pending s =
     (let newly_granted = map fst (filter (\<lambda>(_, entry). sched_select s entry \<noteq> None) (sc_pending s))
      in fold retry_one newly_granted (s, []))"

fun scheduler_process :: "scheduler_input \<Rightarrow> scheduler_core \<Rightarrow> scheduler_core \<times> scheduler_effects" where
  "scheduler_process (RequestLease ns pod resume) s = (case sched_select s resume of
       Some w \<Rightarrow> (s\<lparr>sc_granted := AList.update (ns, pod) w (sc_granted s)\<rparr>,
                   from_decisions [Grant ns pod w])
     | None \<Rightarrow> (s\<lparr>sc_pending := AList.update (ns, pod) resume (sc_pending s)\<rparr>, effects_new))"
| "scheduler_process (DropRequest ns pod) s = (case map_of (sc_granted s) (ns, pod) of
       Some w \<Rightarrow> (s\<lparr>sc_granted := AList.delete (ns, pod) (sc_granted s)\<rparr>,
                   from_decisions [Revoke ns pod w])
     | None \<Rightarrow> (s\<lparr>sc_pending := AList.delete (ns, pod) (sc_pending s)\<rparr>, effects_new))"
| "scheduler_process (WorkerUpdate w c) s =
     (let (s, decisions) = retry_pending (s\<lparr>sc_workers := AList.update w c (sc_workers s)\<rparr>)
      in (s, from_decisions decisions))"
| "scheduler_process (WorkerRemoved w) s =
     (let s = s\<lparr>sc_workers := AList.delete w (sc_workers s),
                sc_placements := remove_worker w (sc_placements s)\<rparr>;
          unreachable = filter (\<lambda>art. workers_with_artifact (sc_placements s) art = [])
                          (map fst (sc_artifact_refs s))
      in (s\<lparr>sc_artifact_refs := fold AList.delete unreachable (sc_artifact_refs s)\<rparr>,
          effects_new\<lparr>se_artifact_invalidations :=
            List.map_filter (\<lambda>art. case art of ArtifactId x \<Rightarrow> parse_u64 x) unreachable\<rparr>))"
| "scheduler_process (ArtifactEvent w ev) s =
     (s\<lparr>sc_placements := apply_event w ev (sc_placements s)\<rparr>, effects_new)"
| "scheduler_process (ArtifactReferenced art ns) s =
     (s\<lparr>sc_artifact_refs := AList.update art ns (sc_artifact_refs s)\<rparr>, effects_new)"
| "scheduler_process (ArtifactReleased art _) s =
     (let s = s\<lparr>sc_artifact_refs := AList.delete art (sc_artifact_refs s)\<rparr>;
          effects = (case any_worker_with_artifact (sc_placements s) art of
              Some (w, pool) \<Rightarrow> effects_new\<lparr>se_delete_commands :=
                [\<lparr>del_worker_id = w, del_artifact_id = art, del_pool_id = pool\<rparr>]\<rparr>
            | None \<Rightarrow> effects_new)
      in (s\<lparr>sc_placements := remove_artifact art (sc_placements s)\<rparr>, effects))"

section \<open>Hysteresis\<close>

lemma hysteresis_upward: "float_ge score (enter_threshold b) \<Longrightarrow> b \<le> compute_band_with_hysteresis current score"
  by (cases score; cases b; cases current)
     (auto simp: compute_band_with_hysteresis_def less_eq_pressure_band_def less_pressure_band_def)

lemma hysteresis_downward:
  "b \<noteq> BandNormal \<Longrightarrow> float_lt score (leave_threshold b) \<Longrightarrow> compute_band_with_hysteresis current score < b"
  by (cases score; cases b; cases current)
     (auto simp: compute_band_with_hysteresis_def less_eq_pressure_band_def less_pressure_band_def)

lemma hysteresis_change:
  assumes "compute_band_with_hysteresis current score \<noteq> current"
  shows "current < compute_band_with_hysteresis current score \<and>
      float_ge score (enter_threshold (compute_band_with_hysteresis current score)) \<or>
    compute_band_with_hysteresis current score < current \<and> float_lt score (leave_threshold current)"
  using assms
  by (cases score; cases current)
     (auto simp: compute_band_with_hysteresis_def less_eq_pressure_band_def less_pressure_band_def
        split: if_splits)

lemma hysteresis_idem:
  "compute_band_with_hysteresis (compute_band_with_hysteresis current score) score =
   compute_band_with_hysteresis current score"
  by (cases score; cases current)
     (auto simp: compute_band_with_hysteresis_def less_eq_pressure_band_def less_pressure_band_def)

section \<open>The choice of a worker\<close>

lemma min_fold_spec:
  "(fold (\<lambda>y m. if f y < f m then y else m) xs x) \<in> insert x (set xs) \<and>
   (\<forall>y\<in>insert x (set xs). f (fold (\<lambda>y m. if f y < f m then y else m) xs x) \<le> (f y :: 'k::linorder))"
proof (induction xs arbitrary: x)
  case (Cons y xs)
  show ?case
  proof (cases "f y < f x")
    case True
    with Cons.IH [of y] show ?thesis by (auto intro: order_trans less_imp_le)
  next
    case False
    with Cons.IH [of x] show ?thesis by (auto intro: order_trans simp: not_less)
  qed
qed simp

lemma min_by_key_None [simp]: "min_by_key f xs = None \<longleftrightarrow> xs = []"
  by (simp add: min_by_key_def split: list.split)

lemma min_by_key_Some:
  assumes "min_by_key f xs = Some x"
  shows "x \<in> set xs" "\<forall>y\<in>set xs. f x \<le> f y"
proof -
  obtain z zs where xs: "xs = z # zs" using assms by (cases xs) (auto simp: min_by_key_def)
  with assms have "x = fold (\<lambda>y m. if f y < f m then y else m) zs z" by (simp add: min_by_key_def)
  with min_fold_spec [of f zs z] xs show "x \<in> set xs" "\<forall>y\<in>set xs. f x \<le> f y" by auto
qed

lemma candidate_key_worker: "candidate_key r t c = candidate_key r t c' \<Longrightarrow> cand_worker_id c = cand_worker_id c'"
  by (simp add: candidate_key_def Let_def)

lemma select_worker_None: "select_worker cs r t = None \<longleftrightarrow> \<not> (\<exists>c\<in>set cs. eligible c)"
  by (auto simp: select_worker_def filter_empty_conv)

lemma select_worker_Some:
  "select_worker cs r t = Some w \<longleftrightarrow>
    (\<exists>c\<in>set cs. eligible c \<and> cand_worker_id c = w \<and>
       (\<forall>c'\<in>set cs. eligible c' \<longrightarrow> candidate_key r t c \<le> candidate_key r t c'))"
proof
  assume "select_worker cs r t = Some w"
  then obtain c where "min_by_key (candidate_key r t) (filter eligible cs) = Some c" "cand_worker_id c = w"
    by (auto simp: select_worker_def)
  with min_by_key_Some [of "candidate_key r t" "filter eligible cs" c]
  show "\<exists>c\<in>set cs. eligible c \<and> cand_worker_id c = w \<and>
       (\<forall>c'\<in>set cs. eligible c' \<longrightarrow> candidate_key r t c \<le> candidate_key r t c')" by auto
next
  assume "\<exists>c\<in>set cs. eligible c \<and> cand_worker_id c = w \<and>
       (\<forall>c'\<in>set cs. eligible c' \<longrightarrow> candidate_key r t c \<le> candidate_key r t c')"
  then obtain c where c: "c \<in> set cs" "eligible c" "cand_worker_id c = w"
    "\<forall>c'\<in>set cs. eligible c' \<longrightarrow> candidate_key r t c \<le> candidate_key r t c'" by blast
  then obtain m where m: "min_by_key (candidate_key r t) (filter eligible cs) = Some m"
    by (cases "min_by_key (candidate_key r t) (filter eligible cs)") (auto simp: filter_empty_conv)
  with min_by_key_Some [OF m] c have "candidate_key r t c = candidate_key r t m"
    by (auto intro: order_antisym)
  with c(3) m show "select_worker cs r t = Some w"
    by (auto simp: select_worker_def dest: candidate_key_worker)
qed

text \<open>Only the set of candidates matters, so the iteration order of the hash map does not.\<close>

lemma select_worker_set: "set cs = set cs' \<Longrightarrow> select_worker cs r t = select_worker cs' r t"
proof (cases "select_worker cs r t")
  case None
  assume "set cs = set cs'"
  with None show ?thesis using select_worker_None [of cs r t] select_worker_None [of cs' r t] by simp
next
  case (Some w)
  assume "set cs = set cs'"
  with Some show ?thesis using select_worker_Some [of cs r t w] select_worker_Some [of cs' r t w] by simp
qed

section \<open>Invariants of the scheduler\<close>

definition has_eligible :: "scheduler_core \<Rightarrow> bool" where
  "has_eligible s \<longleftrightarrow> (\<exists>c\<in>snd ` set (sc_workers s). eligible c)"

lemma sched_select_None: "sched_select s r = None \<longleftrightarrow> \<not> has_eligible s"
  by (simp add: sched_select_def select_worker_None has_eligible_def)

text \<open>No request waits while a worker could take it.\<close>

definition work_conserving :: "scheduler_core \<Rightarrow> bool" where
  "work_conserving s \<longleftrightarrow> sc_pending s = [] \<or> \<not> has_eligible s"

lemma retry_one_workers [simp]:
  "sc_workers (fst (retry_one key sd)) = sc_workers (fst sd)"
  "sc_placements (fst (retry_one key sd)) = sc_placements (fst sd)"
  "sc_artifact_refs (fst (retry_one key sd)) = sc_artifact_refs (fst sd)"
  by (cases sd; simp add: retry_one_def Let_def split: option.split)+

lemma retry_fold_workers [simp]:
  "sc_workers (fst (fold retry_one ks sd)) = sc_workers (fst sd)"
  "sc_placements (fst (fold retry_one ks sd)) = sc_placements (fst sd)"
  "sc_artifact_refs (fst (fold retry_one ks sd)) = sc_artifact_refs (fst sd)"
  by (induction ks arbitrary: sd) simp_all

lemma retry_pending_workers [simp]:
  "sc_workers (fst (retry_pending s)) = sc_workers s"
  "sc_placements (fst (retry_pending s)) = sc_placements s"
  "sc_artifact_refs (fst (retry_pending s)) = sc_artifact_refs s"
  by (simp_all add: retry_pending_def)

lemma retry_one_pending:
  assumes "has_eligible (fst sd)"
  shows "sc_pending (fst (retry_one key sd)) = AList.delete key (sc_pending (fst sd))"
proof (cases sd)
  case (Pair s ds)
  show ?thesis
  proof (cases "map_of (sc_pending s) key")
    case None
    then have "key \<notin> fst ` set (sc_pending s)" by (simp add: map_of_eq_None_iff)
    with None Pair show ?thesis by (simp add: retry_one_def delete_id)
  next
    case (Some e)
    have "sched_select (s\<lparr>sc_pending := AList.delete key (sc_pending s)\<rparr>) e \<noteq> None"
      using assms Pair by (simp only: sched_select_None) (simp add: has_eligible_def)
    then obtain w where "sched_select (s\<lparr>sc_pending := AList.delete key (sc_pending s)\<rparr>) e = Some w"
      by blast
    with Pair Some show ?thesis by (simp add: retry_one_def Let_def)
  qed
qed

lemma retry_fold_pending:
  "has_eligible (fst sd) \<Longrightarrow> sc_pending (fst (fold retry_one ks sd)) = fold AList.delete ks (sc_pending (fst sd))"
proof (induction ks arbitrary: sd)
  case (Cons k ks)
  have "has_eligible (fst (retry_one k sd))" using Cons.prems by (simp add: has_eligible_def)
  with Cons show ?case by (simp add: retry_one_pending)
qed simp

lemma delete_all_keys: "fst ` set xs \<subseteq> set ks \<Longrightarrow> fold AList.delete ks xs = []"
proof (induction ks arbitrary: xs)
  case (Cons k ks)
  have "fst ` set (AList.delete k xs) \<subseteq> set ks" using Cons.prems by (auto simp: AList.delete_eq)
  with Cons.IH show ?case by simp
qed simp

lemma retry_pending_pending:
  "sc_pending (fst (retry_pending s)) = (if has_eligible s then [] else sc_pending s)"
proof (cases "has_eligible s")
  case True
  then have all: "filter (\<lambda>(_, e). sched_select s e \<noteq> None) (sc_pending s) = sc_pending s"
    by (auto simp: filter_id_conv sched_select_None)
  show ?thesis unfolding retry_pending_def Let_def all
    using True retry_fold_pending [of "(s, [])"] by (simp add: delete_all_keys)
next
  case False
  then have "filter (\<lambda>(_, e). sched_select s e \<noteq> None) (sc_pending s) = []"
    by (auto simp: filter_empty_conv sched_select_None)
  with False show ?thesis by (simp add: retry_pending_def)
qed

lemma work_conserving_retry: "work_conserving (fst (retry_pending s))"
  by (simp add: work_conserving_def retry_pending_pending has_eligible_def)

lemma work_conserving_process:
  assumes "work_conserving s" shows "work_conserving (fst (scheduler_process inp s))"
proof (cases inp)
  case (RequestLease ns pod resume)
  show ?thesis
  proof (cases "sched_select s resume")
    case None
    then have "\<not> has_eligible s" by (simp add: sched_select_None)
    with None RequestLease show ?thesis by (simp add: work_conserving_def has_eligible_def)
  next
    case (Some w)
    with assms RequestLease show ?thesis by (simp add: work_conserving_def has_eligible_def)
  qed
next
  case (DropRequest ns pod)
  with assms show ?thesis
    by (auto simp: work_conserving_def has_eligible_def split: option.split)
next
  case (WorkerUpdate w c)
  then show ?thesis
    using work_conserving_retry by (simp add: case_prod_beta Let_def)
next
  case (WorkerRemoved w)
  with assms show ?thesis
    by (auto simp: work_conserving_def has_eligible_def Let_def AList.delete_eq)
qed (use assms in \<open>auto simp: work_conserving_def has_eligible_def Let_def\<close>)

text \<open>The table of grants is the replay of the decisions.\<close>

fun apply_decision :: "scheduler_decision \<Rightarrow> (pod_key \<rightharpoonup> worker_id) \<Rightarrow> pod_key \<rightharpoonup> worker_id" where
  "apply_decision (Grant ns pod w) m = m((ns, pod) \<mapsto> w)"
| "apply_decision (Revoke ns pod w) m = m((ns, pod) := None)"

lemma retry_one_replay:
  assumes "map_of (sc_granted (fst sd)) = fold apply_decision (snd sd) m"
  shows "map_of (sc_granted (fst (retry_one key sd))) = fold apply_decision (snd (retry_one key sd)) m"
  using assms
  by (cases sd; cases key) (simp add: retry_one_def Let_def update_conv' split: option.split)

lemma retry_fold_replay:
  "map_of (sc_granted (fst sd)) = fold apply_decision (snd sd) m \<Longrightarrow>
   map_of (sc_granted (fst (fold retry_one ks sd))) = fold apply_decision (snd (fold retry_one ks sd)) m"
  by (induction ks arbitrary: sd) (simp_all add: retry_one_replay)

lemma scheduler_replay:
  "map_of (sc_granted (fst (scheduler_process inp s))) =
     fold apply_decision (se_decisions (snd (scheduler_process inp s))) (map_of (sc_granted s))"
proof (cases inp)
  case (WorkerUpdate w c)
  have "map_of (sc_granted (fst (retry_pending s'))) =
      fold apply_decision (snd (retry_pending s')) (map_of (sc_granted s'))" for s'
    unfolding retry_pending_def Let_def by (rule retry_fold_replay) simp
  from this [of "s\<lparr>sc_workers := AList.update w c (sc_workers s)\<rparr>"] WorkerUpdate show ?thesis
    by (simp add: case_prod_beta Let_def from_decisions_def)
qed (auto simp: Let_def effects_new_def from_decisions_def update_conv' delete_conv'
      split: option.split prod.split)

text \<open>Every grant goes to an eligible worker the scheduler knows.\<close>

lemma retry_one_grants:
  assumes "\<forall>d\<in>set (snd sd). P d"
    and "\<And>key e w. sched_select (fst sd) e = Some w \<Longrightarrow> P (Grant (fst key) (snd key) w)"
  shows "\<forall>d\<in>set (snd (retry_one key sd)). P d"
  using assms
  by (cases sd) (auto simp: retry_one_def Let_def sched_select_def split: option.split)

lemma sched_select_cong:
  "sc_workers s = sc_workers s' \<Longrightarrow> sc_placements s = sc_placements s' \<Longrightarrow> sched_select s e = sched_select s' e"
  by (simp add: sched_select_def)

lemma retry_fold_grants:
  assumes "\<forall>d\<in>set (snd sd). P d"
    and "\<And>key e w. sched_select (fst sd) e = Some w \<Longrightarrow> P (Grant (fst key) (snd key) w)"
  shows "\<forall>d\<in>set (snd (fold retry_one ks sd)). P d"
  using assms
proof (induction ks arbitrary: sd)
  case (Cons k ks)
  have sel: "sched_select (fst (retry_one k sd)) e = sched_select (fst sd) e" for e
    by (rule sched_select_cong) simp_all
  have "\<forall>d\<in>set (snd (retry_one k sd)). P d" by (rule retry_one_grants [OF Cons.prems])
  then have "\<forall>d\<in>set (snd (fold retry_one ks (retry_one k sd))). P d"
    by (rule Cons.IH) (rule Cons.prems(2), simp only: sel)
  then show ?case by simp
qed simp

definition grant_ok :: "scheduler_core \<Rightarrow> scheduler_decision \<Rightarrow> bool" where
  "grant_ok s d = (case d of
       Grant _ _ w \<Rightarrow> \<exists>c. c \<in> snd ` set (sc_workers s) \<and> cand_worker_id c = w \<and> eligible c
     | Revoke ns pod w \<Rightarrow> True)"

lemma sched_select_grant_ok: "sched_select s e = Some w \<Longrightarrow> grant_ok s (Grant ns pod w)"
  unfolding sched_select_def select_worker_Some grant_ok_def scheduler_decision.case set_map by blast

lemma grant_ok_workers: "sc_workers s = sc_workers s' \<Longrightarrow> grant_ok s = grant_ok s'"
  by (rule ext) (simp add: grant_ok_def split: scheduler_decision.split)

lemma scheduler_grants_ok:
  "\<forall>d\<in>set (se_decisions (snd (scheduler_process inp s))). grant_ok (fst (scheduler_process inp s)) d"
proof (cases inp)
  case (RequestLease ns pod resume)
  show ?thesis
  proof (cases "sched_select s resume")
    case None
    with RequestLease show ?thesis by (simp add: effects_new_def)
  next
    case (Some w)
    have "grant_ok (s\<lparr>sc_granted := g\<rparr>) = grant_ok s" for g by (rule grant_ok_workers) simp
    with RequestLease Some sched_select_grant_ok [OF Some, of ns pod] show ?thesis
      by (simp add: from_decisions_def)
  qed
next
  case (DropRequest ns pod)
  then show ?thesis
    by (simp add: from_decisions_def effects_new_def grant_ok_def split: option.split)
next
  case (WorkerUpdate w c)
  let ?s = "s\<lparr>sc_workers := AList.update w c (sc_workers s)\<rparr>"
  have "\<forall>d\<in>set (snd (retry_pending ?s)). grant_ok ?s d"
    unfolding retry_pending_def Let_def
    by (rule retry_fold_grants) (simp_all add: sched_select_grant_ok)
  moreover have "grant_ok (fst (retry_pending ?s)) = grant_ok ?s"
    by (rule grant_ok_workers) (rule retry_pending_workers)
  ultimately show ?thesis using WorkerUpdate by (simp add: case_prod_beta Let_def from_decisions_def)
qed (simp_all add: Let_def effects_new_def split: option.split prod.split)

text \<open>
  Pods ask once: a request is legal when its pod holds no grant.  Then no pod is
  both waiting and granted.
\<close>

fun legal_request :: "scheduler_core \<Rightarrow> scheduler_input \<Rightarrow> bool" where
  "legal_request s (RequestLease ns pod _) = (map_of (sc_granted s) (ns, pod) = None)"
| "legal_request s _ = True"

definition tables_disjoint :: "scheduler_core \<Rightarrow> bool" where
  "tables_disjoint s \<longleftrightarrow> (\<forall>key. map_of (sc_pending s) key = None \<or> map_of (sc_granted s) key = None)"

lemma retry_one_disjoint:
  assumes "tables_disjoint (fst sd)" shows "tables_disjoint (fst (retry_one key sd))"
  using assms
  by (cases sd)
     (auto simp: retry_one_def Let_def tables_disjoint_def update_conv' delete_conv' split: option.split,
      metis option.distinct(1))

lemma retry_fold_disjoint: "tables_disjoint (fst sd) \<Longrightarrow> tables_disjoint (fst (fold retry_one ks sd))"
  by (induction ks arbitrary: sd) (simp_all add: retry_one_disjoint)

lemma tables_disjoint_process:
  assumes "tables_disjoint s" "work_conserving s" "legal_request s inp"
  shows "tables_disjoint (fst (scheduler_process inp s))"
proof (cases inp)
  case (RequestLease ns pod resume)
  show ?thesis
  proof (cases "sched_select s resume")
    case None
    with RequestLease assms show ?thesis by (auto simp: tables_disjoint_def update_conv')
  next
    case (Some w)
    then have "sc_pending s = []"
      using assms(2) sched_select_None [of s resume] by (auto simp: work_conserving_def)
    with RequestLease Some show ?thesis by (simp add: tables_disjoint_def)
  qed
next
  case (WorkerUpdate w c)
  have "tables_disjoint (fst (retry_pending s'))" if "tables_disjoint s'" for s'
    unfolding retry_pending_def Let_def using that by (intro retry_fold_disjoint) simp
  with WorkerUpdate assms(1) show ?thesis by (simp add: case_prod_beta Let_def tables_disjoint_def)
qed (use assms(1) in \<open>auto simp: tables_disjoint_def Let_def delete_conv' split: option.split\<close>)

inductive scheduler_reach :: "scheduler_core \<Rightarrow> bool" where
  start: "scheduler_reach scheduler_new"
| step: "scheduler_reach s \<Longrightarrow> legal_request s inp \<Longrightarrow> scheduler_reach (fst (scheduler_process inp s))"

lemma scheduler_reach_inv: "scheduler_reach s \<Longrightarrow> work_conserving s \<and> tables_disjoint s"
proof (induction rule: scheduler_reach.induct)
  case start
  show ?case by (simp add: work_conserving_def tables_disjoint_def scheduler_new_def)
next
  case (step s inp)
  then show ?case by (simp add: work_conserving_process tables_disjoint_process)
qed

section \<open>Artifacts and lost workers\<close>

lemma map_of_filter_nonempty:
  "distinct (map fst t) \<Longrightarrow> map_of (filter (\<lambda>(_, v). P v) t) k =
    (case map_of t k of Some v \<Rightarrow> if P v then Some v else None | None \<Rightarrow> None)"
  by (induction t) (auto simp: map_of_eq_None_iff split: option.split)

lemma workers_with_artifact_remove:
  assumes "distinct (map fst t)"
  shows "set (workers_with_artifact (remove_worker w t) art) = set (workers_with_artifact t art) - {w}"
proof -
  have "map_of (map (\<lambda>(a, ws). (a, AList.delete w ws)) t) art = map_option (AList.delete w) (map_of t art)"
    by (induction t) auto
  moreover have "distinct (map fst (map (\<lambda>(a, ws). (a, AList.delete w ws)) t))"
    using assms by (simp add: comp_def case_prod_beta)
  ultimately have "map_of (remove_worker w t) art =
      (case map_of t art of
         Some ws \<Rightarrow> if AList.delete w ws = [] then None else Some (AList.delete w ws)
       | None \<Rightarrow> None)"
    unfolding remove_worker_def
    using map_of_filter_nonempty [of "map (\<lambda>(a, ws). (a, AList.delete w ws)) t" "\<lambda>ws. ws \<noteq> []" art]
    by (auto split: option.split)
  then show ?thesis
    by (auto simp: workers_with_artifact_def AList.delete_eq filter_empty_conv split: option.split)
qed

lemma delete_refs: "fst ` set (fold AList.delete ks xs) = fst ` set xs - set ks"
  by (induction ks arbitrary: xs) (auto simp: AList.delete_eq)

lemma in_set_map_filter: "y \<in> set (List.map_filter f xs) \<longleftrightarrow> (\<exists>x\<in>set xs. f x = Some y)"
  by (induction xs) (auto simp: List.map_filter_simps split: option.split)

lemma worker_removed_effects:
  fixes s :: scheduler_core
  assumes "distinct (map fst (sc_placements s))"
    and "(s', eff) = scheduler_process (WorkerRemoved w) s"
  shows "fst ` set (sc_artifact_refs s') =
      {art \<in> fst ` set (sc_artifact_refs s). set (workers_with_artifact (sc_placements s) art) - {w} \<noteq> {}}"
    "p \<in> set (se_artifact_invalidations eff) \<longleftrightarrow>
      (\<exists>x. ArtifactId x \<in> fst ` set (sc_artifact_refs s) - fst ` set (sc_artifact_refs s') \<and> parse_u64 x = Some p)"
proof -
  let ?t = "remove_worker w (sc_placements s)"
  have empty: "workers_with_artifact ?t art = [] \<longleftrightarrow> set (workers_with_artifact (sc_placements s) art) - {w} = {}" for art
    using workers_with_artifact_remove [OF assms(1), of w art] by (metis set_empty)
  show refs: "fst ` set (sc_artifact_refs s') =
      {art \<in> fst ` set (sc_artifact_refs s). set (workers_with_artifact (sc_placements s) art) - {w} \<noteq> {}}"
    using assms(2) by (auto simp: Let_def delete_refs empty image_iff)
  show "p \<in> set (se_artifact_invalidations eff) \<longleftrightarrow>
      (\<exists>x. ArtifactId x \<in> fst ` set (sc_artifact_refs s) - fst ` set (sc_artifact_refs s') \<and> parse_u64 x = Some p)"
  proof -
    let ?un = "filter (\<lambda>art. workers_with_artifact ?t art = []) (map fst (sc_artifact_refs s))"
    have "se_artifact_invalidations eff = List.map_filter (\<lambda>art. case art of ArtifactId x \<Rightarrow> parse_u64 x) ?un"
      using assms(2) by (simp add: Let_def)
    then have "p \<in> set (se_artifact_invalidations eff) \<longleftrightarrow>
        (\<exists>art\<in>set ?un. (case art of ArtifactId x \<Rightarrow> parse_u64 x) = Some p)"
      by (simp only: in_set_map_filter)
    also have "\<dots> \<longleftrightarrow> (\<exists>x. ArtifactId x \<in> set ?un \<and> parse_u64 x = Some p)"
      by (metis artifact_id.case artifact_id.exhaust)
    also have "set ?un = fst ` set (sc_artifact_refs s) - fst ` set (sc_artifact_refs s')"
      unfolding refs by (auto simp: empty)
    finally show ?thesis .
  qed
qed

lemma distinct_remove_worker: "distinct (map fst t) \<Longrightarrow> distinct (map fst (remove_worker w t))"
proof -
  assume "distinct (map fst t)"
  then have "distinct (map fst (map (\<lambda>(art, ws). (art, AList.delete w ws)) t))"
    by (simp add: comp_def case_prod_beta)
  then show ?thesis unfolding remove_worker_def by (rule distinct_map_filter)
qed

lemma distinct_apply_event: "distinct (map fst t) \<Longrightarrow> distinct (map fst (apply_event w ev t))"
  by (cases ev) (auto simp: placement_put_def distinct_update distinct_delete Let_def split: option.split)

lemma distinct_placements_process:
  "distinct (map fst (sc_placements s)) \<Longrightarrow> distinct (map fst (sc_placements (fst (scheduler_process inp s))))"
  by (cases inp)
     (auto simp: Let_def case_prod_beta distinct_remove_worker distinct_apply_event remove_artifact_def
        distinct_delete split: option.split)

lemma scheduler_reach_placements: "scheduler_reach s \<Longrightarrow> distinct (map fst (sc_placements s))"
  by (induction rule: scheduler_reach.induct)
     (simp add: scheduler_new_def, rule distinct_placements_process)

section \<open>Properties\<close>

text \<open>
  C36.  The scheduler is work-conserving: in every state reached by legal requests,
  if any request waits then no known worker could take a pod, and no pod both
  waits and holds a grant.
\<close>

theorem scheduler_work_conserving:
  assumes "scheduler_reach s"
  shows "(sc_pending s = [] \<or> (\<nexists>c. c \<in> snd ` set (sc_workers s) \<and> eligible c)) \<and>
    (\<forall>key. map_of (sc_pending s) key = None \<or> map_of (sc_granted s) key = None)"
  using scheduler_reach_inv [OF assms]
  by (auto simp: work_conserving_def has_eligible_def tables_disjoint_def)

theorem scheduler_work_conserving_witness:
  "scheduler_reach (fst (scheduler_process (RequestLease \<lparr>ns_name = ''a'', ns_incarnation = 1\<rparr> (PodId 0) None) scheduler_new)) \<and>
   (\<nexists>c. c \<in> snd ` set (sc_workers (fst (scheduler_process
      (RequestLease \<lparr>ns_name = ''a'', ns_incarnation = 1\<rparr> (PodId 0) None) scheduler_new))) \<and> eligible c)"
proof -
  let ?s = "fst (scheduler_process (RequestLease \<lparr>ns_name = ''a'', ns_incarnation = 1\<rparr> (PodId 0) None) scheduler_new)"
  have r: "scheduler_reach ?s"
    by (rule scheduler_reach.step [OF scheduler_reach.start]) (simp add: scheduler_new_def)
  moreover have "sc_pending ?s \<noteq> []"
    by (simp add: scheduler_new_def sched_select_def select_worker_def min_by_key_def)
  ultimately show ?thesis using scheduler_work_conserving [OF r] by blast
qed

text \<open>
   Grants are sound: every grant goes to a known worker that is active, not
  draining and below high pressure, and the table of grants after an input is
  the one before it with the emitted decisions replayed, so the namespaces,
  which see only the decisions, agree with the scheduler.
\<close>

theorem scheduler_decisions_sound:
  "(\<forall>ns pod w. Grant ns pod w \<in> set (se_decisions (snd (scheduler_process inp s))) \<longrightarrow>
      (\<exists>c. c \<in> snd ` set (sc_workers (fst (scheduler_process inp s))) \<and> cand_worker_id c = w \<and>
         cand_active c \<and> \<not> cand_draining c \<and> cand_max_pressure_band c < BandHigh)) \<and>
   map_of (sc_granted (fst (scheduler_process inp s))) =
     fold apply_decision (se_decisions (snd (scheduler_process inp s))) (map_of (sc_granted s))"
proof (intro conjI allI impI)
  fix ns pod w
  assume "Grant ns pod w \<in> set (se_decisions (snd (scheduler_process inp s)))"
  with scheduler_grants_ok [of inp s] have "grant_ok (fst (scheduler_process inp s)) (Grant ns pod w)" by blast
  then show "\<exists>c. c \<in> snd ` set (sc_workers (fst (scheduler_process inp s))) \<and> cand_worker_id c = w \<and>
         cand_active c \<and> \<not> cand_draining c \<and> cand_max_pressure_band c < BandHigh"
    by (auto simp: grant_ok_def eligible_def)
qed (rule scheduler_replay)

theorem scheduler_decisions_sound_witness:
  "map_of (sc_granted (fst (scheduler_process (DropRequest \<lparr>ns_name = ''a'', ns_incarnation = 1\<rparr> (PodId 0))
      (scheduler_new\<lparr>sc_granted := [((\<lparr>ns_name = ''a'', ns_incarnation = 1\<rparr>, PodId 0), WorkerId 4)]\<rparr>))))
     (\<lparr>ns_name = ''a'', ns_incarnation = 1\<rparr>, PodId 0) = None"
  using scheduler_decisions_sound [of "DropRequest \<lparr>ns_name = ''a'', ns_incarnation = 1\<rparr> (PodId 0)"
      "scheduler_new\<lparr>sc_granted := [((\<lparr>ns_name = ''a'', ns_incarnation = 1\<rparr>, PodId 0), WorkerId 4)]\<rparr>"]
  by (simp add: scheduler_new_def from_decisions_def)

text \<open>
   The worker chosen is the best eligible one (a holder of the artifact first,
  then the lowest pressure band, pod count and identifier), there is one
  whenever some worker is eligible, and the order in which the candidates are
  enumerated does not matter.
\<close>

theorem select_worker_best:
  "(select_worker cs r t = Some w \<longleftrightarrow>
      (\<exists>c. c \<in> set cs \<and> eligible c \<and> cand_worker_id c = w \<and>
         (\<forall>c'. c' \<in> set cs \<longrightarrow> eligible c' \<longrightarrow> candidate_key r t c \<le> candidate_key r t c'))) \<and>
   (select_worker cs r t = None \<longleftrightarrow> (\<nexists>c. c \<in> set cs \<and> eligible c)) \<and>
   (set cs' = set cs \<longrightarrow> select_worker cs' r t = select_worker cs r t)"
  using select_worker_Some [of cs r t w] select_worker_None [of cs r t] select_worker_set [of cs' cs r t]
  by blast

theorem select_worker_best_witness:
  "select_worker [\<lparr>cand_worker_id = WorkerId 2, cand_max_pressure_band = BandNormal, cand_pod_count = 1,
        cand_draining = False, cand_active = True\<rparr>,
      \<lparr>cand_worker_id = WorkerId 1, cand_max_pressure_band = BandElevated, cand_pod_count = 0,
        cand_draining = False, cand_active = True\<rparr>] None [] = Some (WorkerId 2) \<and>
   select_worker [\<lparr>cand_worker_id = WorkerId 1, cand_max_pressure_band = BandElevated, cand_pod_count = 0,
        cand_draining = False, cand_active = True\<rparr>,
      \<lparr>cand_worker_id = WorkerId 2, cand_max_pressure_band = BandNormal, cand_pod_count = 1,
        cand_draining = False, cand_active = True\<rparr>] None [] = Some (WorkerId 2)"
proof -
  let ?a = "\<lparr>cand_worker_id = WorkerId 2, cand_max_pressure_band = BandNormal, cand_pod_count = 1,
        cand_draining = False, cand_active = True\<rparr>"
  let ?b = "\<lparr>cand_worker_id = WorkerId 1, cand_max_pressure_band = BandElevated, cand_pod_count = 0,
        cand_draining = False, cand_active = True\<rparr>"
  have "select_worker [?a, ?b] None [] = Some (WorkerId 2)" by code_simp
  moreover have "set [?b, ?a] = set [?a, ?b]" by auto
  ultimately show ?thesis using select_worker_best [of "[?a, ?b]" None "[]" "WorkerId 2" "[?b, ?a]"] by simp
qed

text \<open>
   When a worker is lost, the artifacts still referenced are exactly those with
  a ready copy on another worker, and the invalidations sent out are those of
  the references dropped.
\<close>

theorem worker_removed_invalidates:
  assumes "scheduler_reach s" "scheduler_process (WorkerRemoved w) s = (s', eff)"
  shows "fst ` set (sc_artifact_refs s') =
      {art \<in> fst ` set (sc_artifact_refs s). \<exists>w'. w' \<noteq> w \<and> w' \<in> set (workers_with_artifact (sc_placements s) art)} \<and>
    (p \<in> set (se_artifact_invalidations eff) \<longleftrightarrow>
      (\<exists>x. ArtifactId x \<in> fst ` set (sc_artifact_refs s) - fst ` set (sc_artifact_refs s') \<and> parse_u64 x = Some p))"
  using worker_removed_effects [OF scheduler_reach_placements [OF assms(1)] assms(2) [symmetric]] by auto

theorem worker_removed_invalidates_witness:
  "se_artifact_invalidations (snd (scheduler_process (WorkerRemoved (WorkerId 1))
     (fst (scheduler_process (ArtifactReferenced (ArtifactId ''7'') \<lparr>ns_name = ''a'', ns_incarnation = 1\<rparr>)
        scheduler_new)))) = [7] \<and>
   (\<exists>x. ArtifactId x \<in> fst ` set (sc_artifact_refs
      (fst (scheduler_process (ArtifactReferenced (ArtifactId ''7'') \<lparr>ns_name = ''a'', ns_incarnation = 1\<rparr>)
        scheduler_new))) \<and> parse_u64 x = Some 7)"
proof -
  let ?s = "fst (scheduler_process (ArtifactReferenced (ArtifactId ''7'') \<lparr>ns_name = ''a'', ns_incarnation = 1\<rparr>)
        scheduler_new)"
  have r: "scheduler_reach ?s" by (rule scheduler_reach.step [OF scheduler_reach.start]) simp
  have e: "se_artifact_invalidations (snd (scheduler_process (WorkerRemoved (WorkerId 1)) ?s)) = [7]"
    by code_simp
  obtain s' eff where p: "scheduler_process (WorkerRemoved (WorkerId 1)) ?s = (s', eff)" by force
  with e have "7 \<in> set (se_artifact_invalidations eff)" by simp
  with worker_removed_invalidates [OF r p, of 7] e show ?thesis by blast
qed

text \<open>
   Pressure bands follow their thresholds with hysteresis: a score at an enter
  threshold puts the dimension at least into that band, a score below the leave
  threshold of a band puts it below the band, the band changes only across such
  a threshold, and applying the same score again changes nothing.
\<close>

theorem pressure_hysteresis:
  "(float_ge score (enter_threshold b) \<longrightarrow> b \<le> compute_band_with_hysteresis current score) \<and>
   (b \<noteq> BandNormal \<and> float_lt score (leave_threshold b) \<longrightarrow>
      compute_band_with_hysteresis current score < b) \<and>
   (compute_band_with_hysteresis current score \<noteq> current \<longrightarrow>
      float_ge score (enter_threshold (compute_band_with_hysteresis current score)) \<or>
      float_lt score (leave_threshold current)) \<and>
   compute_band_with_hysteresis (compute_band_with_hysteresis current score) score =
     compute_band_with_hysteresis current score"
  using hysteresis_upward [of score b current] hysteresis_downward [of b score current]
    hysteresis_change [of current score] hysteresis_idem [of current score] by blast

theorem pressure_hysteresis_witness:
  "compute_band_with_hysteresis BandHigh (FFin (3 / 4)) = BandHigh \<and>
   BandHigh \<le> compute_band_with_hysteresis BandNormal (FFin (9 / 10))"
  using pressure_hysteresis [of "FFin (9 / 10)" BandHigh BandNormal]
  by (simp add: compute_band_with_hysteresis_def less_pressure_band_def)

end
