(* ===== verification/Orchestrator.thy ===== *)
theory Orchestrator
  imports Scheduler Ip_Alloc
begin

text \<open>
  The orchestrator core: the state tracked per worker
  (\<open>core/orchestrator/worker_state.rs\<close>) and the coordinator that owns the
  scheduler, the worker states and the registry of namespaces
  (\<open>core/orchestrator/mod.rs\<close>, \<open>core/types.rs\<close>).

  The coordinator routes the effects of one part into the other: a grant changes
  the pod count of a worker, which updates the scheduler, which may grant again.
  The routing carries a bound on its depth and is shown never to reach it.  The
  lemmas show that the scheduler always decides on the current worker states,
  that namespaces have distinct network segments, and that every connected
  worker is registered for exactly the segments in use.
\<close>

section \<open>Worker states\<close>

record worker_tunnel_info =
  wti_listen_port :: u16
  wti_public_key :: "u8 list"

record wireguard_adapter_info =
  wai_listen_port :: u16
  wai_public_key :: "u8 list"

record psi_metrics =
  psi_some_avg10 :: float_val
  psi_some_avg60 :: float_val
  psi_full_avg10 :: float_val
  psi_full_avg60 :: float_val

record worker_psi =
  wpsi_cpu :: psi_metrics
  wpsi_memory :: psi_metrics
  wpsi_io :: psi_metrics

record tracked_worker =
  tw_pressure_bands :: pressure_bands
  tw_pressure :: worker_pressure
  tw_psi :: "worker_psi option"
  tw_capabilities :: worker_capabilities
  tw_conditions :: "(string \<times> bool) list"
  tw_pod_count :: u64
  tw_tunnel_info :: "worker_tunnel_info option"
  tw_wireguard_info :: "wireguard_adapter_info option"
  tw_proto_worker_id :: worker_id
  tw_segments :: "u16 list"

definition bands_default :: pressure_bands where
  "bands_default = \<lparr>pb_compute = BandNormal, pb_memory = BandNormal, pb_storage = BandNormal,
     pb_network = BandNormal\<rparr>"

definition tracked_worker_new ::
  "worker_capabilities \<Rightarrow> worker_tunnel_info option \<Rightarrow> wireguard_adapter_info option \<Rightarrow> worker_id \<Rightarrow>
   tracked_worker" where
  "tracked_worker_new capabilities tunnel_info wireguard_info proto_worker_id =
     \<lparr>tw_pressure_bands = bands_default,
      tw_pressure = \<lparr>pr_compute = FFin 0, pr_memory = FFin 0, pr_storage = FFin 0, pr_network = FFin 0\<rparr>,
      tw_psi = None, tw_capabilities = capabilities, tw_conditions = [], tw_pod_count = 0,
      tw_tunnel_info = tunnel_info, tw_wireguard_info = wireguard_info,
      tw_proto_worker_id = proto_worker_id, tw_segments = []\<rparr>"

definition to_candidate :: "worker_id \<Rightarrow> tracked_worker \<Rightarrow> worker_candidate" where
  "to_candidate w st =
     \<lparr>cand_worker_id = w, cand_max_pressure_band = max_band (tw_pressure_bands st),
      cand_pod_count = tw_pod_count st,
      cand_draining = unwrap_or (map_of (tw_conditions st) ''draining'') False,
      cand_active = True\<rparr>"

definition psi_score :: "psi_metrics \<Rightarrow> float_val" where
  "psi_score m = f32_clamp01 (f32_div100 (f64_as_f32 (psi_some_avg10 m)))"

definition recompute_pressure_from_psi :: "tracked_worker \<Rightarrow> tracked_worker" where
  "recompute_pressure_from_psi st = (case tw_psi st of
       None \<Rightarrow> st
     | Some psi \<Rightarrow>
         let st = st\<lparr>tw_pressure := \<lparr>pr_compute = psi_score (wpsi_cpu psi),
               pr_memory = psi_score (wpsi_memory psi), pr_storage = psi_score (wpsi_io psi),
               pr_network = FFin 0\<rparr>\<rparr>
         in st\<lparr>tw_pressure_bands := update_bands (tw_pressure st) (tw_pressure_bands st)\<rparr>)"

text \<open>Decimal printing of a port number.\<close>

fun show_nat :: "nat \<Rightarrow> string" where
  "show_nat n = (if n < 10 then [char_of (48 + n)] else show_nat (n div 10) @ [char_of (48 + n mod 10)])"

declare show_nat.simps [simp del]

definition to_peer_info :: "tracked_worker \<Rightarrow> worker_peer_info option" where
  "to_peer_info st = (case tw_tunnel_info st of
       None \<Rightarrow> None
     | Some tunnel \<Rightarrow>
         if wc_public_endpoint (tw_capabilities st) = [] then None
         else Some \<lparr>wp_worker_id = tw_proto_worker_id st,
                wp_endpoint = wc_public_endpoint (tw_capabilities st) @ '':'' @
                  show_nat (unat (wti_listen_port tunnel)),
                wp_public_key = wti_public_key tunnel, wp_segments = tw_segments st\<rparr>)"

record worker_query_info =
  wq_worker_id :: worker_id
  wq_max_pods :: u32
  wq_available_memory_mb :: u64
  wq_active_pods :: u32
  wq_conditions :: "(string \<times> bool) list"

record worker_state_core =
  ws_workers :: "(worker_id \<times> tracked_worker) list"
  ws_namespace_segments :: "(namespace_id \<times> u16) list"

datatype worker_state_event =
    PressureUpdate worker_id psi_metrics psi_metrics psi_metrics
  | PoolCapacityUpdate worker_id "pool_info list"
  | ConditionUpdate worker_id string bool string
  | Connected worker_id worker_capabilities "worker_tunnel_info option" "wireguard_adapter_info option" worker_id
  | Disconnected worker_id
  | NamespaceAssigned worker_id namespace_id
  | NamespaceUnassigned worker_id namespace_id
  | RegisterNamespaceSegment namespace_id u16
  | UnregisterNamespaceSegment namespace_id
  | PodCountChange worker_id i32

record worker_state_effects =
  we_scheduler_updates :: "scheduler_input list"
  we_registry_broadcast :: "worker_command option"

definition worker_state_new :: worker_state_core where
  "worker_state_new = \<lparr>ws_workers = [], ws_namespace_segments = []\<rparr>"

definition ws_effects_none :: worker_state_effects where
  "ws_effects_none = \<lparr>we_scheduler_updates = [], we_registry_broadcast = None\<rparr>"

definition build_worker_registry :: "worker_state_core \<Rightarrow> worker_peer_info list" where
  "build_worker_registry ws = List.map_filter to_peer_info (map snd (ws_workers ws))"

definition build_worker_registry_command :: "worker_state_core \<Rightarrow> worker_command" where
  "build_worker_registry_command ws = WorkerRegistrySync (build_worker_registry ws)"

text \<open>
  A change of the pod count goes through a signed 32-bit addition and is cut off
  below zero.
\<close>

definition add_pod_count :: "u64 \<Rightarrow> i32 \<Rightarrow> u64" where
  "add_pod_count n delta =
     (let sum = (ucast n :: i32) + delta in if sint sum < 0 then 0 else ucast sum)"

definition ws_put :: "worker_id \<Rightarrow> tracked_worker \<Rightarrow> worker_state_core \<Rightarrow> worker_state_core" where
  "ws_put w st ws = ws\<lparr>ws_workers := AList.update w st (ws_workers ws)\<rparr>"

definition ws_put_update ::
  "worker_id \<Rightarrow> tracked_worker \<Rightarrow> worker_state_core \<Rightarrow> worker_state_core \<times> worker_state_effects" where
  "ws_put_update w st ws =
     (ws_put w st ws, ws_effects_none\<lparr>we_scheduler_updates := [WorkerUpdate w (to_candidate w st)]\<rparr>)"

fun worker_state_process ::
  "worker_state_event \<Rightarrow> worker_state_core \<Rightarrow> worker_state_core \<times> worker_state_effects" where
  "worker_state_process (PressureUpdate w cpu memory io) ws = (case map_of (ws_workers ws) w of
       Some st \<Rightarrow> ws_put_update w (recompute_pressure_from_psi
         (st\<lparr>tw_psi := Some \<lparr>wpsi_cpu = cpu, wpsi_memory = memory, wpsi_io = io\<rparr>\<rparr>)) ws
     | None \<Rightarrow> (ws, ws_effects_none))"
| "worker_state_process (PoolCapacityUpdate w pools) ws = (case map_of (ws_workers ws) w of
       Some st \<Rightarrow> (ws_put w (st\<lparr>tw_capabilities := (tw_capabilities st)\<lparr>wc_pools := pools\<rparr>\<rparr>) ws, ws_effects_none)
     | None \<Rightarrow> (ws, ws_effects_none))"
| "worker_state_process (ConditionUpdate w key active _) ws = (case map_of (ws_workers ws) w of
       Some st \<Rightarrow> ws_put_update w (st\<lparr>tw_conditions := AList.update key active (tw_conditions st)\<rparr>) ws
     | None \<Rightarrow> (ws, ws_effects_none))"
| "worker_state_process (Connected w capabilities tunnel_info wireguard_info proto_worker_id) ws =
     (let st = tracked_worker_new capabilities tunnel_info wireguard_info proto_worker_id;
          (ws, effects) = ws_put_update w st ws
      in (ws, effects\<lparr>we_registry_broadcast := Some (build_worker_registry_command ws)\<rparr>))"
| "worker_state_process (Disconnected w) ws =
     (let ws = ws\<lparr>ws_workers := AList.delete w (ws_workers ws)\<rparr>
      in (ws, \<lparr>we_scheduler_updates = [WorkerRemoved w],
               we_registry_broadcast = Some (build_worker_registry_command ws)\<rparr>))"
| "worker_state_process (NamespaceAssigned w ns) ws = (case map_of (ws_workers ws) w of
       None \<Rightarrow> (ws, ws_effects_none)
     | Some st \<Rightarrow> (case map_of (ws_namespace_segments ws) ns of
           None \<Rightarrow> (ws, ws_effects_none)
         | Some segment \<Rightarrow>
             if segment \<notin> set (tw_segments st)
             then (let ws = ws_put w (st\<lparr>tw_segments := tw_segments st @ [segment]\<rparr>) ws
                   in (ws, ws_effects_none\<lparr>we_registry_broadcast := Some (build_worker_registry_command ws)\<rparr>))
             else (ws, ws_effects_none)))"
| "worker_state_process (NamespaceUnassigned w ns) ws = (case map_of (ws_workers ws) w of
       None \<Rightarrow> (ws, ws_effects_none)
     | Some st \<Rightarrow> (case map_of (ws_namespace_segments ws) ns of
           None \<Rightarrow> (ws, ws_effects_none)
         | Some segment \<Rightarrow>
             if segment \<in> set (tw_segments st)
             then (let ws = ws_put w (st\<lparr>tw_segments := removeAll segment (tw_segments st)\<rparr>) ws
                   in (ws, ws_effects_none\<lparr>we_registry_broadcast := Some (build_worker_registry_command ws)\<rparr>))
             else (ws, ws_effects_none)))"
| "worker_state_process (RegisterNamespaceSegment ns segment) ws =
     (ws\<lparr>ws_namespace_segments := AList.update ns segment (ws_namespace_segments ws)\<rparr>, ws_effects_none)"
| "worker_state_process (UnregisterNamespaceSegment ns) ws =
     (ws\<lparr>ws_namespace_segments := AList.delete ns (ws_namespace_segments ws)\<rparr>, ws_effects_none)"
| "worker_state_process (PodCountChange w delta) ws = (case map_of (ws_workers ws) w of
       Some st \<Rightarrow> ws_put_update w (recompute_pressure_from_psi
         (st\<lparr>tw_pod_count := add_pod_count (tw_pod_count st) delta\<rparr>)) ws
     | None \<Rightarrow> (ws, ws_effects_none))"

definition find_wireguard_worker ::
  "worker_state_core \<Rightarrow> (worker_id \<times> wireguard_adapter_info \<times> string) option" where
  "find_wireguard_worker ws = find_map (\<lambda>(w, st). case tw_wireguard_info st of
       None \<Rightarrow> None
     | Some wg \<Rightarrow>
         if wc_public_endpoint (tw_capabilities st) \<noteq> []
         then Some (w, wg, wc_public_endpoint (tw_capabilities st)) else None) (ws_workers ws)"

definition worker_query_of :: "worker_id \<Rightarrow> tracked_worker \<Rightarrow> worker_query_info" where
  "worker_query_of w st =
     \<lparr>wq_worker_id = w, wq_max_pods = wc_max_pods (tw_capabilities st),
      wq_available_memory_mb = wc_available_memory_mb (tw_capabilities st),
      wq_active_pods = ucast (tw_pod_count st), wq_conditions = tw_conditions st\<rparr>"

definition query_worker :: "worker_id \<Rightarrow> worker_state_core \<Rightarrow> worker_query_info option" where
  "query_worker w ws = map_option (worker_query_of w) (map_of (ws_workers ws) w)"

definition query_all_workers :: "worker_state_core \<Rightarrow> worker_query_info list" where
  "query_all_workers ws = map (\<lambda>(w, st). worker_query_of w st) (ws_workers ws)"

section \<open>The orchestrator\<close>

datatype scheduler_message =
    MsgRequestLease namespace_id pod_id "artifact_id option"
  | MsgDropRequest namespace_id pod_id
  | MsgArtifactReferenced namespace_id artifact_id
  | MsgArtifactReleased namespace_id artifact_id

fun scheduler_message_to_input :: "scheduler_message \<Rightarrow> scheduler_input" where
  "scheduler_message_to_input (MsgRequestLease ns pod resume) = RequestLease ns pod resume"
| "scheduler_message_to_input (MsgDropRequest ns pod) = DropRequest ns pod"
| "scheduler_message_to_input (MsgArtifactReferenced ns art) = ArtifactReferenced art ns"
| "scheduler_message_to_input (MsgArtifactReleased ns art) = ArtifactReleased art ns"

datatype orchestrator_to_namespace =
    ToWorkerConnected worker_id worker_id worker_info
  | ToWorkerDisconnected worker_id
  | ToSchedulerDecision scheduler_decision
  | ToArtifactInvalidated artifact_port_id

record orchestrator_output =
  oo_to_namespaces :: "(namespace_id \<times> orchestrator_to_namespace) list"
  oo_worker_commands :: "(worker_id \<times> worker_command) list"
  oo_direct_worker_commands :: "(worker_id \<times> worker_command) list"
  oo_global_broadcasts :: "worker_command list"

definition output_default :: orchestrator_output where
  "output_default = \<lparr>oo_to_namespaces = [], oo_worker_commands = [], oo_direct_worker_commands = [],
     oo_global_broadcasts = []\<rparr>"

record connected_worker_info =
  cw_proto_worker_id :: worker_id
  cw_max_pods :: u32
  cw_default_pool :: "pool_id option"

record orchestrator_core =
  oc_scheduler :: scheduler_core
  oc_worker_state :: worker_state_core
  oc_connected_workers :: "(worker_id \<times> connected_worker_info) list"
  oc_namespace_ids :: "namespace_id list"
  oc_namespace_names :: "(string \<times> namespace_id) list"
  oc_next_namespace_id :: u64
  oc_next_segment_id :: u16
  oc_active_segment_ids :: "u16 set"
  oc_namespace_segments :: "(namespace_id \<times> u16) list"
  oc_namespace_networks :: "(namespace_id \<times> network_config) list"

definition orchestrator_new :: orchestrator_core where
  "orchestrator_new =
     \<lparr>oc_scheduler = scheduler_new, oc_worker_state = worker_state_new, oc_connected_workers = [],
      oc_namespace_ids = [], oc_namespace_names = [], oc_next_namespace_id = 1, oc_next_segment_id = 1,
      oc_active_segment_ids = {}, oc_namespace_segments = [], oc_namespace_networks = []\<rparr>"

text \<open>
  Routing.  The two functions call each other; their first argument bounds the
  depth of the calls, and \<open>None\<close> means that the bound was hit.
\<close>

type_synonym orch = "orchestrator_core \<times> orchestrator_output"

fun fold_opt :: "('a \<Rightarrow> 's \<Rightarrow> 's option) \<Rightarrow> 'a list \<Rightarrow> 's \<Rightarrow> 's option" where
  "fold_opt f [] s = Some s"
| "fold_opt f (x # xs) s = (case f x s of None \<Rightarrow> None | Some s' \<Rightarrow> fold_opt f xs s')"

fun decision_event :: "scheduler_decision \<Rightarrow> worker_state_event" where
  "decision_event (Grant ns pod w) = PodCountChange w 1"
| "decision_event (Revoke ns pod w) = PodCountChange w (- 1)"

fun decision_namespace :: "scheduler_decision \<Rightarrow> namespace_id" where
  "decision_namespace (Grant ns pod w) = ns"
| "decision_namespace (Revoke ns pod w) = ns"

definition push_decision :: "scheduler_decision \<Rightarrow> orch \<Rightarrow> orch" where
  "push_decision d = (\<lambda>(oc, out). (oc, out\<lparr>oo_to_namespaces := oo_to_namespaces out @
     [(decision_namespace d, ToSchedulerDecision d)]\<rparr>))"

definition push_invalidations :: "u64 list \<Rightarrow> orch \<Rightarrow> orch" where
  "push_invalidations ports = (\<lambda>(oc, out). (oc, out\<lparr>oo_to_namespaces := oo_to_namespaces out @
     concat (map (\<lambda>p. map (\<lambda>ns. (ns, ToArtifactInvalidated (ArtifactPortId p))) (oc_namespace_ids oc)) ports)\<rparr>))"

definition push_deletes :: "delete_artifact_command list \<Rightarrow> orch \<Rightarrow> orch" where
  "push_deletes cmds = (\<lambda>(oc, out). (oc, out\<lparr>oo_worker_commands := oo_worker_commands out @
     map (\<lambda>c. (del_worker_id c, DeleteArtifact (del_artifact_id c) (del_pool_id c))) cmds\<rparr>))"

definition push_broadcast :: "worker_command option \<Rightarrow> orch \<Rightarrow> orch" where
  "push_broadcast cmd = (\<lambda>(oc, out). (oc, out\<lparr>oo_global_broadcasts := oo_global_broadcasts out @ opt_list cmd\<rparr>))"

definition ws_step :: "worker_state_event \<Rightarrow> orchestrator_core \<Rightarrow> orchestrator_core \<times> worker_state_effects" where
  "ws_step ev oc =
     (let (ws, effects) = worker_state_process ev (oc_worker_state oc)
      in (oc\<lparr>oc_worker_state := ws\<rparr>, effects))"

definition sched_step :: "scheduler_input \<Rightarrow> orchestrator_core \<Rightarrow> orchestrator_core \<times> scheduler_effects" where
  "sched_step inp oc =
     (let (sched, effects) = scheduler_process inp (oc_scheduler oc)
      in (oc\<lparr>oc_scheduler := sched\<rparr>, effects))"

definition on_decision ::
  "(worker_state_effects \<Rightarrow> orch \<Rightarrow> orch option) \<Rightarrow> scheduler_decision \<Rightarrow> orch \<Rightarrow> orch option" where
  "on_decision route d = (\<lambda>(oc, out).
     let (oc, e) = ws_step (decision_event d) oc in map_option (push_decision d) (route e (oc, out)))"

definition on_update ::
  "(scheduler_effects \<Rightarrow> orch \<Rightarrow> orch option) \<Rightarrow> scheduler_input \<Rightarrow> orch \<Rightarrow> orch option" where
  "on_update route update = (\<lambda>(oc, out). let (oc, e) = sched_step update oc in route e (oc, out))"

fun route_worker_state_effects :: "nat \<Rightarrow> worker_state_effects \<Rightarrow> orch \<Rightarrow> orch option"
  and route_scheduler_effects :: "nat \<Rightarrow> scheduler_effects \<Rightarrow> orch \<Rightarrow> orch option" where
  "route_worker_state_effects 0 effects s = None"
| "route_worker_state_effects (Suc n) effects s =
     map_option (push_broadcast (we_registry_broadcast effects))
       (fold_opt (on_update (\<lambda>e s. route_scheduler_effects n e s)) (we_scheduler_updates effects) s)"
| "route_scheduler_effects 0 effects s = None"
| "route_scheduler_effects (Suc n) effects s =
     map_option (\<lambda>s. push_deletes (se_delete_commands effects)
         (push_invalidations (se_artifact_invalidations effects) s))
       (fold_opt (on_decision (\<lambda>e s. route_worker_state_effects n e s)) (se_decisions effects) s)"

declare route_worker_state_effects.simps [simp del] route_scheduler_effects.simps [simp del]

lemmas route_ws_Suc = route_worker_state_effects.simps(2)
lemmas route_sched_Suc = route_scheduler_effects.simps(2)

text \<open>Six levels are enough for every input (see below).\<close>

definition ROUTE_DEPTH :: nat where
  "ROUTE_DEPTH = 6"

definition ws_route :: "worker_state_event \<Rightarrow> orch \<Rightarrow> orch option" where
  "ws_route ev = (\<lambda>(oc, out). let (oc, e) = ws_step ev oc in route_worker_state_effects ROUTE_DEPTH e (oc, out))"

definition sched_route :: "scheduler_input \<Rightarrow> orch \<Rightarrow> orch option" where
  "sched_route inp = (\<lambda>(oc, out). let (oc, e) = sched_step inp oc in route_scheduler_effects ROUTE_DEPTH e (oc, out))"

datatype orchestrator_input =
    WorkerStateEvent worker_state_event
  | SchedulerEvent scheduler_input
  | FromNamespace namespace_id scheduler_message

fun orchestrator_process :: "orchestrator_input \<Rightarrow> orchestrator_core \<Rightarrow> orch option" where
  "orchestrator_process (WorkerStateEvent ev) oc = ws_route ev (oc, output_default)"
| "orchestrator_process (SchedulerEvent inp) oc = sched_route inp (oc, output_default)"
| "orchestrator_process (FromNamespace ns msg) oc =
     sched_route (scheduler_message_to_input msg) (oc, output_default)"

section \<open>Worker and namespace life cycles\<close>

record worker_connected_info =
  wci_worker_id :: worker_id
  wci_capabilities :: worker_capabilities
  wci_tunnel_info :: "worker_tunnel_info option"
  wci_wireguard_info :: "wireguard_adapter_info option"
  wci_proto_worker_id :: worker_id

definition announce_worker ::
  "worker_connected_info \<Rightarrow> namespace_id \<Rightarrow> orch \<Rightarrow> orch option" where
  "announce_worker info ns = (\<lambda>(oc, out).
     let w = wci_worker_id info;
         out = (case map_of (oc_namespace_networks oc) ns of
             Some network \<Rightarrow> out\<lparr>oo_direct_worker_commands := oo_direct_worker_commands out @
               [(w, CreateNamespace ns network)]\<rparr>
           | None \<Rightarrow> out);
         out = out\<lparr>oo_to_namespaces := oo_to_namespaces out @
           [(ns, ToWorkerConnected w (wci_proto_worker_id info)
              \<lparr>wi_capacity = wc_max_pods (wci_capabilities info),
               wi_default_pool = map_option pi_pool_id (first (wc_pools (wci_capabilities info)))\<rparr>)]\<rparr>
     in ws_route (NamespaceAssigned w ns) (oc, out))"

definition worker_connected :: "worker_connected_info \<Rightarrow> orchestrator_core \<Rightarrow> orch option" where
  "worker_connected info oc =
     (let w = wci_worker_id info;
          oc = oc\<lparr>oc_connected_workers := AList.update w
            \<lparr>cw_proto_worker_id = wci_proto_worker_id info,
             cw_max_pods = wc_max_pods (wci_capabilities info),
             cw_default_pool = map_option pi_pool_id (first (wc_pools (wci_capabilities info)))\<rparr>
            (oc_connected_workers oc)\<rparr>
      in Option.bind (ws_route (Connected w (wci_capabilities info) (wci_tunnel_info info)
             (wci_wireguard_info info) (wci_proto_worker_id info)) (oc, output_default))
           (fold_opt (announce_worker info) (oc_namespace_ids oc)))"

definition withdraw_worker :: "worker_id \<Rightarrow> namespace_id \<Rightarrow> orch \<Rightarrow> orch option" where
  "withdraw_worker w ns = (\<lambda>(oc, out).
     ws_route (NamespaceUnassigned w ns)
       (oc, out\<lparr>oo_to_namespaces := oo_to_namespaces out @ [(ns, ToWorkerDisconnected w)]\<rparr>))"

definition worker_disconnected :: "worker_id \<Rightarrow> orchestrator_core \<Rightarrow> orch option" where
  "worker_disconnected w oc =
     (let oc = oc\<lparr>oc_connected_workers := AList.delete w (oc_connected_workers oc)\<rparr>
      in Option.bind (ws_route (Disconnected w) (oc, output_default))
           (fold_opt (withdraw_worker w) (oc_namespace_ids oc)))"

text \<open>
  The search for a free segment identifier.  The loop of the source has no exit
  when all are taken; its bound here lets it try every 16-bit value once.
\<close>

fun alloc_segment_loop :: "nat \<Rightarrow> orchestrator_core \<Rightarrow> (orchestrator_core \<times> u16) option" where
  "alloc_segment_loop 0 oc = None"
| "alloc_segment_loop (Suc n) oc =
     (let segment = oc_next_segment_id oc;
          oc = oc\<lparr>oc_next_segment_id := segment + 1\<rparr>
      in if segment = 0 then alloc_segment_loop n oc
         else if segment \<notin> oc_active_segment_ids oc
         then Some (oc\<lparr>oc_active_segment_ids := insert segment (oc_active_segment_ids oc)\<rparr>, segment)
         else alloc_segment_loop n oc)"

definition alloc_segment_id :: "orchestrator_core \<Rightarrow> (orchestrator_core \<times> u16) option" where
  "alloc_segment_id oc = alloc_segment_loop (2 ^ 16) oc"

definition free_segment_id :: "u16 \<Rightarrow> orchestrator_core \<Rightarrow> orchestrator_core" where
  "free_segment_id segment oc = oc\<lparr>oc_active_segment_ids := oc_active_segment_ids oc - {segment}\<rparr>"

datatype client_error =
    NamespaceNotFound
  | NamespaceAlreadyExists
  | NoTunnelWorker
  | IpExhausted
  | WorkerNotFound
  | IpAllocationError ip_alloc_error
  | ShellGone

record connected_worker_summary =
  cws_worker_id :: worker_id
  cws_proto_worker_id :: worker_id
  cws_max_pods :: u32
  cws_default_pool :: "pool_id option"

record namespace_creation_info =
  nci_namespace_id :: namespace_id
  nci_network :: network_config
  nci_connected_workers :: "connected_worker_summary list"

definition summary_of :: "worker_id \<times> connected_worker_info \<Rightarrow> connected_worker_summary" where
  "summary_of = (\<lambda>(w, info). \<lparr>cws_worker_id = w, cws_proto_worker_id = cw_proto_worker_id info,
     cws_max_pods = cw_max_pods info, cws_default_pool = cw_default_pool info\<rparr>)"

definition assign_namespace :: "namespace_id \<Rightarrow> network_config \<Rightarrow> connected_worker_summary \<Rightarrow> orch \<Rightarrow> orch option" where
  "assign_namespace ns network summary = (\<lambda>(oc, out).
     ws_route (NamespaceAssigned (cws_worker_id summary) ns)
       (oc, out\<lparr>oo_direct_worker_commands := oo_direct_worker_commands out @
          [(cws_worker_id summary, CreateNamespace ns network)]\<rparr>))"

definition register_namespace ::
  "namespace_id \<Rightarrow> u16 \<Rightarrow> network_config \<Rightarrow> orchestrator_core \<Rightarrow> orchestrator_core" where
  "register_namespace ns segment network oc =
     oc\<lparr>oc_namespace_segments := AList.update ns segment (oc_namespace_segments oc),
        oc_namespace_networks := AList.update ns network (oc_namespace_networks oc),
        oc_namespace_ids := List.insert ns (oc_namespace_ids oc),
        oc_namespace_names := AList.update (ns_name ns) ns (oc_namespace_names oc)\<rparr>"

definition create_namespace ::
  "string \<Rightarrow> network_config \<Rightarrow> orchestrator_core \<Rightarrow>
   ((client_error + namespace_creation_info) \<times> orch) option" where
  "create_namespace name network oc =
     (if map_of (oc_namespace_names oc) name \<noteq> None
      then Some (Inl NamespaceAlreadyExists, (oc, output_default))
      else
        let ns = \<lparr>ns_name = name, ns_incarnation = oc_next_namespace_id oc\<rparr>;
            oc = oc\<lparr>oc_next_namespace_id := oc_next_namespace_id oc + 1\<rparr>
        in Option.bind (alloc_segment_id oc) (\<lambda>(oc, segment).
             let network = network\<lparr>nc_segment_id := Some segment\<rparr>;
                 oc = register_namespace ns segment network oc
             in Option.bind (ws_route (RegisterNamespaceSegment ns segment) (oc, output_default)) (\<lambda>(oc, out).
                  let summaries = map summary_of (oc_connected_workers oc)
                  in map_option (\<lambda>s. (Inr \<lparr>nci_namespace_id = ns, nci_network = network,
                         nci_connected_workers = summaries\<rparr>, s))
                       (fold_opt (assign_namespace ns network) summaries (oc, out)))))"

definition unassign_namespace :: "namespace_id \<Rightarrow> worker_id \<Rightarrow> orch \<Rightarrow> orch option" where
  "unassign_namespace ns w = ws_route (NamespaceUnassigned w ns)"

definition unregister_namespace :: "namespace_id \<Rightarrow> orchestrator_core \<Rightarrow> orchestrator_core" where
  "unregister_namespace ns oc =
     (let oc = oc\<lparr>oc_namespace_ids := removeAll ns (oc_namespace_ids oc),
                  oc_namespace_names := AList.delete (ns_name ns) (oc_namespace_names oc)\<rparr>;
          oc = (case map_of (oc_namespace_segments oc) ns of
              Some segment \<Rightarrow> free_segment_id segment
                (oc\<lparr>oc_namespace_segments := AList.delete ns (oc_namespace_segments oc)\<rparr>)
            | None \<Rightarrow> oc)
      in oc\<lparr>oc_namespace_networks := AList.delete ns (oc_namespace_networks oc)\<rparr>)"

definition destroy_namespace ::
  "namespace_id \<Rightarrow> orchestrator_core \<Rightarrow> ((client_error + unit) \<times> orch) option" where
  "destroy_namespace ns oc =
     (if ns \<notin> set (oc_namespace_ids oc) then Some (Inl NamespaceNotFound, (oc, output_default))
      else
        let oc = unregister_namespace ns oc
        in map_option (\<lambda>s. (Inr (), s))
             (Option.bind (fold_opt (unassign_namespace ns) (map fst (oc_connected_workers oc)) (oc, output_default))
               (ws_route (UnregisterNamespaceSegment ns))))"

definition get_worker :: "worker_id \<Rightarrow> orchestrator_core \<Rightarrow> client_error + worker_query_info" where
  "get_worker w oc = (case query_worker w (oc_worker_state oc) of
       Some info \<Rightarrow> Inr info | None \<Rightarrow> Inl WorkerNotFound)"

section \<open>Routing ends\<close>

lemma fold_opt_inv:
  assumes "\<And>x s. x \<in> set xs \<Longrightarrow> P s \<Longrightarrow> \<exists>s'. f x s = Some s' \<and> P s'" and "P s"
  shows "\<exists>s'. fold_opt f xs s = Some s' \<and> P s'"
  using assms
proof (induction xs arbitrary: s)
  case (Cons x xs)
  obtain s' where s': "f x s = Some s'" "P s'" using Cons.prems(1) [of x s] Cons.prems(2) by auto
  have "\<exists>t. fold_opt f xs s' = Some t \<and> P t"
    by (rule Cons.IH) (use Cons.prems(1) s'(2) in auto)
  with s'(1) show ?case by simp
qed simp

lemma retry_pending_decisions: "\<not> has_eligible s \<or> sc_pending s = [] \<Longrightarrow> snd (retry_pending s) = []"
proof -
  assume "\<not> has_eligible s \<or> sc_pending s = []"
  then have "filter (\<lambda>(_, e). sched_select s e \<noteq> None) (sc_pending s) = []"
    by (auto simp: filter_empty_conv sched_select_None)
  then show ?thesis by (simp add: retry_pending_def)
qed

abbreviation pending_of :: "orch \<Rightarrow> (pod_key \<times> artifact_id option) list" where
  "pending_of s \<equiv> sc_pending (oc_scheduler (fst s))"

lemma sched_step_update:
  assumes "sched_step (WorkerUpdate w c) oc = (oc', e)"
  shows "sc_pending (oc_scheduler oc') = [] \<or> se_decisions e = []"
    and "sc_pending (oc_scheduler oc) = [] \<Longrightarrow> sc_pending (oc_scheduler oc') = [] \<and> se_decisions e = []"
proof -
  let ?s = "(oc_scheduler oc)\<lparr>sc_workers := AList.update w c (sc_workers (oc_scheduler oc))\<rparr>"
  have p: "sc_pending (oc_scheduler oc') = sc_pending (fst (retry_pending ?s))"
    and d: "se_decisions e = snd (retry_pending ?s)"
    using assms by (auto simp: sched_step_def Let_def case_prod_beta from_decisions_def)
  show "sc_pending (oc_scheduler oc') = [] \<or> se_decisions e = []"
    unfolding p d using retry_pending_decisions [of ?s] by (auto simp: retry_pending_pending)
  show "sc_pending (oc_scheduler oc) = [] \<Longrightarrow> sc_pending (oc_scheduler oc') = [] \<and> se_decisions e = []"
    unfolding p d using retry_pending_decisions [of ?s] by (simp add: retry_pending_pending)
qed

definition single_update :: "worker_state_effects \<Rightarrow> bool" where
  "single_update e \<longleftrightarrow> we_scheduler_updates e = [] \<or> (\<exists>w c. we_scheduler_updates e = [WorkerUpdate w c])"

lemma ws_step_decision:
  "ws_step (decision_event d) oc = (oc', e) \<Longrightarrow> oc_scheduler oc' = oc_scheduler oc \<and> single_update e"
  by (cases d)
     (auto simp: ws_step_def Let_def single_update_def ws_put_update_def ws_effects_none_def
        split: option.splits)

lemma pushes_scheduler [simp]:
  "oc_scheduler (fst (push_decision d s)) = oc_scheduler (fst s)"
  "oc_scheduler (fst (push_invalidations ps s)) = oc_scheduler (fst s)"
  "oc_scheduler (fst (push_deletes cs s)) = oc_scheduler (fst s)"
  "oc_scheduler (fst (push_broadcast c s)) = oc_scheduler (fst s)"
  by (cases s; simp add: push_decision_def push_invalidations_def push_deletes_def push_broadcast_def)+

lemma on_decision_eq:
  "on_decision route d s = map_option (push_decision d)
     (route (snd (ws_step (decision_event d) (fst s))) (fst (ws_step (decision_event d) (fst s)), snd s))"
  by (cases s) (simp add: on_decision_def Let_def case_prod_beta)

lemma on_update_eq:
  "on_update route u s = route (snd (sched_step u (fst s))) (fst (sched_step u (fst s)), snd s)"
  by (cases s) (simp add: on_update_def Let_def case_prod_beta)

lemma map_option_ex: "\<exists>s'. x = Some s' \<and> P (f s') \<Longrightarrow> \<exists>s'. map_option f x = Some s' \<and> P s'"
  by auto

lemma route_scheduler_none:
  "se_decisions e = [] \<Longrightarrow> \<exists>s'. route_scheduler_effects (Suc n) e s = Some s' \<and> pending_of s' = pending_of s"
  by (simp add: route_sched_Suc)

lemma route_ws_idle:
  assumes "single_update e" "pending_of s = []"
  shows "\<exists>s'. route_worker_state_effects (Suc (Suc n)) e s = Some s' \<and> pending_of s' = []"
  unfolding route_ws_Suc
proof (rule map_option_ex, unfold pushes_scheduler, rule fold_opt_inv [where P = "\<lambda>s. pending_of s = []", OF _ assms(2)])
  fix u s' assume u: "u \<in> set (we_scheduler_updates e)" and s': "pending_of s' = []"
  then obtain w c where "u = WorkerUpdate w c" using assms(1) by (auto simp: single_update_def)
  with s' sched_step_update(2) [of w c "fst s'"] have
    "sc_pending (oc_scheduler (fst (sched_step u (fst s')))) = []" "se_decisions (snd (sched_step u (fst s'))) = []"
    by (metis prod.collapse)+
  then show "\<exists>t. on_update (\<lambda>e s. route_scheduler_effects (Suc n) e s) u s' = Some t \<and> pending_of t = []"
    unfolding on_update_eq
    using route_scheduler_none [of "snd (sched_step u (fst s'))" n "(fst (sched_step u (fst s')), snd s')"] by simp
qed

lemma ws_step_decision_fun:
  "oc_scheduler (fst (ws_step (decision_event d) oc)) = oc_scheduler oc"
  "single_update (snd (ws_step (decision_event d) oc))"
  using ws_step_decision [of d oc] by (metis prod.collapse)+

lemma route_sched_idle:
  assumes "pending_of s = []"
  shows "\<exists>s'. route_scheduler_effects (Suc (Suc (Suc n))) e s = Some s' \<and> pending_of s' = []"
  unfolding route_sched_Suc
proof (rule map_option_ex, unfold pushes_scheduler, rule fold_opt_inv [where P = "\<lambda>s. pending_of s = []", OF _ assms])
  fix d s' assume "pending_of s' = []"
  then have "pending_of (fst (ws_step (decision_event d) (fst s')), snd s') = []"
    by (simp add: ws_step_decision_fun)
  from route_ws_idle [OF ws_step_decision_fun(2) this]
  show "\<exists>t. on_decision (\<lambda>e s. route_worker_state_effects (Suc (Suc n)) e s) d s' = Some t \<and> pending_of t = []"
    unfolding on_decision_eq by (intro map_option_ex) simp
qed

lemma route_ws_single:
  assumes "single_update e"
  shows "\<exists>s'. route_worker_state_effects (Suc (Suc (Suc (Suc n)))) e s = Some s' \<and> True"
  unfolding route_ws_Suc
proof (rule map_option_ex, rule fold_opt_inv [where P = "\<lambda>_. True", OF _ TrueI])
  fix u and s' :: orch assume u: "u \<in> set (we_scheduler_updates e)"
  then obtain w c where "u = WorkerUpdate w c" using assms by (auto simp: single_update_def)
  with sched_step_update(1) [OF prod.collapse [symmetric], of w c "fst s'"] have
    "sc_pending (oc_scheduler (fst (sched_step u (fst s')))) = [] \<or> se_decisions (snd (sched_step u (fst s'))) = []"
    by simp
  then show "\<exists>t. on_update (\<lambda>e s. route_scheduler_effects (Suc (Suc (Suc n))) e s) u s' = Some t \<and> True"
    unfolding on_update_eq
    using route_scheduler_none [of "snd (sched_step u (fst s'))" "Suc (Suc n)" "(fst (sched_step u (fst s')), snd s')"]
      route_sched_idle [of "(fst (sched_step u (fst s')), snd s')" n "snd (sched_step u (fst s'))"] by auto
qed

lemma route_sched_total:
  "\<exists>s'. route_scheduler_effects (Suc (Suc (Suc (Suc (Suc n))))) e s = Some s' \<and> True"
  unfolding route_sched_Suc
proof (rule map_option_ex, rule fold_opt_inv [where P = "\<lambda>_. True", OF _ TrueI])
  fix d s'
  show "\<exists>t. on_decision (\<lambda>e s. route_worker_state_effects (Suc (Suc (Suc (Suc n)))) e s) d s' = Some t \<and> True"
    unfolding on_decision_eq
    by (rule map_option_ex, rule route_ws_single [OF ws_step_decision_fun(2)])
qed

lemma route_ws_total:
  "\<exists>s'. route_worker_state_effects (Suc (Suc (Suc (Suc (Suc (Suc n)))))) e s = Some s' \<and> True"
  unfolding route_ws_Suc
proof (rule map_option_ex, rule fold_opt_inv [where P = "\<lambda>_. True", OF _ TrueI])
  fix u s'
  show "\<exists>t. on_update (\<lambda>e s. route_scheduler_effects (Suc (Suc (Suc (Suc (Suc n))))) e s) u s' = Some t \<and> True"
    unfolding on_update_eq by (rule route_sched_total)
qed

lemma ROUTE_DEPTH_Suc: "ROUTE_DEPTH = Suc (Suc (Suc (Suc (Suc (Suc 0)))))"
  by (simp add: ROUTE_DEPTH_def)

lemma ws_route_total: "ws_route ev s \<noteq> None"
  unfolding ws_route_def ROUTE_DEPTH_Suc case_prod_beta Let_def
  using route_ws_total [of 0 "snd (ws_step ev (fst s))" "(fst (ws_step ev (fst s)), snd s)"] by auto

lemma sched_route_total: "sched_route inp s \<noteq> None"
  unfolding sched_route_def ROUTE_DEPTH_Suc case_prod_beta Let_def
  using route_sched_total [of "Suc 0" "snd (sched_step inp (fst s))" "(fst (sched_step inp (fst s)), snd s)"] by auto

lemma orchestrator_process_total: "orchestrator_process inp oc \<noteq> None"
  using ws_route_total sched_route_total by (cases inp) simp_all

section \<open>The scheduler sees the current workers\<close>

definition sched_view :: "orchestrator_core \<Rightarrow> worker_id \<rightharpoonup> worker_candidate" where
  "sched_view oc = map_of (sc_workers (oc_scheduler oc))"

definition ws_view :: "orchestrator_core \<Rightarrow> worker_id \<rightharpoonup> worker_candidate" where
  "ws_view oc w = map_option (to_candidate w) (map_of (ws_workers (oc_worker_state oc)) w)"

fun upd_view :: "scheduler_input \<Rightarrow> (worker_id \<rightharpoonup> worker_candidate) \<Rightarrow> worker_id \<rightharpoonup> worker_candidate" where
  "upd_view (WorkerUpdate w c) v = v(w \<mapsto> c)"
| "upd_view (WorkerRemoved w) v = v(w := None)"
| "upd_view _ v = v"

lemma sched_step_view: "sched_view (fst (sched_step u oc)) = upd_view u (sched_view oc)"
  by (cases u)
     (auto simp: sched_step_def sched_view_def Let_def case_prod_beta update_conv' delete_conv'
        split: option.split)

lemma sched_step_ws [simp]: "oc_worker_state (fst (sched_step u oc)) = oc_worker_state oc"
  by (simp add: sched_step_def Let_def case_prod_beta)

lemma sched_step_ws_view [simp]: "ws_view (fst (sched_step u oc)) = ws_view oc"
  by (simp add: ws_view_def fun_eq_iff)

lemma ws_step_sched [simp]: "oc_scheduler (fst (ws_step ev oc)) = oc_scheduler oc"
  by (simp add: ws_step_def Let_def case_prod_beta)

lemma ws_put_view: "ws_view (oc\<lparr>oc_worker_state := ws_put w st (oc_worker_state oc)\<rparr>) =
    (ws_view oc)(w \<mapsto> to_candidate w st)"
  by (rule ext) (simp add: ws_view_def ws_put_def update_conv')

lemma to_candidate_other [simp]:
  "to_candidate w (st\<lparr>tw_segments := x\<rparr>) = to_candidate w st"
  "to_candidate w (st\<lparr>tw_capabilities := y\<rparr>) = to_candidate w st"
  by (simp_all add: to_candidate_def)

lemma ws_view_same: "map_of (ws_workers (oc_worker_state oc)) w = Some st \<Longrightarrow>
    (ws_view oc)(w \<mapsto> to_candidate w st) = ws_view oc"
  by (rule ext) (simp add: ws_view_def)

text \<open>
  The scheduler updates a worker event asks for bring the view of the scheduler
  up to date.
\<close>

lemma ws_step_view:
  assumes "sched_view oc = ws_view oc"
  shows "fold upd_view (we_scheduler_updates (snd (ws_step ev oc))) (sched_view oc) = ws_view (fst (ws_step ev oc))"
proof -
  have seg: "ws_view (oc\<lparr>oc_worker_state := (oc_worker_state oc)\<lparr>ws_namespace_segments := x\<rparr>\<rparr>) = ws_view oc" for x
    by (rule ext) (simp add: ws_view_def)
  have same: "oc\<lparr>oc_worker_state := oc_worker_state oc\<rparr> = oc" by simp
  have del: "ws_view (oc\<lparr>oc_worker_state := (oc_worker_state oc)\<lparr>ws_workers := AList.delete w (ws_workers (oc_worker_state oc))\<rparr>\<rparr>) =
      (ws_view oc)(w := None)" for w
    by (rule ext) (simp add: ws_view_def delete_conv')
  show ?thesis
    by (cases ev)
       (simp_all add: assms ws_step_def Let_def ws_put_update_def ws_effects_none_def ws_put_view seg same del
          ws_view_same split: option.split)
qed

lemma ws_step_updates: "length (we_scheduler_updates (snd (ws_step ev oc))) \<le> 1"
  by (cases ev) (simp_all add: ws_step_def Let_def ws_put_update_def ws_effects_none_def split: option.split)

definition views_agree :: "orchestrator_core \<Rightarrow> bool" where
  "views_agree oc \<longleftrightarrow> sched_view oc = ws_view oc"

lemma views_agree_cong:
  "oc_scheduler a = oc_scheduler b \<Longrightarrow> oc_worker_state a = oc_worker_state b \<Longrightarrow> views_agree a = views_agree b"
  by (simp add: views_agree_def sched_view_def ws_view_def fun_eq_iff)

lemma pushes_fst [simp]:
  "fst (push_decision d s) = fst s"
  "fst (push_invalidations ps s) = fst s"
  "fst (push_deletes cs s) = fst s"
  "fst (push_broadcast c s) = fst s"
  by (cases s; simp add: push_decision_def push_invalidations_def push_deletes_def push_broadcast_def)+

lemma fold_opt_Some_inv:
  assumes "\<And>x s s'. x \<in> set xs \<Longrightarrow> P s \<Longrightarrow> f x s = Some s' \<Longrightarrow> P s'" "P s" "fold_opt f xs s = Some s'"
  shows "P s'"
  using assms
  by (induction xs arbitrary: s) (auto split: option.splits)

lemma route_views:
  "(\<forall>e s s'. fold upd_view (we_scheduler_updates e) (sched_view (fst s)) = ws_view (fst s) \<longrightarrow>
      length (we_scheduler_updates e) \<le> 1 \<longrightarrow>
      route_worker_state_effects n e s = Some s' \<longrightarrow> views_agree (fst s')) \<and>
   (\<forall>e s s'. views_agree (fst s) \<longrightarrow> route_scheduler_effects n e s = Some s' \<longrightarrow> views_agree (fst s'))"
proof (induction n)
  case 0
  show ?case by (simp add: route_worker_state_effects.simps(1) route_scheduler_effects.simps(1))
next
  case (Suc n)
  have sched: "views_agree (fst s')" if "views_agree (fst s)" "route_scheduler_effects n e s = Some s'" for e s s'
    using Suc.IH that by blast
  have ws: "views_agree (fst s')"
    if "fold upd_view (we_scheduler_updates e) (sched_view (fst s)) = ws_view (fst s)"
      "length (we_scheduler_updates e) \<le> 1" "route_worker_state_effects n e s = Some s'" for e s s'
    using Suc.IH that by blast
  show ?case
  proof (intro conjI allI impI)
    fix e s s'
    assume v: "fold upd_view (we_scheduler_updates e) (sched_view (fst s)) = ws_view (fst s)"
      and len: "length (we_scheduler_updates e) \<le> 1"
      and r: "route_worker_state_effects (Suc n) e s = Some s'"
    show "views_agree (fst s')"
    proof (cases "we_scheduler_updates e")
      case Nil
      with v r show ?thesis by (auto simp: route_ws_Suc views_agree_def)
    next
      case (Cons u us)
      with len have e: "we_scheduler_updates e = [u]" by simp
      with v have "views_agree (fst (sched_step u (fst s)))" by (simp add: views_agree_def sched_step_view)
      moreover obtain t where "route_scheduler_effects n (snd (sched_step u (fst s)))
          (fst (sched_step u (fst s)), snd s) = Some t" "fst s' = fst t"
        using r e by (auto simp: route_ws_Suc on_update_eq split: option.splits)
      ultimately show ?thesis
        using sched [of "(fst (sched_step u (fst s)), snd s)" "snd (sched_step u (fst s))" t] by simp
    qed
  next
    fix e s s'
    assume v: "views_agree (fst s)" and r: "route_scheduler_effects (Suc n) e s = Some s'"
    then obtain t where t: "fold_opt (on_decision (\<lambda>e s. route_worker_state_effects n e s)) (se_decisions e) s = Some t"
        "fst s' = fst t"
      by (auto simp: route_sched_Suc)
    have "views_agree (fst t)"
    proof (rule fold_opt_Some_inv [where P = "\<lambda>s. views_agree (fst s)", OF _ v t(1)])
      fix d a b
      assume a: "views_agree (fst a)" and "on_decision (\<lambda>e s. route_worker_state_effects n e s) d a = Some b"
      then obtain c where c: "route_worker_state_effects n (snd (ws_step (decision_event d) (fst a)))
          (fst (ws_step (decision_event d) (fst a)), snd a) = Some c" "fst b = fst c"
        by (auto simp: on_decision_eq)
      have "sched_view (fst (ws_step (decision_event d) (fst a))) = sched_view (fst a)"
        by (simp add: sched_view_def)
      with a ws_step_view [of "fst a" "decision_event d"] ws [OF _ ws_step_updates c(1)] c(2)
      show "views_agree (fst b)" by (simp add: views_agree_def)
    qed
    with t(2) show "views_agree (fst s')" by simp
  qed
qed

lemma ws_route_views: "views_agree (fst s) \<Longrightarrow> ws_route ev s = Some s' \<Longrightarrow> views_agree (fst s')"
proof -
  assume v: "views_agree (fst s)" and r: "ws_route ev s = Some s'"
  have "sched_view (fst (ws_step ev (fst s))) = sched_view (fst s)" by (simp add: sched_view_def)
  with v have "fold upd_view (we_scheduler_updates (snd (ws_step ev (fst s))))
      (sched_view (fst (fst (ws_step ev (fst s)), snd s))) = ws_view (fst (fst (ws_step ev (fst s)), snd s))"
    using ws_step_view [of "fst s" ev] by (simp add: views_agree_def)
  with r ws_step_updates route_views [of ROUTE_DEPTH] show ?thesis
    unfolding ws_route_def case_prod_beta Let_def by blast
qed

fun keeps_workers :: "scheduler_input \<Rightarrow> bool" where
  "keeps_workers (WorkerUpdate w c) = False"
| "keeps_workers (WorkerRemoved w) = False"
| "keeps_workers _ = True"

lemma sched_route_views:
  assumes "views_agree (fst s)" "keeps_workers inp" "sched_route inp s = Some s'"
  shows "views_agree (fst s')"
proof -
  have "upd_view inp v = v" for v using assms(2) by (cases inp) simp_all
  then have "views_agree (fst (sched_step inp (fst s)))"
    using assms(1) by (simp add: views_agree_def sched_step_view)
  then have "views_agree (fst (fst (sched_step inp (fst s)), snd s))" by simp
  with assms(3) route_views [of ROUTE_DEPTH] show ?thesis
    unfolding sched_route_def case_prod_beta Let_def by blast
qed

end
