(* ===== verification/Orchestrator_Props.thy ===== *)
theory Orchestrator_Props
  imports Orchestrator
begin

text \<open>
  The registry of the orchestrator: namespaces, their names and segments, and the
  segments every connected worker is registered for.
\<close>

section \<open>Segments\<close>

text \<open>
  For the segments only a part of the worker states matters: which segment each
  namespace has, and which segments each known worker is registered for.
\<close>

type_synonym segment_state = "(namespace_id \<rightharpoonup> u16) \<times> (worker_id \<rightharpoonup> u16 set)"

definition seg_abs :: "orchestrator_core \<Rightarrow> segment_state" where
  "seg_abs oc = (map_of (ws_namespace_segments (oc_worker_state oc)),
     \<lambda>w. map_option (set \<circ> tw_segments) (map_of (ws_workers (oc_worker_state oc)) w))"

fun seg_step :: "worker_state_event \<Rightarrow> segment_state \<Rightarrow> segment_state" where
  "seg_step (Connected w _ _ _ _) (seg, ws) = (seg, ws(w \<mapsto> {}))"
| "seg_step (Disconnected w) (seg, ws) = (seg, ws(w := None))"
| "seg_step (NamespaceAssigned w ns) (seg, ws) = (seg, ws(w := map_option (\<lambda>S. S \<union> set_option (seg ns)) (ws w)))"
| "seg_step (NamespaceUnassigned w ns) (seg, ws) = (seg, ws(w := map_option (\<lambda>S. S - set_option (seg ns)) (ws w)))"
| "seg_step (RegisterNamespaceSegment ns g) (seg, ws) = (seg(ns \<mapsto> g), ws)"
| "seg_step (UnregisterNamespaceSegment ns) (seg, ws) = (seg(ns := None), ws)"
| "seg_step _ s = s"

lemma recompute_segments [simp]: "tw_segments (recompute_pressure_from_psi st) = tw_segments st"
  by (simp add: recompute_pressure_from_psi_def Let_def split: option.split)

lemma seg_put:
  "seg_abs (oc\<lparr>oc_worker_state := ws_put w st (oc_worker_state oc)\<rparr>) =
     (fst (seg_abs oc), (snd (seg_abs oc))(w \<mapsto> set (tw_segments st)))"
  by (simp add: seg_abs_def ws_put_def update_conv' fun_eq_iff)

lemma seg_put_same:
  "map_of (ws_workers (oc_worker_state oc)) w = Some st \<Longrightarrow>
   (snd (seg_abs oc))(w \<mapsto> set (tw_segments st)) = snd (seg_abs oc)"
  by (simp add: seg_abs_def fun_eq_iff)

lemma seg_lookup:
  "snd (seg_abs oc) w = map_option (set \<circ> tw_segments) (map_of (ws_workers (oc_worker_state oc)) w)"
  "fst (seg_abs oc) ns = map_of (ws_namespace_segments (oc_worker_state oc)) ns"
  by (simp_all add: seg_abs_def)

lemma ws_step_seg_assigned:
  "seg_abs (fst (ws_step (NamespaceAssigned w ns) oc)) = seg_step (NamespaceAssigned w ns) (seg_abs oc)"
proof (cases "map_of (ws_workers (oc_worker_state oc)) w")
  case None
  then show ?thesis
    by (auto simp: ws_step_def seg_abs_def fun_eq_iff)
next
  case (Some st)
  show ?thesis
  proof (cases "map_of (ws_namespace_segments (oc_worker_state oc)) ns")
    case None
    with Some show ?thesis by (auto simp: ws_step_def seg_abs_def fun_eq_iff)
  next
    case (Some g)
    with \<open>map_of (ws_workers (oc_worker_state oc)) w = Some st\<close> show ?thesis
      by (auto simp: ws_step_def Let_def seg_abs_def ws_put_def update_conv' fun_eq_iff)
  qed
qed

lemma ws_step_seg_unassigned:
  "seg_abs (fst (ws_step (NamespaceUnassigned w ns) oc)) = seg_step (NamespaceUnassigned w ns) (seg_abs oc)"
proof (cases "map_of (ws_workers (oc_worker_state oc)) w")
  case None
  then show ?thesis
    by (auto simp: ws_step_def seg_abs_def fun_eq_iff)
next
  case (Some st)
  show ?thesis
  proof (cases "map_of (ws_namespace_segments (oc_worker_state oc)) ns")
    case None
    with Some show ?thesis by (auto simp: ws_step_def seg_abs_def fun_eq_iff)
  next
    case (Some g)
    with \<open>map_of (ws_workers (oc_worker_state oc)) w = Some st\<close> show ?thesis
      by (auto simp: ws_step_def Let_def seg_abs_def ws_put_def update_conv' fun_eq_iff)
  qed
qed

lemma ws_step_seg: "seg_abs (fst (ws_step ev oc)) = seg_step ev (seg_abs oc)"
proof (cases ev)
  case (Connected w c t g p)
  then show ?thesis
    by (simp add: ws_step_def Let_def ws_put_update_def seg_put tracked_worker_new_def)
       (simp add: seg_abs_def)
next
  case (Disconnected w)
  then show ?thesis by (simp add: ws_step_def Let_def seg_abs_def delete_conv' fun_eq_iff)
next
  case (RegisterNamespaceSegment ns g)
  then show ?thesis by (simp add: ws_step_def seg_abs_def update_conv')
next
  case (UnregisterNamespaceSegment ns)
  then show ?thesis by (simp add: ws_step_def seg_abs_def delete_conv')
qed (simp_all add: ws_step_seg_assigned ws_step_seg_unassigned del: seg_step.simps(3,4),
     simp_all add: ws_step_def Let_def ws_put_update_def seg_put seg_put_same split: option.split)

text \<open>The registry of the orchestrator and the segments are not touched by routing.\<close>

definition registry :: "orchestrator_core \<Rightarrow> _" where
  "registry oc = (oc_connected_workers oc, oc_namespace_ids oc, oc_namespace_names oc, oc_next_namespace_id oc,
     oc_next_segment_id oc, oc_active_segment_ids oc, oc_namespace_segments oc, oc_namespace_networks oc)"

definition frame_of :: "orch \<Rightarrow> _" where
  "frame_of s = (registry (fst s), seg_abs (fst s), oo_direct_worker_commands (snd s))"

lemma sched_step_frame: "frame_of (fst (sched_step u oc), out) = frame_of (oc, out)"
  by (simp add: frame_of_def registry_def seg_abs_def sched_step_def Let_def case_prod_beta)

lemma ws_step_registry: "registry (fst (ws_step ev oc)) = registry oc"
  by (simp add: registry_def ws_step_def Let_def case_prod_beta)

lemma ws_step_decision_frame: "frame_of (fst (ws_step (decision_event d) oc), out) = frame_of (oc, out)"
  by (cases d) (simp_all add: frame_of_def ws_step_registry ws_step_seg)

lemma pushes_frame [simp]:
  "frame_of (push_decision d s) = frame_of s"
  "frame_of (push_invalidations ps s) = frame_of s"
  "frame_of (push_deletes cs s) = frame_of s"
  "frame_of (push_broadcast c s) = frame_of s"
  by (cases s; simp add: frame_of_def push_decision_def push_invalidations_def push_deletes_def push_broadcast_def)+

lemma route_frame:
  "(\<forall>e s s'. route_worker_state_effects n e s = Some s' \<longrightarrow> frame_of s' = frame_of s) \<and>
   (\<forall>e s s'. route_scheduler_effects n e s = Some s' \<longrightarrow> frame_of s' = frame_of s)"
proof (induction n)
  case 0
  show ?case by (simp add: route_worker_state_effects.simps(1) route_scheduler_effects.simps(1))
next
  case (Suc n)
  have upd: "frame_of b = frame_of a" if "on_update (\<lambda>e s. route_scheduler_effects n e s) u a = Some b" for u a b
  proof -
    have "frame_of b = frame_of (fst (sched_step u (fst a)), snd a)"
      using Suc.IH that unfolding on_update_eq by blast
    then show ?thesis by (simp add: sched_step_frame)
  qed
  have dec: "frame_of b = frame_of a" if b: "on_decision (\<lambda>e s. route_worker_state_effects n e s) d a = Some b" for d a b
  proof -
    obtain c where "route_worker_state_effects n (snd (ws_step (decision_event d) (fst a)))
        (fst (ws_step (decision_event d) (fst a)), snd a) = Some c" "push_decision d c = b"
      using b unfolding on_decision_eq map_option_eq_Some by blast
    moreover from this have "frame_of c = frame_of (fst (ws_step (decision_event d) (fst a)), snd a)"
      using Suc.IH by blast
    ultimately show ?thesis by (simp add: ws_step_decision_frame flip: pushes_frame(1) [of d c])
  qed
  show ?case
  proof (intro conjI allI impI)
    fix e s s' assume "route_worker_state_effects (Suc n) e s = Some s'"
    then obtain t where t: "fold_opt (on_update (\<lambda>e s. route_scheduler_effects n e s)) (we_scheduler_updates e) s = Some t"
      "frame_of s' = frame_of t" unfolding route_ws_Suc map_option_eq_Some using pushes_frame by blast
    have "frame_of t = frame_of s"
      by (rule fold_opt_Some_inv [where P = "\<lambda>x. frame_of x = frame_of s", OF _ refl t(1)]) (simp add: upd)
    with t(2) show "frame_of s' = frame_of s" by simp
  next
    fix e s s' assume "route_scheduler_effects (Suc n) e s = Some s'"
    then obtain t where t: "fold_opt (on_decision (\<lambda>e s. route_worker_state_effects n e s)) (se_decisions e) s = Some t"
      "frame_of s' = frame_of t" unfolding route_sched_Suc map_option_eq_Some using pushes_frame by metis
    have "frame_of t = frame_of s"
      by (rule fold_opt_Some_inv [where P = "\<lambda>x. frame_of x = frame_of s", OF _ refl t(1)]) (simp add: dec)
    with t(2) show "frame_of s' = frame_of s" by simp
  qed
qed

lemma ws_route_frame:
  assumes "ws_route ev s = Some s'"
  shows "registry (fst s') = registry (fst s)" "seg_abs (fst s') = seg_step ev (seg_abs (fst s))"
    "oo_direct_worker_commands (snd s') = oo_direct_worker_commands (snd s)"
proof -
  have "frame_of s' = frame_of (fst (ws_step ev (fst s)), snd s)"
    using assms route_frame [of ROUTE_DEPTH] unfolding ws_route_def case_prod_beta Let_def by blast
  then show "registry (fst s') = registry (fst s)" "seg_abs (fst s') = seg_step ev (seg_abs (fst s))"
    "oo_direct_worker_commands (snd s') = oo_direct_worker_commands (snd s)"
    by (simp_all add: frame_of_def ws_step_registry ws_step_seg)
qed

lemma sched_route_frame:
  assumes "sched_route inp s = Some s'"
  shows "registry (fst s') = registry (fst s)" "seg_abs (fst s') = seg_abs (fst s)"
proof -
  have "frame_of s' = frame_of (fst (sched_step inp (fst s)), snd s)"
    using assms route_frame [of ROUTE_DEPTH] unfolding sched_route_def case_prod_beta Let_def by blast
  then show "registry (fst s') = registry (fst s)" "seg_abs (fst s') = seg_abs (fst s)"
    by (simp_all add: sched_step_frame) (simp_all add: frame_of_def)
qed

text \<open>Allocation tries every identifier once, so it fails only when none is free.\<close>

lemma alloc_segment_loop_Some:
  "alloc_segment_loop n oc = Some (oc', g) \<Longrightarrow>
   g \<noteq> 0 \<and> g \<notin> oc_active_segment_ids oc \<and>
   oc' = oc\<lparr>oc_next_segment_id := g + 1, oc_active_segment_ids := insert g (oc_active_segment_ids oc)\<rparr>"
proof (induction n arbitrary: oc)
  case (Suc n)
  let ?s = "oc_next_segment_id oc" and ?oc = "oc\<lparr>oc_next_segment_id := oc_next_segment_id oc + 1\<rparr>"
  show ?case
  proof (cases "?s = 0 \<or> ?s \<in> oc_active_segment_ids oc")
    case True
    with Suc.prems have "alloc_segment_loop n ?oc = Some (oc', g)" by (simp add: Let_def split: if_splits)
    from Suc.IH [OF this] show ?thesis by simp
  next
    case False
    with Suc.prems show ?thesis by (auto simp: Let_def)
  qed
qed simp

lemma alloc_segment_loop_None:
  "alloc_segment_loop n oc = None \<longleftrightarrow>
   (\<forall>i<n. oc_next_segment_id oc + of_nat i = 0 \<or> oc_next_segment_id oc + of_nat i \<in> oc_active_segment_ids oc)"
proof (induction n arbitrary: oc)
  case (Suc n)
  let ?oc = "oc\<lparr>oc_next_segment_id := oc_next_segment_id oc + 1\<rparr>"
  have "alloc_segment_loop (Suc n) oc = None \<longleftrightarrow>
      (oc_next_segment_id oc = 0 \<or> oc_next_segment_id oc \<in> oc_active_segment_ids oc) \<and> alloc_segment_loop n ?oc = None"
    by (simp add: Let_def)
  then show ?case by (simp add: Suc.IH All_less_Suc2 add.assoc)
qed simp

lemma alloc_segment_id_None:
  "alloc_segment_id oc = None \<longleftrightarrow> (\<forall>g. g \<noteq> 0 \<longrightarrow> g \<in> oc_active_segment_ids oc)"
proof -
  have "\<exists>i<2 ^ 16. oc_next_segment_id oc + of_nat i = g" for g
    by (rule exI [of _ "unat (g - oc_next_segment_id oc)"])
       (use unsigned_less [of "g - oc_next_segment_id oc"] in simp)
  then show ?thesis unfolding alloc_segment_id_def alloc_segment_loop_None by metis
qed

lemmas alloc_segment_id_Some = alloc_segment_loop_Some [of "2 ^ 16", folded alloc_segment_id_def]

section \<open>The registry invariant\<close>

definition segments_ok :: "orchestrator_core \<Rightarrow> bool" where
  "segments_ok oc \<longleftrightarrow>
     (let seg = map_of (oc_namespace_segments oc)
      in dom seg = set (oc_namespace_ids oc) \<and> inj_on seg (dom seg) \<and>
         ran seg = oc_active_segment_ids oc \<and> 0 \<notin> ran seg \<and>
         (\<forall>ns. map_option (\<lambda>g. Some g) (seg ns) = map_option nc_segment_id (map_of (oc_namespace_networks oc) ns)))"

definition names_ok :: "orchestrator_core \<Rightarrow> bool" where
  "names_ok oc \<longleftrightarrow>
     (\<forall>nm ns. map_of (oc_namespace_names oc) nm = Some ns \<longleftrightarrow> ns \<in> set (oc_namespace_ids oc) \<and> ns_name ns = nm)"

definition workers_ok :: "orchestrator_core \<Rightarrow> bool" where
  "workers_ok oc \<longleftrightarrow>
     (let seg = map_of (oc_namespace_segments oc)
      in seg_abs oc = (seg, \<lambda>w. if map_of (oc_connected_workers oc) w = None then None else Some (ran seg)))"

definition orch_inv :: "orchestrator_core \<Rightarrow> bool" where
  "orch_inv oc \<longleftrightarrow> views_agree oc \<and> segments_ok oc \<and> names_ok oc \<and> workers_ok oc"

lemma segments_okD:
  assumes "segments_ok oc"
  shows "dom (map_of (oc_namespace_segments oc)) = set (oc_namespace_ids oc)"
    "inj_on (map_of (oc_namespace_segments oc)) (dom (map_of (oc_namespace_segments oc)))"
    "ran (map_of (oc_namespace_segments oc)) = oc_active_segment_ids oc"
    "0 \<notin> ran (map_of (oc_namespace_segments oc))"
    "map_option (\<lambda>g. Some g) (map_of (oc_namespace_segments oc) ns) =
       map_option nc_segment_id (map_of (oc_namespace_networks oc) ns)"
  using assms unfolding segments_ok_def Let_def by blast+

lemma names_ok_free:
  "names_ok oc \<Longrightarrow> map_of (oc_namespace_names oc) nm = None \<Longrightarrow> ns \<in> set (oc_namespace_ids oc) \<Longrightarrow> ns_name ns \<noteq> nm"
  unfolding names_ok_def by (metis option.distinct(1))

lemma registry_ok:
  assumes "registry oc' = registry oc"
  shows "segments_ok oc' = segments_ok oc" "names_ok oc' = names_ok oc"
    "oc_namespace_segments oc' = oc_namespace_segments oc" "oc_namespace_ids oc' = oc_namespace_ids oc"
    "oc_connected_workers oc' = oc_connected_workers oc" "oc_namespace_networks oc' = oc_namespace_networks oc"
  using assms by (simp_all add: registry_def segments_ok_def names_ok_def)

lemma orch_inv_new: "orch_inv orchestrator_new"
  by (simp add: orch_inv_def orchestrator_new_def views_agree_def sched_view_def ws_view_def segments_ok_def names_ok_def
      workers_ok_def seg_abs_def worker_state_new_def scheduler_new_def ws_view_def fun_eq_iff)

text \<open>Folds of worker events: what they do to the segments, and that nothing else moves.\<close>

definition ws_folds :: "('a \<Rightarrow> worker_state_event) \<Rightarrow> ('a \<Rightarrow> orch \<Rightarrow> orch option) \<Rightarrow> bool" where
  "ws_folds ev f \<longleftrightarrow> (\<forall>x s. \<exists>out. f x s = ws_route (ev x) (fst s, out))"

lemma ws_folds_total: "ws_folds ev f \<Longrightarrow> fold_opt f xs s \<noteq> None"
proof (induction xs arbitrary: s)
  case (Cons x xs)
  obtain s' where "f x s = Some s'" using Cons.prems ws_route_total unfolding ws_folds_def by (metis not_None_eq)
  with Cons show ?case by simp
qed simp

lemma ws_folds_frame:
  assumes "ws_folds ev f" "fold_opt f xs s = Some s'"
  shows "registry (fst s') = registry (fst s) \<and> seg_abs (fst s') = fold (seg_step \<circ> ev) xs (seg_abs (fst s)) \<and>
    (views_agree (fst s) \<longrightarrow> views_agree (fst s'))"
  using assms(2)
proof (induction xs arbitrary: s)
  case (Cons x xs)
  obtain t where t: "f x s = Some t" "fold_opt f xs t = Some s'"
    using Cons.prems by (auto split: option.splits bind_splits)
  obtain out where out: "ws_route (ev x) (fst s, out) = Some t" using t(1) assms(1) unfolding ws_folds_def by metis
  show ?case
    using Cons.IH [OF t(2)] ws_route_frame(1,2) [OF out] ws_route_views [OF _ out] by simp
qed simp

lemma ws_folds_ops:
  "ws_folds (NamespaceAssigned (wci_worker_id info)) (announce_worker info)"
  "ws_folds (NamespaceUnassigned w) (withdraw_worker w)"
  "ws_folds (\<lambda>sm. NamespaceAssigned (cws_worker_id sm) ns) (assign_namespace ns network)"
  "ws_folds (\<lambda>w. NamespaceUnassigned w ns) (unassign_namespace ns)"
  by (auto simp: ws_folds_def announce_worker_def withdraw_worker_def assign_namespace_def unassign_namespace_def
      Let_def case_prod_beta simp del: split_paired_Ex)

lemma fold_assign_all:
  "fold (seg_step \<circ> NamespaceAssigned w) nss (seg, ws) =
     (seg, ws(w := map_option (\<lambda>S. S \<union> (\<Union>ns\<in>set nss. set_option (seg ns))) (ws w)))"
  by (induction nss arbitrary: ws) (auto simp: option.map_comp comp_def Un_assoc fun_upd_def option.map_ident)

lemma fold_unassign_unknown: "ws w = None \<Longrightarrow> fold (seg_step \<circ> NamespaceUnassigned w) nss (seg, ws) = (seg, ws)"
  by (induction nss) (simp_all add: fun_upd_idem)

lemma fold_assign_workers:
  "fold (seg_step \<circ> (\<lambda>sm. NamespaceAssigned (k sm) ns)) sms (seg, ws) =
     (seg, \<lambda>w. if w \<in> k ` set sms then map_option (\<lambda>S. S \<union> set_option (seg ns)) (ws w) else ws w)"
proof (induction sms arbitrary: ws)
  case (Cons sm sms)
  show ?case unfolding fold_Cons comp_def seg_step.simps Cons.IH [unfolded comp_def]
    by (auto simp: fun_eq_iff option.map_comp comp_def Un_assoc)
qed simp

lemma fold_unassign_workers:
  "fold (seg_step \<circ> (\<lambda>w. NamespaceUnassigned w ns)) wks (seg, ws) =
     (seg, \<lambda>w. if w \<in> set wks then map_option (\<lambda>S. S - set_option (seg ns)) (ws w) else ws w)"
proof (induction wks arbitrary: ws)
  case (Cons w wks)
  show ?case unfolding fold_Cons comp_def seg_step.simps Cons.IH [unfolded comp_def]
    by (auto simp: fun_eq_iff option.map_comp comp_def)
qed simp

lemma orch_inv_cases:
  assumes "registry oc' = registry oc" "seg_abs oc' = seg_abs oc" "views_agree oc'" "orch_inv oc"
  shows "orch_inv oc'"
  using assms(2-) registry_ok [OF assms(1)] by (simp add: orch_inv_def workers_ok_def)

lemma worker_connected_inv:
  assumes inv: "orch_inv oc" and run: "worker_connected info oc = Some s'"
  shows "orch_inv (fst s')"
proof -
  let ?w = "wci_worker_id info"
  obtain c s where
    s: "ws_route (Connected ?w (wci_capabilities info) (wci_tunnel_info info) (wci_wireguard_info info)
          (wci_proto_worker_id info)) (oc\<lparr>oc_connected_workers := AList.update ?w c (oc_connected_workers oc)\<rparr>, output_default) = Some s"
    and f: "fold_opt (announce_worker info) (oc_namespace_ids oc) s = Some s'"
    using run by (auto simp: worker_connected_def Let_def bind_eq_Some_conv)
  let ?oc = "oc\<lparr>oc_connected_workers := AList.update ?w c (oc_connected_workers oc)\<rparr>"
  note fs = ws_route_frame [OF s] and ff = ws_folds_frame [OF ws_folds_ops(1) f]
  have reg: "registry (fst s') = registry ?oc" using fs(1) ff by simp
  have "views_agree ?oc" using inv by (simp add: orch_inv_def views_agree_def sched_view_def ws_view_def fun_eq_iff)
  from ws_route_views [OF _ s] this ff have "views_agree (fst s')" by simp
  moreover have "segments_ok ?oc" "names_ok ?oc" using inv by (simp_all add: orch_inv_def segments_ok_def names_ok_def)
  moreover have "seg_abs (fst s') = (map_of (oc_namespace_segments oc),
      \<lambda>w. if map_of (oc_connected_workers ?oc) w = None then None else Some (ran (map_of (oc_namespace_segments oc))))"
  proof -
    let ?seg = "map_of (oc_namespace_segments oc)"
    have "seg_abs ?oc = seg_abs oc" by (simp add: seg_abs_def)
    moreover have "(\<Union>ns\<in>dom ?seg. set_option (?seg ns)) = ran ?seg" by (force simp: ran_def)
    then have "(\<Union>ns\<in>set (oc_namespace_ids oc). set_option (?seg ns)) = ran ?seg"
      using inv segments_okD(1) [of oc] by (simp add: orch_inv_def)
    ultimately show ?thesis using inv ff fs(2)
      by (simp add: orch_inv_def workers_ok_def Let_def fold_assign_all fun_eq_iff update_conv')
  qed
  ultimately show ?thesis using registry_ok [OF reg] by (simp add: orch_inv_def workers_ok_def)
qed

lemma worker_disconnected_inv:
  assumes inv: "orch_inv oc" and run: "worker_disconnected w oc = Some s'"
  shows "orch_inv (fst s')"
proof -
  let ?oc = "oc\<lparr>oc_connected_workers := AList.delete w (oc_connected_workers oc)\<rparr>"
  obtain s where s: "ws_route (Disconnected w) (?oc, output_default) = Some s"
    and f: "fold_opt (withdraw_worker w) (oc_namespace_ids oc) s = Some s'"
    using run by (auto simp: worker_disconnected_def Let_def bind_eq_Some_conv)
  note fs = ws_route_frame [OF s] and ff = ws_folds_frame [OF ws_folds_ops(2) f]
  have reg: "registry (fst s') = registry ?oc" using fs(1) ff by simp
  have "views_agree ?oc" using inv by (simp add: orch_inv_def views_agree_def sched_view_def ws_view_def fun_eq_iff)
  from ws_route_views [OF _ s] this ff have "views_agree (fst s')" by simp
  moreover have "segments_ok ?oc" "names_ok ?oc" using inv by (simp_all add: orch_inv_def segments_ok_def names_ok_def)
  moreover have "seg_abs (fst s') = (map_of (oc_namespace_segments oc),
      \<lambda>v. if map_of (oc_connected_workers ?oc) v = None then None else Some (ran (map_of (oc_namespace_segments oc))))"
  proof -
    have "seg_abs ?oc = seg_abs oc" by (simp add: seg_abs_def)
    then show ?thesis using inv ff fs(2)
      by (simp add: orch_inv_def workers_ok_def Let_def fold_unassign_unknown fun_eq_iff delete_conv')
  qed
  ultimately show ?thesis using registry_ok [OF reg] by (simp add: orch_inv_def workers_ok_def)
qed

text \<open>Inputs of the event loop other than connections and namespace life cycles.\<close>

fun plain_input :: "orchestrator_input \<Rightarrow> bool" where
  "plain_input (WorkerStateEvent (PressureUpdate _ _ _ _)) = True"
| "plain_input (WorkerStateEvent (PoolCapacityUpdate _ _)) = True"
| "plain_input (WorkerStateEvent (ConditionUpdate _ _ _ _)) = True"
| "plain_input (WorkerStateEvent _) = False"
| "plain_input (SchedulerEvent inp) = keeps_workers inp"
| "plain_input (FromNamespace _ _) = True"

lemma message_keeps_workers: "keeps_workers (scheduler_message_to_input msg)"
  by (cases msg) simp_all

lemma orchestrator_process_inv:
  assumes inv: "orch_inv oc" and plain: "plain_input inp" and run: "orchestrator_process inp oc = Some s'"
  shows "orch_inv (fst s')"
proof -
  have views: "views_agree oc" using inv by (simp add: orch_inv_def)
  have sched: "orch_inv (fst s')" if "keeps_workers i" "sched_route i (oc, output_default) = Some s'" for i
    by (rule orch_inv_cases [OF sched_route_frame [OF that(2), unfolded fst_conv] sched_route_views inv])
       (use that views in simp_all)
  show ?thesis
  proof (cases inp)
    case (WorkerStateEvent ev)
    with run have r: "ws_route ev (oc, output_default) = Some s'" by simp
    have "seg_step ev (seg_abs oc) = seg_abs oc" using plain WorkerStateEvent by (cases ev) simp_all
    then show ?thesis
      using orch_inv_cases [OF ws_route_frame(1) [OF r, unfolded fst_conv] _ ws_route_views [OF _ r] inv]
        ws_route_frame(2) [OF r] views by simp
  qed (use run plain sched message_keeps_workers in auto)
qed

text \<open>Creating and destroying a namespace.\<close>

lemma summary_workers: "cws_worker_id ` set (map summary_of cs) = fst ` set cs"
  by (force simp: summary_of_def case_prod_beta image_iff)

lemma register_segments_ok:
  assumes ok: "segments_ok oc" and new: "ns \<notin> set (oc_namespace_ids oc)" "g \<noteq> 0" "g \<notin> oc_active_segment_ids oc"
    and net: "nc_segment_id network = Some g"
  shows "segments_ok (register_namespace ns g network
    (oc\<lparr>oc_next_namespace_id := i, oc_next_segment_id := n, oc_active_segment_ids := insert g (oc_active_segment_ids oc)\<rparr>))"
proof -
  let ?seg = "map_of (oc_namespace_segments oc)"
  have d: "dom ?seg = set (oc_namespace_ids oc)" "inj_on ?seg (dom ?seg)" "ran ?seg = oc_active_segment_ids oc"
    "0 \<notin> ran ?seg" by (rule segments_okD [OF ok])+
  have nsn: "?seg ns = None" using new(1) d(1) by blast
  have "inj_on (?seg(ns \<mapsto> g)) (dom (?seg(ns \<mapsto> g)))"
    using d(2,3) new(3) nsn by (auto simp: inj_on_def ran_def dom_def)
  then show ?thesis using ok new net d nsn
    by (simp add: segments_ok_def register_namespace_def Let_def update_conv' ran_map_upd insert_commute)
qed

lemma register_names_ok:
  assumes "names_ok oc" "map_of (oc_namespace_names oc) (ns_name ns) = None"
  shows "names_ok (register_namespace ns g network oc)"
  using assms names_ok_free [OF assms] by (auto simp: names_ok_def register_namespace_def update_conv')

lemma create_namespace_run:
  assumes run: "create_namespace name network oc = Some (Inr info, s')"
  obtains oc0 g s where
    "map_of (oc_namespace_names oc) name = None"
    "nci_namespace_id info = \<lparr>ns_name = name, ns_incarnation = oc_next_namespace_id oc\<rparr>"
    "nci_network info = network\<lparr>nc_segment_id := Some g\<rparr>"
    "g \<noteq> 0" "g \<notin> oc_active_segment_ids oc"
    "oc0 = register_namespace (nci_namespace_id info) g (nci_network info)
       (oc\<lparr>oc_next_namespace_id := oc_next_namespace_id oc + 1, oc_next_segment_id := g + 1,
           oc_active_segment_ids := insert g (oc_active_segment_ids oc)\<rparr>)"
    "ws_route (RegisterNamespaceSegment (nci_namespace_id info) g) (oc0, output_default) = Some s"
    "fold_opt (assign_namespace (nci_namespace_id info) (nci_network info))
       (map summary_of (oc_connected_workers (fst s))) s = Some s'"
proof -
  let ?oc = "oc\<lparr>oc_next_namespace_id := oc_next_namespace_id oc + 1\<rparr>"
  have free: "map_of (oc_namespace_names oc) name = None"
    using run by (auto simp: create_namespace_def split: if_splits)
  obtain oc1 g where al: "alloc_segment_id ?oc = Some (oc1, g)"
    using run free by (auto simp: create_namespace_def Let_def bind_eq_Some_conv)
  show thesis
    using that [of g _] alloc_segment_id_Some [OF al] run free al
    by (auto simp: create_namespace_def Let_def bind_eq_Some_conv)
qed

lemma create_namespace_inv:
  assumes inv: "orch_inv oc" and run: "create_namespace name network oc = Some (r, s')"
  shows "orch_inv (fst s')"
proof (cases r)
  case (Inl e)
  with run have "fst s' = oc"
    by (auto simp: create_namespace_def Let_def bind_eq_Some_conv split: if_splits)
  with inv show ?thesis by simp
next
  case (Inr info)
  obtain oc0 g s where
    free: "map_of (oc_namespace_names oc) name = None"
    and ns: "nci_namespace_id info = \<lparr>ns_name = name, ns_incarnation = oc_next_namespace_id oc\<rparr>"
    and net: "nci_network info = network\<lparr>nc_segment_id := Some g\<rparr>"
    and g: "g \<noteq> 0" "g \<notin> oc_active_segment_ids oc"
    and oc0: "oc0 = register_namespace (nci_namespace_id info) g (nci_network info)
       (oc\<lparr>oc_next_namespace_id := oc_next_namespace_id oc + 1, oc_next_segment_id := g + 1,
           oc_active_segment_ids := insert g (oc_active_segment_ids oc)\<rparr>)"
    and s: "ws_route (RegisterNamespaceSegment (nci_namespace_id info) g) (oc0, output_default) = Some s"
    and f: "fold_opt (assign_namespace (nci_namespace_id info) (nci_network info))
       (map summary_of (oc_connected_workers (fst s))) s = Some s'"
    using create_namespace_run [OF run [unfolded Inr]] by blast
  let ?ns = "nci_namespace_id info" and ?seg = "map_of (oc_namespace_segments oc)"
  note fs = ws_route_frame [OF s] and ff = ws_folds_frame [OF ws_folds_ops(3) f]
  have reg: "registry (fst s') = registry oc0" using fs(1) ff by simp
  have new: "?ns \<notin> set (oc_namespace_ids oc)" using inv free ns names_ok_free [of oc name ?ns] by (auto simp: orch_inv_def)
  have seg0: "seg_abs oc0 = seg_abs oc" "map_of (oc_namespace_segments oc0) = ?seg(?ns \<mapsto> g)"
    "oc_connected_workers oc0 = oc_connected_workers oc"
    by (simp_all add: oc0 register_namespace_def seg_abs_def update_conv')
  have "views_agree oc0" using inv
    by (simp add: orch_inv_def views_agree_def sched_view_def ws_view_def oc0 register_namespace_def fun_eq_iff)
  from ws_route_views [OF _ s] this ff have "views_agree (fst s')" by simp
  moreover have "segments_ok oc0" unfolding oc0
    by (rule register_segments_ok) (use inv new g net in \<open>simp_all add: orch_inv_def\<close>)
  moreover have "names_ok oc0" unfolding oc0
    by (rule register_names_ok) (use inv free ns in \<open>simp_all add: orch_inv_def names_ok_def\<close>)
  moreover have "seg_abs (fst s') = (?seg(?ns \<mapsto> g),
      \<lambda>w. if map_of (oc_connected_workers oc) w = None then None else Some (ran (?seg(?ns \<mapsto> g))))"
  proof -
    have "?seg ?ns = None" using inv new by (auto simp: orch_inv_def segments_ok_def Let_def)
    then show ?thesis using inv ff fs(2) registry_ok(5) [OF fs(1)] seg0
      by (simp add: orch_inv_def workers_ok_def Let_def fold_assign_workers [of cws_worker_id] summary_workers
          map_of_eq_None_iff fun_eq_iff ran_map_upd del: set_map)
  qed
  ultimately show ?thesis using registry_ok [OF reg] seg0 by (simp add: orch_inv_def workers_ok_def)
qed

lemma unregister_segments_ok:
  assumes ok: "segments_ok oc"
  shows "segments_ok (unregister_namespace ns oc)"
proof -
  let ?seg = "map_of (oc_namespace_segments oc)"
  have d: "dom ?seg = set (oc_namespace_ids oc)" "inj_on ?seg (dom ?seg)" "ran ?seg = oc_active_segment_ids oc"
    "0 \<notin> ran ?seg" by (rule segments_okD [OF ok])+
  have n: "map_option (\<lambda>g. Some g) (?seg x) = map_option nc_segment_id (map_of (oc_namespace_networks oc) x)" for x
    by (rule segments_okD [OF ok])
  have r: "ran (?seg(ns := None)) = ran ?seg - set_option (?seg ns)"
    using d(2) by (fastforce simp: ran_def inj_on_def dom_def split: option.splits if_splits)
  have i: "inj_on (?seg(ns := None)) (dom (?seg(ns := None)))"
    using d(2) by (auto simp: inj_on_def dom_def)
  show ?thesis
  proof (cases "?seg ns")
    case None
    then have "ns \<notin> set (oc_namespace_ids oc)" using d(1) by blast
    with None show ?thesis using d n [of ns] ok
      by (simp add: segments_ok_def unregister_namespace_def Let_def delete_conv' fun_upd_idem)
  next
    case (Some g)
    then show ?thesis using d r i n
      by (simp add: segments_ok_def unregister_namespace_def Let_def delete_conv' free_segment_id_def)
  qed
qed

lemma unregister_names_ok:
  assumes "names_ok oc" "ns \<in> set (oc_namespace_ids oc)"
  shows "names_ok (unregister_namespace ns oc)"
proof -
  have n: "map_of (oc_namespace_names (unregister_namespace ns oc)) = (map_of (oc_namespace_names oc))(ns_name ns := None)"
    "set (oc_namespace_ids (unregister_namespace ns oc)) = set (oc_namespace_ids oc) - {ns}"
    by (simp_all add: unregister_namespace_def Let_def free_segment_id_def delete_conv' split: option.split)
  have "map_of (oc_namespace_names oc) (ns_name ns) = Some ns" using assms by (simp add: names_ok_def)
  then show ?thesis using assms(1) unfolding names_ok_def n by (metis DiffE DiffI fun_upd_apply insertCI option.distinct(1) option.inject singletonD)
qed

lemma unregister_fields [simp]:
  "seg_abs (unregister_namespace ns oc) = seg_abs oc"
  "oc_connected_workers (unregister_namespace ns oc) = oc_connected_workers oc"
  "map_of (oc_namespace_segments (unregister_namespace ns oc)) = (map_of (oc_namespace_segments oc))(ns := None)"
  "views_agree (unregister_namespace ns oc) = views_agree oc"
  by (auto simp: unregister_namespace_def Let_def seg_abs_def free_segment_id_def delete_conv' views_agree_def
      sched_view_def ws_view_def fun_eq_iff split: option.split)

lemma destroy_namespace_inv:
  assumes inv: "orch_inv oc" and run: "destroy_namespace ns oc = Some (r, s')"
  shows "orch_inv (fst s')"
proof (cases "ns \<in> set (oc_namespace_ids oc)")
  case False
  with run inv show ?thesis by (auto simp: destroy_namespace_def)
next
  case True
  let ?oc = "unregister_namespace ns oc" and ?seg = "map_of (oc_namespace_segments oc)"
  obtain s where f: "fold_opt (unassign_namespace ns) (map fst (oc_connected_workers oc)) (?oc, output_default) = Some s"
    and s: "ws_route (UnregisterNamespaceSegment ns) s = Some s'"
    using run True by (auto simp: destroy_namespace_def Let_def bind_eq_Some_conv)
  note fs = ws_route_frame [OF s] and ff = ws_folds_frame [OF ws_folds_ops(4) f]
  have reg: "registry (fst s') = registry ?oc" using fs(1) ff by simp
  have v: "views_agree (fst s')" using ws_route_views [OF _ s] ff inv by (simp add: orch_inv_def)
  have i: "inj_on ?seg (dom ?seg)" using inv segments_okD(2) by (simp add: orch_inv_def)
  have r: "ran (?seg(ns := None)) = ran ?seg - set_option (?seg ns)"
    using i by (fastforce simp: ran_def inj_on_def dom_def split: option.splits if_splits)
  have "seg_abs (fst s') = (?seg(ns := None),
      \<lambda>w. if map_of (oc_connected_workers oc) w = None then None else Some (ran (?seg(ns := None))))"
    using inv ff fs(2) unfolding r
    by (simp add: orch_inv_def workers_ok_def Let_def fold_unassign_workers map_of_eq_None_iff fun_eq_iff)
  with v show ?thesis
    using registry_ok [OF reg] unregister_segments_ok unregister_names_ok True inv
    by (simp add: orch_inv_def workers_ok_def)
qed

section \<open>Reachable orchestrators\<close>

inductive orch_reach :: "orchestrator_core \<Rightarrow> bool" where
  orch_start: "orch_reach orchestrator_new"
| orch_connect: "orch_reach oc \<Longrightarrow> worker_connected info oc = Some s \<Longrightarrow> orch_reach (fst s)"
| orch_disconnect: "orch_reach oc \<Longrightarrow> worker_disconnected w oc = Some s \<Longrightarrow> orch_reach (fst s)"
| orch_input: "orch_reach oc \<Longrightarrow> plain_input inp \<Longrightarrow> orchestrator_process inp oc = Some s \<Longrightarrow> orch_reach (fst s)"
| orch_create: "orch_reach oc \<Longrightarrow> create_namespace name network oc = Some (r, s) \<Longrightarrow> orch_reach (fst s)"
| orch_destroy: "orch_reach oc \<Longrightarrow> destroy_namespace ns oc = Some (d, s) \<Longrightarrow> orch_reach (fst s)"

lemma orch_reach_inv: "orch_reach oc \<Longrightarrow> orch_inv oc"
proof (induction rule: orch_reach.induct)
  case orch_start
  show ?case by (rule orch_inv_new)
qed (simp_all add: worker_connected_inv worker_disconnected_inv orchestrator_process_inv create_namespace_inv
       destroy_namespace_inv)

text \<open>The commands sent directly to the workers.\<close>

lemma announce_direct:
  assumes "fold_opt (announce_worker info) nss s = Some s'"
  shows "oo_direct_worker_commands (snd s') = oo_direct_worker_commands (snd s) @
    map (\<lambda>ns. (wci_worker_id info, CreateNamespace ns (the (map_of (oc_namespace_networks (fst s)) ns))))
      (filter (\<lambda>ns. map_of (oc_namespace_networks (fst s)) ns \<noteq> None) nss)"
  using assms
proof (induction nss arbitrary: s)
  case (Cons ns nss)
  obtain t where t: "announce_worker info ns s = Some t" "fold_opt (announce_worker info) nss t = Some s'"
    using Cons.prems by (auto split: option.splits)
  obtain out where out: "ws_route (NamespaceAssigned (wci_worker_id info) ns) (fst s, out) = Some t"
    "oo_direct_worker_commands out = oo_direct_worker_commands (snd s) @
      (case map_of (oc_namespace_networks (fst s)) ns of None \<Rightarrow> []
       | Some network \<Rightarrow> [(wci_worker_id info, CreateNamespace ns network)])"
    using t(1) by (cases s) (auto simp: announce_worker_def Let_def split: option.splits)
  show ?case
    using Cons.IH [OF t(2)] ws_route_frame(3) [OF out(1)] registry_ok(6) [OF ws_route_frame(1) [OF out(1)]] out(2)
    by (auto split: option.splits)
qed simp

lemma assign_direct:
  assumes "fold_opt (assign_namespace ns network) sms s = Some s'"
  shows "oo_direct_worker_commands (snd s') = oo_direct_worker_commands (snd s) @
    map (\<lambda>sm. (cws_worker_id sm, CreateNamespace ns network)) sms"
  using assms
proof (induction sms arbitrary: s)
  case (Cons sm sms)
  obtain t where t: "assign_namespace ns network sm s = Some t" "fold_opt (assign_namespace ns network) sms t = Some s'"
    using Cons.prems by (auto split: option.splits)
  show ?case using Cons.IH [OF t(2)] t(1)
    by (cases s) (auto simp: assign_namespace_def dest!: ws_route_frame(3))
qed simp

lemma worker_connected_total: "worker_connected info oc \<noteq> None"
  using ws_route_total ws_folds_total [OF ws_folds_ops(1)]
  by (simp add: worker_connected_def Let_def bind_eq_None_conv)

lemma worker_disconnected_total: "worker_disconnected w oc \<noteq> None"
  using ws_route_total ws_folds_total [OF ws_folds_ops(2)]
  by (simp add: worker_disconnected_def Let_def bind_eq_None_conv)

lemma destroy_namespace_total: "destroy_namespace ns oc \<noteq> None"
  using ws_route_total ws_folds_total [OF ws_folds_ops(4)]
  by (simp add: destroy_namespace_def Let_def bind_eq_None_conv del: not_None_eq)

lemma create_namespace_None:
  "create_namespace name network oc = None \<longleftrightarrow>
     map_of (oc_namespace_names oc) name = None \<and> (\<forall>g. g \<noteq> 0 \<longrightarrow> g \<in> oc_active_segment_ids oc)"
proof -
  let ?oc = "oc\<lparr>oc_next_namespace_id := oc_next_namespace_id oc + 1\<rparr>"
  have al: "alloc_segment_id ?oc = None \<longleftrightarrow> (\<forall>g. g \<noteq> 0 \<longrightarrow> g \<in> oc_active_segment_ids oc)"
    by (simp add: alloc_segment_id_None)
  show ?thesis
  proof (cases "alloc_segment_id ?oc")
    case None
    then show ?thesis using al by (auto simp: create_namespace_def Let_def)
  next
    case (Some p)
    then have "create_namespace name network oc \<noteq> None"
      using ws_route_total ws_folds_total [OF ws_folds_ops(3)]
      by (cases p) (simp add: create_namespace_def Let_def bind_eq_None_conv case_prod_beta del: not_None_eq)
    then show ?thesis using al Some by auto
  qed
qed

lemma create_namespace_Inr:
  "map_of (oc_namespace_names oc) name = None \<Longrightarrow> create_namespace name network oc = Some (r, s) \<Longrightarrow> \<exists>info. r = Inr info"
  by (auto simp: create_namespace_def Let_def bind_eq_Some_conv)

lemma create_namespace_registry:
  assumes "create_namespace name network oc = Some (Inr info, s)"
  shows "\<exists>g. g \<noteq> 0 \<and> g \<notin> oc_active_segment_ids oc \<and> nci_network info = network\<lparr>nc_segment_id := Some g\<rparr> \<and>
    nci_namespace_id info = \<lparr>ns_name = name, ns_incarnation = oc_next_namespace_id oc\<rparr> \<and>
    registry (fst s) = registry (register_namespace (nci_namespace_id info) g (nci_network info)
      (oc\<lparr>oc_next_namespace_id := oc_next_namespace_id oc + 1, oc_next_segment_id := g + 1,
          oc_active_segment_ids := insert g (oc_active_segment_ids oc)\<rparr>))"
proof (rule create_namespace_run [OF assms])
  fix oc0 g t
  assume g: "g \<noteq> 0" "g \<notin> oc_active_segment_ids oc" "nci_network info = network\<lparr>nc_segment_id := Some g\<rparr>"
      "nci_namespace_id info = \<lparr>ns_name = name, ns_incarnation = oc_next_namespace_id oc\<rparr>"
    and oc0: "oc0 = register_namespace (nci_namespace_id info) g (nci_network info)
      (oc\<lparr>oc_next_namespace_id := oc_next_namespace_id oc + 1, oc_next_segment_id := g + 1,
          oc_active_segment_ids := insert g (oc_active_segment_ids oc)\<rparr>)"
    and t: "ws_route (RegisterNamespaceSegment (nci_namespace_id info) g) (oc0, output_default) = Some t"
    and f: "fold_opt (assign_namespace (nci_namespace_id info) (nci_network info))
      (map summary_of (oc_connected_workers (fst t))) t = Some s"
  have "registry (fst s) = registry oc0"
    using ws_route_frame(1) [OF t] ws_folds_frame [OF ws_folds_ops(3) f] by simp
  with g oc0 show ?thesis by blast
qed

lemma create_namespace_direct:
  assumes "create_namespace name network oc = Some (Inr info, s)"
  shows "oo_direct_worker_commands (snd s) =
    map (\<lambda>w. (w, CreateNamespace (nci_namespace_id info) (nci_network info))) (map fst (oc_connected_workers oc))"
proof (rule create_namespace_run [OF assms])
  fix oc0 g t
  assume oc0: "oc0 = register_namespace (nci_namespace_id info) g (nci_network info)
      (oc\<lparr>oc_next_namespace_id := oc_next_namespace_id oc + 1, oc_next_segment_id := g + 1,
          oc_active_segment_ids := insert g (oc_active_segment_ids oc)\<rparr>)"
    and t: "ws_route (RegisterNamespaceSegment (nci_namespace_id info) g) (oc0, output_default) = Some t"
    and f: "fold_opt (assign_namespace (nci_namespace_id info) (nci_network info))
      (map summary_of (oc_connected_workers (fst t))) t = Some s"
  show ?thesis
    using assign_direct [OF f] ws_route_frame(3) [OF t] registry_ok(5) [OF ws_route_frame(1) [OF t]]
    by (simp add: output_default_def oc0 register_namespace_def summary_of_def case_prod_beta)
qed

text \<open>Concrete inputs for the examples.\<close>

definition example_network :: network_config where
  "example_network = \<lparr>nc_subnet = 0x0A000000, nc_gateway = 0x0A000001, nc_prefix_len = 24, nc_segment_id = None\<rparr>"

definition example_worker :: worker_connected_info where
  "example_worker = \<lparr>wci_worker_id = WorkerId 1,
     wci_capabilities = \<lparr>wc_has_kvm = True, wc_has_containerd = False, wc_available_adapters = [], wc_max_pods = 10,
       wc_available_memory_mb = 1024, wc_public_endpoint = [], wc_pools = []\<rparr>,
     wci_tunnel_info = None, wci_wireguard_info = None, wci_proto_worker_id = WorkerId 1\<rparr>"

lemma create_first:
  "\<exists>info s. create_namespace name network orchestrator_new = Some (Inr info, s) \<and>
     oc_namespace_ids (fst s) = [nci_namespace_id info] \<and> ns_name (nci_namespace_id info) = name"
proof -
  have n: "oc_namespace_names orchestrator_new = []" "oc_active_segment_ids orchestrator_new = {}"
    "oc_namespace_ids orchestrator_new = []"
    by (simp_all add: orchestrator_new_def)
  have "create_namespace name network orchestrator_new \<noteq> None"
    unfolding create_namespace_None n using one_neq_zero by blast
  then obtain r s where r: "create_namespace name network orchestrator_new = Some (r, s)" by auto
  then obtain info where i: "r = Inr info" using create_namespace_Inr n(1) by (metis map_of.simps(1))
  have "ns_name (nci_namespace_id info) = name"
    using r i by (auto elim: create_namespace_run)
  moreover have "oc_namespace_ids (fst s) = [nci_namespace_id info]"
    using create_namespace_registry [of name network orchestrator_new info s] r i n(3)
    by (auto simp: registry_def register_namespace_def)
  ultimately show ?thesis using r i by blast
qed

section \<open>Properties\<close>

text \<open>
  C37. Worker states and scheduler feed each other's effects back.  The recursion
  always ends, within the depth given to it: every input, every connection and
  disconnection of a worker and every removal of a namespace returns, whatever
  the state.
\<close>

theorem orchestrator_routing_ends:
  "orchestrator_process inp oc \<noteq> None \<and> worker_connected info oc \<noteq> None \<and>
   worker_disconnected w oc \<noteq> None \<and> destroy_namespace ns oc \<noteq> None"
  using orchestrator_process_total worker_connected_total worker_disconnected_total destroy_namespace_total by metis

text \<open>
  C6. In a reachable orchestrator every namespace has a segment of its own, never
  0, recorded in the network configuration sent to workers; the segments taken are
  exactly those in use; a name leads to the one namespace that carries it; the
  tracked workers are the connected ones, and each is registered for exactly the
  segments in use.
\<close>

theorem orchestrator_registry_invariant:
  assumes "orch_reach oc"
  shows "dom (map_of (oc_namespace_segments oc)) = set (oc_namespace_ids oc) \<and>
    inj_on (map_of (oc_namespace_segments oc)) (set (oc_namespace_ids oc)) \<and>
    oc_active_segment_ids oc = ran (map_of (oc_namespace_segments oc)) \<and> 0 \<notin> oc_active_segment_ids oc \<and>
    map_option nc_segment_id (map_of (oc_namespace_networks oc) ns) =
      map_option Some (map_of (oc_namespace_segments oc) ns) \<and>
    (map_of (oc_namespace_names oc) name = Some ns \<longleftrightarrow> ns \<in> set (oc_namespace_ids oc) \<and> ns_name ns = name) \<and>
    map_option (set \<circ> tw_segments) (map_of (ws_workers (oc_worker_state oc)) w) =
      map_option (\<lambda>_. oc_active_segment_ids oc) (map_of (oc_connected_workers oc) w)"
proof (intro conjI)
  have ok: "segments_ok oc" "names_ok oc" "workers_ok oc" using orch_reach_inv [OF assms] by (simp_all add: orch_inv_def)
  note seg = segments_okD [OF ok(1)]
  show "dom (map_of (oc_namespace_segments oc)) = set (oc_namespace_ids oc)"
    "inj_on (map_of (oc_namespace_segments oc)) (set (oc_namespace_ids oc))"
    "oc_active_segment_ids oc = ran (map_of (oc_namespace_segments oc))" "0 \<notin> oc_active_segment_ids oc"
    using seg(1-4) by simp_all
  show "map_option nc_segment_id (map_of (oc_namespace_networks oc) ns) =
      map_option Some (map_of (oc_namespace_segments oc) ns)" using seg(5) by simp
  show "map_of (oc_namespace_names oc) name = Some ns \<longleftrightarrow> ns \<in> set (oc_namespace_ids oc) \<and> ns_name ns = name"
    using ok(2) by (simp add: names_ok_def)
  show "map_option (set \<circ> tw_segments) (map_of (ws_workers (oc_worker_state oc)) w) =
      map_option (\<lambda>_. oc_active_segment_ids oc) (map_of (oc_connected_workers oc) w)"
    using ok(3) seg(3) by (auto simp add: workers_ok_def Let_def seg_abs_def fun_eq_iff)
qed

theorem orchestrator_registry_invariant_witness:
  "\<exists>oc ns. orch_reach oc \<and> oc_namespace_ids oc = [ns] \<and> ns_name ns = ''a'' \<and>
     0 \<notin> oc_active_segment_ids oc \<and> map_of (oc_namespace_names oc) ''a'' = Some ns"
proof -
  obtain info s where c: "create_namespace ''a'' example_network orchestrator_new = Some (Inr info, s)"
    "oc_namespace_ids (fst s) = [nci_namespace_id info]" "ns_name (nci_namespace_id info) = ''a''"
    using create_first by blast
  have "orch_reach (fst s)" by (rule orch_create [OF orch_start c(1)])
  with orchestrator_registry_invariant [OF this, of "nci_namespace_id info" "''a''"] c(2,3) show ?thesis by auto
qed

text \<open>
  C38. In a reachable orchestrator the scheduler knows exactly the tracked workers,
  with the candidate data (capacity, pod count, pools, pressure) their current
  state gives.
\<close>

theorem scheduler_sees_workers:
  assumes "orch_reach oc"
  shows "map_of (sc_workers (oc_scheduler oc)) w =
    map_option (to_candidate w) (map_of (ws_workers (oc_worker_state oc)) w)"
  using orch_reach_inv [OF assms]
  by (simp add: orch_inv_def views_agree_def sched_view_def ws_view_def fun_eq_iff)

theorem scheduler_sees_workers_witness:
  "\<exists>oc out. worker_connected example_worker orchestrator_new = Some (oc, out) \<and>
     map_of (sc_workers (oc_scheduler oc)) (WorkerId 1) =
       map_option (to_candidate (WorkerId 1)) (map_of (ws_workers (oc_worker_state oc)) (WorkerId 1)) \<and>
     map_of (sc_workers (oc_scheduler oc)) (WorkerId 1) \<noteq> None"
proof -
  obtain oc out where c: "worker_connected example_worker orchestrator_new = Some (oc, out)"
    using worker_connected_total by (metis not_None_eq surj_pair)
  have "map_of (sc_workers (oc_scheduler (fst (the (worker_connected example_worker orchestrator_new))))) (WorkerId 1) \<noteq> None"
    unfolding example_worker_def by code_simp
  moreover have "orch_reach oc" using orch_connect [OF orch_start c] by simp
  ultimately show ?thesis using scheduler_sees_workers [of oc "WorkerId 1"] c by simp
qed



text \<open>
  A worker that connects to a reachable orchestrator is told to create every
  existing namespace, each with the network configuration that carries the
  namespace's own segment.
\<close>

theorem worker_connected_announces:
  assumes "orch_reach oc" "worker_connected info oc = Some s"
  shows "oo_direct_worker_commands (snd s) = map (\<lambda>ns. (wci_worker_id info,
      CreateNamespace ns (the (map_of (oc_namespace_networks oc) ns)))) (oc_namespace_ids oc) \<and>
    (\<forall>ns \<in> set (oc_namespace_ids oc). \<exists>g. map_of (oc_namespace_segments oc) ns = Some g \<and>
      nc_segment_id (the (map_of (oc_namespace_networks oc) ns)) = Some g)"
proof (intro conjI ballI)
  have ok: "segments_ok oc" using orch_reach_inv [OF assms(1)] by (simp add: orch_inv_def)
  have nets: "\<exists>g network. map_of (oc_namespace_segments oc) ns = Some g \<and>
      map_of (oc_namespace_networks oc) ns = Some network \<and> nc_segment_id network = Some g"
    if "ns \<in> set (oc_namespace_ids oc)" for ns
    using that segments_okD(5) [OF ok, of ns]
    by (cases "map_of (oc_namespace_networks oc) ns") (auto simp flip: segments_okD(1) [OF ok])
  show "\<exists>g. map_of (oc_namespace_segments oc) ns = Some g \<and>
      nc_segment_id (the (map_of (oc_namespace_networks oc) ns)) = Some g" if "ns \<in> set (oc_namespace_ids oc)" for ns
    using nets [OF that] by fastforce
  obtain c t where
    t: "ws_route (Connected (wci_worker_id info) (wci_capabilities info) (wci_tunnel_info info) (wci_wireguard_info info)
          (wci_proto_worker_id info)) (oc\<lparr>oc_connected_workers := c\<rparr>, output_default) = Some t"
    and f: "fold_opt (announce_worker info) (oc_namespace_ids oc) t = Some s"
    using assms(2) by (auto simp: worker_connected_def Let_def bind_eq_Some_conv)
  have net: "oc_namespace_networks (fst t) = oc_namespace_networks oc"
    using registry_ok(6) [OF ws_route_frame(1) [OF t]] by simp
  have "filter (\<lambda>ns. map_of (oc_namespace_networks oc) ns \<noteq> None) (oc_namespace_ids oc) = oc_namespace_ids oc"
    using nets by (fastforce simp: filter_id_conv)
  then show "oo_direct_worker_commands (snd s) = map (\<lambda>ns. (wci_worker_id info,
      CreateNamespace ns (the (map_of (oc_namespace_networks oc) ns)))) (oc_namespace_ids oc)"
    using announce_direct [OF f] ws_route_frame(3) [OF t] by (simp add: net output_default_def)
qed

theorem worker_connected_announces_witness:
  "\<exists>oc s ns network. orch_reach oc \<and> worker_connected example_worker oc = Some s \<and> ns_name ns = ''a'' \<and>
     oo_direct_worker_commands (snd s) = [(WorkerId 1, CreateNamespace ns network)]"
proof -
  obtain info s where c: "create_namespace ''a'' example_network orchestrator_new = Some (Inr info, s)"
    "oc_namespace_ids (fst s) = [nci_namespace_id info]" "ns_name (nci_namespace_id info) = ''a''"
    using create_first by blast
  have r: "orch_reach (fst s)" by (rule orch_create [OF orch_start c(1)])
  obtain t where t: "worker_connected example_worker (fst s) = Some t" using worker_connected_total by blast
  have "wci_worker_id example_worker = WorkerId 1" by (simp add: example_worker_def)
  with worker_connected_announces [OF r t] c(2) have "oo_direct_worker_commands (snd t) = [(WorkerId 1,
      CreateNamespace (nci_namespace_id info) (the (map_of (oc_namespace_networks (fst s)) (nci_namespace_id info))))]"
    by simp
  with r t c(3) show ?thesis by blast
qed

end
