(* ===== verification/Activator_Types.thy ===== *)
theory Activator_Types
  imports Prelude
begin

text \<open>
  The interface between the fabric and the activators
  (\<open>activators/activator-types\<close>): events delivered to an activator and the
  actions it returns.
\<close>

type_synonym packet_flow = u64
type_synonym stream = u64

datatype ip_protocol_kind = ProtoTcp | ProtoUdp | ProtoOther

record packet_info =
  pki_flow :: packet_flow
  pki_src_addr :: "u8 list"
  pki_dst_addr :: "u8 list"
  pki_src_port :: u16
  pki_dst_port :: u16
  pki_protocol :: ip_protocol_kind
  pki_tcp_flags :: "u8 option"
  pki_payload_len :: nat
  pki_raw_frame :: "u8 list"

datatype packet_decision = DecisionBuffered | DecisionDrop

datatype act_backend_need = NeedNone | NeedTraffic | NeedActive

datatype log_level = LevelTrace | LevelDebug | LevelInfo | LevelWarn | LevelError

record log_action =
  la_level :: log_level
  la_message :: string

datatype act_event =
    EvBackendAvailable bool
  | EvTick
  | EvPacket packet_info
  | EvStreamOpen stream
  | EvStreamData stream "u8 list"
  | EvStreamClose stream
  | EvUpstreamConnectResult stream bool
  | EvUpstreamData stream "u8 list"
  | EvUpstreamClose stream

datatype action =
    SetBackendNeed act_backend_need
  | Log log_action
  | PacketDecision packet_flow packet_decision
  | PacketReply packet_flow "u8 list"
  | ReplayPacket "u8 list"
  | DownstreamSend stream "u8 list"
  | DownstreamClose stream
  | PauseDownstream stream
  | ResumeDownstream stream
  | UpstreamConnect u16
  | UpstreamSend stream "u8 list"
  | UpstreamClose stream
  | PauseUpstream stream
  | ResumeUpstream stream

fun is_l4_action :: "action \<Rightarrow> bool" where
  "is_l4_action (DownstreamSend _ _) = True"
| "is_l4_action (DownstreamClose _) = True"
| "is_l4_action (PauseDownstream _) = True"
| "is_l4_action (ResumeDownstream _) = True"
| "is_l4_action (UpstreamConnect _) = True"
| "is_l4_action (UpstreamSend _ _) = True"
| "is_l4_action (UpstreamClose _) = True"
| "is_l4_action (PauseUpstream _) = True"
| "is_l4_action (ResumeUpstream _) = True"
| "is_l4_action _ = False"

text \<open>The last backend need among a list of actions, starting from an earlier one.\<close>

fun last_need :: "act_backend_need \<Rightarrow> action list \<Rightarrow> act_backend_need" where
  "last_need need [] = need"
| "last_need need (SetBackendNeed n # acts) = last_need n acts"
| "last_need need (_ # acts) = last_need need acts"

lemma last_need_append [simp]: "last_need n (xs @ ys) = last_need (last_need n xs) ys"
  by (induction n xs rule: last_need.induct) simp_all

end
