(* ===== verification/Packet.thy ===== *)
theory Packet
  imports Prelude
begin

text \<open>
  The packets of the worker fabric (\<open>worker/src/packet\<close>): a three-byte fabric
  header followed by a raw IPv4 packet.  The theory models the internet checksum,
  its incremental updates, the deferred completion of a transport checksum, the
  field accessors and the rewriting of addresses, all on lists of bytes.

  The lemmas reduce the word arithmetic to sums of 16-bit words modulo 65535 and
  show that the incremental updates agree with recomputation.
\<close>

unbundle bit_operations_syntax

section \<open>Bytes\<close>

definition be16 :: "u8 \<Rightarrow> u8 \<Rightarrow> u16" where
  "be16 a b = push_bit 8 (ucast a) OR ucast b"

definition to_be16 :: "u16 \<Rightarrow> u8 list" where
  "to_be16 w = [ucast (drop_bit 8 w), ucast w]"

definition ipv4_new :: "u8 \<Rightarrow> u8 \<Rightarrow> u8 \<Rightarrow> u8 \<Rightarrow> ipv4" where
  "ipv4_new a b c d = push_bit 24 (ucast a) OR push_bit 16 (ucast b) OR push_bit 8 (ucast c) OR ucast d"

definition octets :: "ipv4 \<Rightarrow> u8 list" where
  "octets ip = [ucast (drop_bit 24 ip), ucast (drop_bit 16 ip), ucast (drop_bit 8 ip), ucast ip]"

text \<open>\<open>buf[i..i + len].copy_from_slice(bs)\<close>, inside the buffer.\<close>

definition copy_at :: "nat \<Rightarrow> u8 list \<Rightarrow> u8 list \<Rightarrow> u8 list" where
  "copy_at i bs buf = take i buf @ bs @ drop (i + length bs) buf"

definition get16 :: "u8 list \<Rightarrow> nat \<Rightarrow> u16" where
  "get16 buf i = be16 (buf ! i) (buf ! (i + 1))"

section \<open>Constants and the fabric header\<close>

definition FABRIC_HDR_SZ :: nat where
  "FABRIC_HDR_SZ = 3"

definition FLAG_NEEDS_CSUM :: u8 where
  "FLAG_NEEDS_CSUM = 1"

definition IP_PROTO_TCP :: u8 where
  "IP_PROTO_TCP = 6"

definition IP_PROTO_UDP :: u8 where
  "IP_PROTO_UDP = 17"

record fabric_header =
  fh_flags :: u8
  fh_segment_id :: u16

section \<open>Checksums\<close>

text \<open>The loop over pairs of bytes, with the odd last byte as a high byte.\<close>

fun sum_words :: "u8 list \<Rightarrow> u32 \<Rightarrow> u32" where
  "sum_words (a # b # rest) s = sum_words rest (s + ucast (be16 a b))"
| "sum_words [a] s = s + push_bit 8 (ucast a)"
| "sum_words [] s = s"

text \<open>The loop \<open>while sum >> 16 != 0\<close>.\<close>

function fold_carry :: "u32 \<Rightarrow> u32" where
  "fold_carry s = (if drop_bit 16 s \<noteq> 0 then fold_carry ((s AND 0xFFFF) + drop_bit 16 s) else s)"
  by pat_completeness auto

lemma unat_low16: "unat (s AND 0xFFFF :: u32) = unat s mod 65536"
proof -
  have "s AND 0xFFFF = take_bit 16 s" by (simp add: take_bit_eq_mask mask_eq_exp_minus_1)
  then show ?thesis by (simp add: take_bit_eq_mod unat_mod)
qed

lemma unat_high16: "unat (drop_bit 16 s :: u32) = unat s div 65536"
  by (simp add: drop_bit_eq_div unat_div)

lemma unat_fold_step: "unat ((s AND 0xFFFF) + drop_bit 16 s :: u32) = unat s mod 65536 + unat s div 65536"
proof -
  have "unat s < 4294967296" using unsigned_less [of s] by simp
  then have "unat s div 65536 < 65536" by (simp add: less_mult_imp_div_less)
  moreover have "unat s mod 65536 < 65536" by simp
  ultimately have "unat s mod 65536 + unat s div 65536 < 4294967296" by linarith
  then show ?thesis by (simp add: unat_word_ariths unat_low16 unat_high16)
qed

termination fold_carry
proof (relation "measure unat")
  fix s :: u32
  assume "drop_bit 16 s \<noteq> 0"
  then have "0 < unat s div 65536" using unat_high16 [of s] by (metis unat_eq_zero gr0I)
  moreover have "unat s = unat s div 65536 * 65536 + unat s mod 65536" by simp
  ultimately have "unat s mod 65536 + unat s div 65536 < unat s" by linarith
  then show "((s AND 0xFFFF) + drop_bit 16 s, s) \<in> measure unat" by (simp add: unat_fold_step)
qed simp

declare fold_carry.simps [simp del]

definition internet_checksum :: "u8 list \<Rightarrow> u16" where
  "internet_checksum data = NOT (ucast (fold_carry (sum_words data 0)))"

definition incremental_csum_update :: "u16 \<Rightarrow> u16 \<Rightarrow> u16 \<Rightarrow> u16" where
  "incremental_csum_update old_csum old_word new_word =
     (let s = (ucast (NOT old_csum) :: u32) + ucast (NOT old_word) + ucast new_word
      in ucast (NOT (fold_carry s)))"

definition incremental_partial_update :: "u16 \<Rightarrow> u16 \<Rightarrow> u16 \<Rightarrow> u16" where
  "incremental_partial_update old_partial old_word new_word =
     (let s = (ucast old_partial :: u32) + ucast (NOT old_word) + ucast new_word
      in ucast (fold_carry s))"

definition ihl_of :: "u8 list \<Rightarrow> nat" where
  "ihl_of frame = unat (frame ! FABRIC_HDR_SZ AND 0x0f) * 4"

definition csum_offset_of :: "u8 \<Rightarrow> nat option" where
  "csum_offset_of protocol =
     (if protocol = IP_PROTO_TCP then Some 16 else if protocol = IP_PROTO_UDP then Some 6 else None)"

definition complete_checksum :: "u8 list \<Rightarrow> u8 list" where
  "complete_checksum frame =
     (if length frame < FABRIC_HDR_SZ + 20 then frame
      else let flags = frame ! 0
           in if flags AND FLAG_NEEDS_CSUM = 0 then frame
              else let ip_start = FABRIC_HDR_SZ; ihl = ihl_of frame; protocol = frame ! (ip_start + 9)
                   in case csum_offset_of protocol of
                        None \<Rightarrow> frame
                      | Some csum_offset \<Rightarrow>
                          let abs_start = ip_start + ihl; abs_csum = abs_start + csum_offset
                          in if abs_csum + 2 > length frame \<or> abs_start > length frame then frame
                             else let checksum = internet_checksum (drop abs_start frame);
                                      frame = frame[abs_csum := ucast (drop_bit 8 checksum),
                                                    abs_csum + 1 := ucast (checksum AND 0xFF)]
                                  in frame[0 := flags AND NOT FLAG_NEEDS_CSUM])"

section \<open>Field access\<close>

definition fabric_packet_new :: "u8 list \<Rightarrow> u8 list option" where
  "fabric_packet_new raw = (if length raw < FABRIC_HDR_SZ + 20 then None else Some raw)"

definition fabric_header_of :: "u8 list \<Rightarrow> fabric_header" where
  "fabric_header_of raw = \<lparr>fh_flags = raw ! 0, fh_segment_id = be16 (raw ! 1) (raw ! 2)\<rparr>"

definition ip_packet :: "u8 list \<Rightarrow> u8 list" where
  "ip_packet raw = drop FABRIC_HDR_SZ raw"

definition ipv4_at :: "u8 list \<Rightarrow> nat \<Rightarrow> ipv4" where
  "ipv4_at ip i = ipv4_new (ip ! i) (ip ! (i + 1)) (ip ! (i + 2)) (ip ! (i + 3))"

definition ipv4_dst :: "u8 list \<Rightarrow> ipv4" where
  "ipv4_dst raw = ipv4_at (drop FABRIC_HDR_SZ raw) 16"

definition ipv4_src :: "u8 list \<Rightarrow> ipv4" where
  "ipv4_src raw = ipv4_at (drop FABRIC_HDR_SZ raw) 12"

definition ip_protocol :: "u8 list \<Rightarrow> u8" where
  "ip_protocol raw = raw ! (FABRIC_HDR_SZ + 9)"

definition transport_ports :: "u8 list \<Rightarrow> (u16 \<times> u16) option" where
  "transport_ports raw =
     (let protocol = ip_protocol raw
      in if protocol \<noteq> IP_PROTO_TCP \<and> protocol \<noteq> IP_PROTO_UDP then None
         else let transport_start = FABRIC_HDR_SZ + ihl_of raw
              in if length raw < transport_start + 4 then None
                 else Some (get16 raw transport_start, get16 raw (transport_start + 2)))"

definition tcp_flags :: "u8 list \<Rightarrow> u8 option" where
  "tcp_flags raw =
     (if ip_protocol raw \<noteq> IP_PROTO_TCP then None
      else let tcp_start = FABRIC_HDR_SZ + ihl_of raw
           in if length raw < tcp_start + 14 then None else Some (raw ! (tcp_start + 13)))"

text \<open>The same accessors on a raw IP packet without the fabric header.\<close>

definition ip_packet_dst :: "u8 list \<Rightarrow> ipv4 option" where
  "ip_packet_dst packet = (if length packet < 20 then None else Some (ipv4_at packet 16))"

definition ip_packet_src :: "u8 list \<Rightarrow> ipv4 option" where
  "ip_packet_src packet = (if length packet < 20 then None else Some (ipv4_at packet 12))"

definition ip_packet_protocol :: "u8 list \<Rightarrow> u8 option" where
  "ip_packet_protocol packet = (if length packet < 20 then None else Some (packet ! 9))"

definition ip_packet_transport_ports :: "u8 list \<Rightarrow> (u16 \<times> u16) option" where
  "ip_packet_transport_ports packet =
     (if length packet < 20 then None
      else let protocol = packet ! 9
           in if protocol \<noteq> IP_PROTO_TCP \<and> protocol \<noteq> IP_PROTO_UDP then None
              else let transport_start = unat (packet ! 0 AND 0x0f) * 4
                   in if length packet < transport_start + 4 then None
                      else Some (get16 packet transport_start, get16 packet (transport_start + 2)))"

definition with_fabric_header :: "u8 \<Rightarrow> u16 \<Rightarrow> u8 list \<Rightarrow> u8 list" where
  "with_fabric_header flags segment_id packet = [flags] @ to_be16 segment_id @ packet"

section \<open>Address rewriting\<close>

definition update_ip_header_csum :: "u8 list \<Rightarrow> nat \<Rightarrow> u8 list \<Rightarrow> u8 list \<Rightarrow> u8 list" where
  "update_ip_header_csum frame ip_start old_octets new_octets =
     (let csum_off = ip_start + 10;
          csum = incremental_csum_update (get16 frame csum_off) (get16 old_octets 0) (get16 new_octets 0);
          csum = incremental_csum_update csum (get16 old_octets 2) (get16 new_octets 2)
      in copy_at csum_off (to_be16 csum) frame)"

definition update_transport_csum_for_ip_change :: "u8 list \<Rightarrow> nat \<Rightarrow> u8 list \<Rightarrow> u8 list \<Rightarrow> u8 list" where
  "update_transport_csum_for_ip_change frame ip_start old_octets new_octets =
     (if length frame < FABRIC_HDR_SZ + 20 then frame
      else let flags = frame ! 0;
               ihl = unat (frame ! ip_start AND 0x0f) * 4;
               protocol = frame ! (ip_start + 9);
               transport_start = ip_start + ihl
           in case csum_offset_of protocol of
                None \<Rightarrow> frame
              | Some csum_offset \<Rightarrow>
                  let abs_csum_pos = transport_start + csum_offset;
                      update = (if flags AND FLAG_NEEDS_CSUM \<noteq> 0 then incremental_partial_update
                                else incremental_csum_update)
                  in if length frame < abs_csum_pos + 2 then frame
                     else let csum = update (get16 frame abs_csum_pos) (get16 old_octets 0) (get16 new_octets 0);
                              csum = update csum (get16 old_octets 2) (get16 new_octets 2)
                          in copy_at abs_csum_pos (to_be16 csum) frame)"

definition rewrite_ipv4_dst :: "u8 list \<Rightarrow> ipv4 \<Rightarrow> ipv4 \<Rightarrow> u8 list" where
  "rewrite_ipv4_dst frame old_ip new_ip =
     (let ip_start = FABRIC_HDR_SZ
      in if length frame < ip_start + 20 then frame
         else let frame = copy_at (ip_start + 16) (octets new_ip) frame;
                  frame = update_ip_header_csum frame ip_start (octets old_ip) (octets new_ip)
              in update_transport_csum_for_ip_change frame ip_start (octets old_ip) (octets new_ip))"

definition rewrite_ipv4_src :: "u8 list \<Rightarrow> ipv4 \<Rightarrow> ipv4 \<Rightarrow> u8 list" where
  "rewrite_ipv4_src frame old_ip new_ip =
     (let ip_start = FABRIC_HDR_SZ
      in if length frame < ip_start + 20 then frame
         else let frame = copy_at (ip_start + 12) (octets new_ip) frame;
                  frame = update_ip_header_csum frame ip_start (octets old_ip) (octets new_ip)
              in update_transport_csum_for_ip_change frame ip_start (octets old_ip) (octets new_ip))"

section \<open>Sums modulo 65535\<close>

text \<open>The sum of the 16-bit words of a byte string, as a natural number.\<close>

fun wsum :: "u8 list \<Rightarrow> nat" where
  "wsum (a # b # rest) = unat a * 256 + unat b + wsum rest"
| "wsum [a] = unat a * 256"
| "wsum [] = 0"

text \<open>End-around carry in closed form: the representative of a class modulo 65535, 0 only for 0.\<close>

definition ones_fold :: "nat \<Rightarrow> nat" where
  "ones_fold n = (if n = 0 then 0 else (n - 1) mod 65535 + 1)"

lemma ones_fold_small: "n < 65536 \<Longrightarrow> ones_fold n = n"
  by (cases n) (simp_all add: ones_fold_def)

lemma ones_fold_cong:
  assumes "m mod 65535 = n mod 65535" "(m = 0) = (n = 0)"
  shows "ones_fold m = ones_fold n"
proof (cases "n = 0")
  case False
  then obtain a b where "m = Suc a" "n = Suc b" using assms(2) by (metis not0_implies_Suc)
  have "(Suc a + 65534) mod 65535 = (Suc b + 65534) mod 65535"
    using assms(1) unfolding \<open>m = Suc a\<close> \<open>n = Suc b\<close> by (rule mod_add_cong) simp
  then have "a mod 65535 = b mod 65535" by simp
  then show ?thesis by (simp add: \<open>m = Suc a\<close> \<open>n = Suc b\<close> ones_fold_def)
qed (use assms in simp)

lemma ones_fold_less: "ones_fold n < 65536"
  by (simp add: ones_fold_def)

lemma ones_fold_mod: "ones_fold n mod 65535 = n mod 65535"
  by (cases n) (simp_all add: ones_fold_def mod_Suc_eq)

lemma ones_fold_zero [simp]: "ones_fold n = 0 \<longleftrightarrow> n = 0"
  by (simp add: ones_fold_def)

lemma ones_fold_step:
  assumes "0 < n div 65536"
  shows "ones_fold (n mod 65536 + n div 65536) = ones_fold n"
proof (rule ones_fold_cong)
  have "n = n div 65536 * 65535 + (n mod 65536 + n div 65536)" using div_mult_mod_eq [of n 65536] by linarith
  then show "(n mod 65536 + n div 65536) mod 65535 = n mod 65535" by (metis mod_mult_self3)
  show "(n mod 65536 + n div 65536 = 0) = (n = 0)" using assms by (cases n) auto
qed

lemma unat_fold_carry: "unat (fold_carry s) = ones_fold (unat s)"
proof (induction s rule: fold_carry.induct)
  case (1 s)
  show ?case
  proof (cases "drop_bit 16 s = 0")
    case True
    then have "unat s div 65536 = 0" using unat_high16 [of s] by simp
    then have "unat s < 65536" by (simp add: div_eq_0_iff)
    with True show ?thesis by (simp add: fold_carry.simps [of s] ones_fold_small)
  next
    case False
    then have "0 < unat s div 65536" using unat_high16 [of s] by (metis unat_eq_zero gr0I)
    then have "ones_fold (unat s mod 65536 + unat s div 65536) = ones_fold (unat s)"
      by (rule ones_fold_step)
    with 1 [OF False] False show ?thesis
      by (subst fold_carry.simps) (simp add: unat_fold_step)
  qed
qed

section \<open>Bytes and words\<close>

lemma u8_less: "unat (a :: u8) < 256"
proof -
  have "unat a < 2 ^ LENGTH(8)" by (rule unsigned_less)
  then show ?thesis by simp
qed

lemma u16_less: "unat (w :: u16) < 65536"
proof -
  have "unat w < 2 ^ LENGTH(16)" by (rule unsigned_less)
  then show ?thesis by simp
qed

lemma u32_less: "unat (s :: u32) < 4294967296"
proof -
  have "unat s < 2 ^ LENGTH(32)" by (rule unsigned_less)
  then show ?thesis by simp
qed

lemma u8_bit [simp]: "8 \<le> n \<Longrightarrow> \<not> bit (a :: u8) n"
  using bit_imp_le_length [of a n] by auto

lemma unat_be16: "unat (be16 a b) = unat a * 256 + unat b"
proof -
  have a: "unat a < 256" and b: "unat b < 256" by (rule u8_less)+
  have "be16 a b = push_bit 8 (ucast a) + ucast b"
    unfolding be16_def by (rule disjunctive_add [symmetric]) (auto simp: bit_simps)
  also have "unat \<dots> = (unat (push_bit 8 (ucast a) :: u16) + unat (ucast b :: u16)) mod 65536"
    by (simp add: unat_word_ariths)
  also have "unat (push_bit 8 (ucast a) :: u16) = unat a * 256"
    using a by (simp add: push_bit_eq_mult unat_word_ariths unsigned_ucast_eq take_bit_nat_eq_self)
  also have "unat (ucast b :: u16) = unat b" using b by (simp add: unsigned_ucast_eq take_bit_nat_eq_self)
  finally show ?thesis using a b by simp
qed

lemma to_be16_be16 [simp]: "to_be16 (be16 a b) = [a, b]"
  unfolding to_be16_def be16_def by (auto intro!: bit_word_eqI simp: bit_simps)

lemma be16_to_be16: "be16 (ucast (drop_bit 8 w)) (ucast w) = w"
  unfolding be16_def by (rule bit_word_eqI) (auto simp: bit_simps)

lemma length_to_be16 [simp]: "length (to_be16 w) = 2"
  by (simp add: to_be16_def)

lemma wsum_to_be16 [simp]: "wsum (to_be16 w) = unat w"
  using unat_be16 [of "ucast (drop_bit 8 w)" "ucast w"] by (simp add: to_be16_def be16_to_be16)

lemma length_octets [simp]: "length (octets ip) = 4"
  by (simp add: octets_def)

lemma octets_ipv4_new [simp]: "octets (ipv4_new a b c d) = [a, b, c, d]"
  unfolding octets_def ipv4_new_def by (auto intro!: bit_word_eqI simp: bit_simps)

lemma ipv4_new_octets:
  "ipv4_new (ucast (drop_bit 24 ip)) (ucast (drop_bit 16 ip)) (ucast (drop_bit 8 ip)) (ucast ip) = ip"
proof (rule bit_word_eqI)
  fix n assume "n < LENGTH(32)"
  then consider "n < 8" | "8 \<le> n" "n < 16" | "16 \<le> n" "n < 24" | "24 \<le> n" "n < 32" by fastforce
  then show "bit (ipv4_new (ucast (drop_bit 24 ip)) (ucast (drop_bit 16 ip)) (ucast (drop_bit 8 ip)) (ucast ip)) n = bit ip n"
    unfolding ipv4_new_def by cases (auto simp: bit_simps)
qed

lemma wsum_octets: "wsum (octets ip) = unat (get16 (octets ip) 0) + unat (get16 (octets ip) 2)"
  by (simp add: octets_def get16_def unat_be16)

lemma wsum_append: "even (length xs) \<Longrightarrow> wsum (xs @ ys) = wsum xs + wsum ys"
  by (induction xs rule: wsum.induct) simp_all

lemma sum_words_mod: "unat (sum_words data s) = (unat s + wsum data) mod 4294967296"
proof (induction data s rule: sum_words.induct)
  case (1 a b rest s)
  have "unat (ucast (be16 a b) :: u32) = unat (be16 a b)"
    using u16_less [of "be16 a b"] by (simp add: unsigned_ucast_eq take_bit_nat_eq_self_iff)
  with 1 show ?case by (simp add: unat_word_ariths unat_be16 mod_add_left_eq add.assoc)
next
  case (2 a s)
  have "unat (push_bit 8 (ucast a) :: u32) = unat a * 256"
    using u8_less [of a] by (simp add: push_bit_eq_mult unat_word_ariths unsigned_ucast_eq take_bit_nat_eq_self)
  then show ?case by (simp add: unat_word_ariths)
next
  case (3 s)
  show ?case using u32_less [of s] by simp
qed

lemma wsum_bound: "wsum data \<le> 65535 * ((length data + 1) div 2)"
proof (induction data rule: wsum.induct)
  case (1 a b rest)
  have "unat a < 256" "unat b < 256" by (rule u8_less)+
  with 1 show ?case by simp
next
  case (2 a)
  have "unat a < 256" by (rule u8_less)
  then show ?case by simp
qed simp

text \<open>Buffers of up to 131074 bytes cannot overflow the 32-bit accumulator.\<close>

lemma unat_sum_words:
  assumes "length data \<le> 131074"
  shows "unat (sum_words data 0) = wsum data"
proof -
  have "(length data + 1) div 2 \<le> 65537" using assms by simp
  then have "65535 * ((length data + 1) div 2) < 4294967296" by simp
  with wsum_bound [of data] show ?thesis by (simp add: sum_words_mod)
qed

lemma unat_not16: "unat (NOT w :: u16) = 65535 - unat w"
proof -
  have "unat w \<le> 65535" using u16_less [of w] by simp
  have "NOT w = - w - 1" by (simp add: not_eq_complement)
  then have "NOT w = (65535 :: u16) - w" by simp
  then show ?thesis using \<open>unat w \<le> 65535\<close> by (simp add: unat_sub word_le_nat_alt)
qed

lemma unat_ucast_fold: "unat (ucast (fold_carry s) :: u16) = ones_fold (unat s)"
  using ones_fold_less [of "unat s"] by (simp add: unsigned_ucast_eq unat_fold_carry take_bit_nat_eq_self_iff)

lemma unat_internet_checksum:
  "length data \<le> 131074 \<Longrightarrow> unat (internet_checksum data) = 65535 - ones_fold (wsum data)"
  by (simp add: internet_checksum_def unat_not16 unat_ucast_fold unat_sum_words)

lemma unat_ucast16: "unat (ucast (w :: u16) :: u32) = unat w"
  using u16_less [of w] by (simp add: unsigned_ucast_eq take_bit_nat_eq_self_iff)

lemma unat_add3:
  "unat ((ucast (a :: u16) :: u32) + ucast (b :: u16) + ucast (c :: u16)) = unat a + unat b + unat c"
  using u16_less [of a] u16_less [of b] u16_less [of c]
  by (simp add: unat_word_ariths unat_ucast16)

lemma unat_partial_update:
  "unat (incremental_partial_update p m m') = ones_fold (unat p + (65535 - unat m) + unat m')"
  by (simp add: incremental_partial_update_def Let_def unat_ucast_fold unat_add3 unat_not16)

lemma ucast_not_fold: "(ucast (NOT (s :: u32)) :: u16) = NOT (ucast s)"
  by (rule bit_word_eqI) (simp add: bit_simps)

lemma unat_csum_update:
  "unat (incremental_csum_update c m m') = 65535 - ones_fold ((65535 - unat c) + (65535 - unat m) + unat m')"
  by (simp add: incremental_csum_update_def Let_def ucast_not_fold unat_ucast_fold unat_add3 unat_not16)

section \<open>Buffers\<close>

lemma length_copy_at [simp]: "i + length bs \<le> length buf \<Longrightarrow> length (copy_at i bs buf) = length buf"
  by (simp add: copy_at_def)

lemma nth_copy_at:
  "i + length bs \<le> length buf \<Longrightarrow> j < length buf \<Longrightarrow>
   copy_at i bs buf ! j = (if i \<le> j \<and> j < i + length bs then bs ! (j - i) else buf ! j)"
  by (auto simp: copy_at_def nth_append min_def)

lemma wsum_copy_at:
  assumes "even i" "even (length bs)" "i + length bs \<le> length buf"
  shows "wsum (copy_at i bs buf) + wsum (take (length bs) (drop i buf)) = wsum buf + wsum bs"
proof -
  have "buf = take i buf @ take (length bs) (drop i buf) @ drop (i + length bs) buf"
    by (metis append_take_drop_id drop_drop add.commute)
  then have "wsum buf = wsum (take i buf) + (wsum (take (length bs) (drop i buf)) + wsum (drop (i + length bs) buf))"
    using assms by (metis (no_types, lifting) wsum_append length_take length_drop min_absorb2 add_leD1 le_diff_conv2
        add.commute)
  moreover have "wsum (copy_at i bs buf) = wsum (take i buf) + (wsum bs + wsum (drop (i + length bs) buf))"
    unfolding copy_at_def using assms by (simp add: wsum_append)
  ultimately show ?thesis by simp
qed

lemma region_copy_at:
  assumes "k \<le> i" "i + length bs \<le> k + n" "k + n \<le> length buf"
  shows "take n (drop k (copy_at i bs buf)) = copy_at (i - k) bs (take n (drop k buf))"
  using assms by (intro nth_equalityI) (auto simp: nth_copy_at add.commute)

lemma region_copy_other:
  assumes "i + length bs \<le> k \<or> k + n \<le> i" "i + length bs \<le> length buf"
  shows "take n (drop k (copy_at i bs buf)) = take n (drop k buf)"
  using assms by (intro nth_equalityI) (auto simp: nth_copy_at)

lemma get16_region: "i + 2 \<le> length buf \<Longrightarrow> take 2 (drop i buf) = to_be16 (get16 buf i)"
  by (intro nth_equalityI) (auto simp: get16_def less_2_cases_iff nth_Cons')

lemma octets_region: "i + 4 \<le> length buf \<Longrightarrow> take 4 (drop i buf) = octets (ipv4_at buf i)"
  by (intro nth_equalityI) (auto simp: ipv4_at_def numeral_eq_Suc less_Suc_eq nth_Cons')

lemma wsum_zero_iff: "wsum buf = 0 \<longleftrightarrow> (\<forall>b\<in>set buf. b = 0)"
  by (induction buf rule: wsum.induct) (auto simp: unat_eq_0)

lemma mod_add_right_imp:
  assumes "(a + c) mod 65535 = (b + c) mod (65535 :: nat)" shows "a mod 65535 = b mod 65535"
proof -
  have "int ((a + c) mod 65535) = int ((b + c) mod 65535)" using assms by simp
  then have "(int a + int c) mod 65535 = (int b + int c) mod 65535" by (simp add: zmod_int)
  then have "(int a + int c - int c) mod 65535 = (int b + int c - int c) mod 65535" by (metis mod_diff_cong)
  then have "int (a mod 65535) = int (b mod 65535)" by (simp add: zmod_int)
  then show ?thesis by simp
qed

lemma balance_mod:
  assumes "a + x = b + y" "y mod 65535 = x mod (65535 :: nat)"
  shows "a mod 65535 = b mod 65535"
proof (rule mod_add_right_imp)
  show "(a + x) mod 65535 = (b + x) mod 65535" unfolding assms(1) by (rule mod_add_cong [OF refl assms(2)])
qed

section \<open>Incremental updates\<close>

lemma csum_update_mod:
  "(unat (incremental_csum_update c m m') + unat m') mod 65535 = (unat c + unat m) mod 65535"
proof -
  let ?X = "(65535 - unat c) + (65535 - unat m) + unat m'" and ?c = "unat (incremental_csum_update c m m')"
  have b: "unat c \<le> 65535" "unat m \<le> 65535" using u16_less [of c] u16_less [of m] by simp_all
  have "?c + ones_fold ?X = 65535" using ones_fold_less [of ?X] by (simp add: unat_csum_update)
  moreover have "(?c + ?X) mod 65535 = (?c + ones_fold ?X) mod 65535"
    by (rule mod_add_cong [OF refl ones_fold_mod [symmetric]])
  ultimately have "(?c + ?X) mod 65535 = 0" by simp
  then have s: "(?c + ?X + (unat c + unat m)) mod 65535 = (0 + (unat c + unat m)) mod 65535"
    by (intro mod_add_cong) simp_all
  have e: "?c + ?X + (unat c + unat m) = (?c + unat m') + 2 * 65535" using b by simp
  have "(?c + unat m') mod 65535 = ((?c + unat m') + 2 * 65535) mod 65535" by (rule mod_mult_self1 [symmetric])
  then show ?thesis using s unfolding e by simp
qed

lemma partial_update_mod:
  "(unat (incremental_partial_update p m m') + unat m) mod 65535 = (unat p + unat m') mod 65535"
proof -
  let ?X = "unat p + (65535 - unat m) + unat m'"
  have b: "unat m \<le> 65535" using u16_less [of m] by simp
  have "(ones_fold ?X + unat m) mod 65535 = (?X + unat m) mod 65535" by (metis mod_add_left_eq ones_fold_mod)
  moreover have "?X + unat m = (unat p + unat m') + 65535" using b by simp
  ultimately show ?thesis unfolding unat_partial_update by (metis mod_add_self2)
qed

section \<open>Valid frames\<close>

text \<open>
  What a receiver checks: the words of the IP header, and the words of the
  pseudo header and the transport segment, sum to a multiple of 65535.
\<close>

definition csum_ok :: "nat \<Rightarrow> bool" where
  "csum_ok n \<longleftrightarrow> n \<noteq> 0 \<and> n mod 65535 = 0"

definition frame_wf :: "u8 list \<Rightarrow> bool" where
  "frame_wf frame \<longleftrightarrow> ihl_of frame \<ge> 20 \<and> FABRIC_HDR_SZ + ihl_of frame \<le> length frame \<and> length frame \<le> 131074"

definition ip_header_ok :: "u8 list \<Rightarrow> bool" where
  "ip_header_ok frame \<longleftrightarrow> internet_checksum (take (ihl_of frame) (ip_packet frame)) = 0"

definition pseudo_sum :: "u8 list \<Rightarrow> nat" where
  "pseudo_sum frame = wsum (take 8 (drop 15 frame)) + unat (ip_protocol frame) + (length frame - (FABRIC_HDR_SZ + ihl_of frame))"

definition segment_of :: "u8 list \<Rightarrow> u8 list" where
  "segment_of frame = drop (FABRIC_HDR_SZ + ihl_of frame) frame"

definition transport_ok :: "u8 list \<Rightarrow> bool" where
  "transport_ok frame \<longleftrightarrow> csum_ok (pseudo_sum frame + wsum (segment_of frame))"

definition has_csum_field :: "u8 list \<Rightarrow> nat \<Rightarrow> bool" where
  "has_csum_field frame off \<longleftrightarrow> csum_offset_of (ip_protocol frame) = Some off \<and>
     FABRIC_HDR_SZ + ihl_of frame + off + 2 \<le> length frame"

text \<open>The checksum field of a frame with deferred checksum holds the pseudo-header sum.\<close>

definition partial_ok :: "u8 list \<Rightarrow> nat \<Rightarrow> bool" where
  "partial_ok frame off \<longleftrightarrow>
     unat (get16 frame (FABRIC_HDR_SZ + ihl_of frame + off)) mod 65535 = pseudo_sum frame mod 65535"

lemma csum_offset_cases: "csum_offset_of p = Some off \<Longrightarrow> even off \<and> p \<noteq> 0"
  by (auto simp: csum_offset_of_def IP_PROTO_TCP_def IP_PROTO_UDP_def split: if_splits)

lemma checksum_zero_iff:
  assumes "length data \<le> 131074"
  shows "internet_checksum data = 0 \<longleftrightarrow> csum_ok (wsum data)"
proof -
  have "internet_checksum data = 0 \<longleftrightarrow> unat (internet_checksum data) = 0" by (simp add: unat_eq_0)
  also have "\<dots> \<longleftrightarrow> ones_fold (wsum data) = 65535"
    using ones_fold_less [of "wsum data"] by (auto simp: unat_internet_checksum [OF assms])
  also have "\<dots> \<longleftrightarrow> csum_ok (wsum data)"
  proof
    assume "ones_fold (wsum data) = 65535"
    with ones_fold_mod [of "wsum data"] ones_fold_zero [of "wsum data"] show "csum_ok (wsum data)"
      by (auto simp: csum_ok_def)
  next
    assume "csum_ok (wsum data)"
    then show "ones_fold (wsum data) = 65535"
      using ones_fold_cong [of "wsum data" 65535] ones_fold_small [of 65535] by (simp add: csum_ok_def)
  qed
  finally show ?thesis .
qed

lemma frame_wf_length: "frame_wf frame \<Longrightarrow> 23 \<le> length frame"
  by (simp add: frame_wf_def FABRIC_HDR_SZ_def)

text \<open>One rewriting function for both directions.\<close>

definition rewrite_at :: "nat \<Rightarrow> u8 list \<Rightarrow> ipv4 \<Rightarrow> ipv4 \<Rightarrow> u8 list" where
  "rewrite_at off frame old_ip new_ip =
     update_transport_csum_for_ip_change
       (update_ip_header_csum (copy_at (FABRIC_HDR_SZ + off) (octets new_ip) frame) FABRIC_HDR_SZ (octets old_ip) (octets new_ip))
       FABRIC_HDR_SZ (octets old_ip) (octets new_ip)"

lemma rewrite_at_eq:
  assumes "frame_wf frame"
  shows "rewrite_ipv4_dst frame old new = rewrite_at 16 frame old new"
    "rewrite_ipv4_src frame old new = rewrite_at 12 frame old new"
  using frame_wf_length [OF assms]
  by (simp_all add: rewrite_ipv4_dst_def rewrite_ipv4_src_def rewrite_at_def FABRIC_HDR_SZ_def Let_def)

text \<open>The two edits of the IP header.\<close>

definition header_edit :: "nat \<Rightarrow> u8 list \<Rightarrow> ipv4 \<Rightarrow> ipv4 \<Rightarrow> u8 list" where
  "header_edit off frame old_ip new_ip =
     update_ip_header_csum (copy_at (FABRIC_HDR_SZ + off) (octets new_ip) frame) FABRIC_HDR_SZ (octets old_ip) (octets new_ip)"

lemma header_edit_copy:
  "\<exists>c. header_edit off frame old new = copy_at 13 (to_be16 c) (copy_at (3 + off) (octets new) frame) \<and>
     (let f1 = copy_at (3 + off) (octets new) frame
      in (unat c + wsum (octets new)) mod 65535 = (unat (get16 f1 13) + wsum (octets old)) mod 65535)"
proof -
  let ?f1 = "copy_at (3 + off) (octets new) frame"
  let ?h = "get16 (octets old) 0" and ?l = "get16 (octets old) 2" and ?h' = "get16 (octets new) 0" and ?l' = "get16 (octets new) 2"
  let ?c1 = "incremental_csum_update (get16 ?f1 13) ?h ?h'" let ?c = "incremental_csum_update ?c1 ?l ?l'"
  have "(unat ?c + unat ?l' + unat ?h') mod 65535 = (unat ?c1 + unat ?l + unat ?h') mod 65535"
    by (rule mod_add_cong [OF csum_update_mod refl])
  also have "\<dots> = (unat ?c1 + unat ?h' + unat ?l) mod 65535" by (simp add: ac_simps)
  also have "\<dots> = (unat (get16 ?f1 13) + unat ?h + unat ?l) mod 65535"
    by (rule mod_add_cong [OF csum_update_mod refl])
  finally have "(unat ?c + wsum (octets new)) mod 65535 = (unat (get16 ?f1 13) + wsum (octets old)) mod 65535"
    by (simp add: wsum_octets ac_simps)
  then show ?thesis
    by (intro exI [of _ ?c]) (simp add: header_edit_def update_ip_header_csum_def FABRIC_HDR_SZ_def Let_def)
qed

lemma header_edit_frame:
  assumes wf: "frame_wf frame" and off: "off = 12 \<or> off = 16"
  shows "length (header_edit off frame old new) = length frame"
    and "j < 13 \<or> 23 \<le> j \<Longrightarrow> j < length frame \<Longrightarrow> header_edit off frame old new ! j = frame ! j"
    and "k \<ge> 23 \<Longrightarrow> drop k (header_edit off frame old new) = drop k frame"
    and "take 8 (drop 15 (header_edit off frame old new)) = copy_at (off - 12) (octets new) (take 8 (drop 15 frame))"
proof -
  note len = frame_wf_length [OF wf]
  obtain c where c: "header_edit off frame old new = copy_at 13 (to_be16 c) (copy_at (3 + off) (octets new) frame)"
    using header_edit_copy [of off frame old new] by blast
  have l1: "length (copy_at (3 + off) (octets new) frame) = length frame" using off len by auto
  then show l: "length (header_edit off frame old new) = length frame" using len by (simp add: c)
  show nth: "header_edit off frame old new ! j = frame ! j" if "j < 13 \<or> 23 \<le> j" "j < length frame" for j
    using that off len l1 by (auto simp: c nth_copy_at)
  show "drop k (header_edit off frame old new) = drop k frame" if "k \<ge> 23"
    using that by (intro nth_equalityI) (auto simp: l nth)
  have "take 8 (drop 15 (header_edit off frame old new)) = take 8 (drop 15 (copy_at (3 + off) (octets new) frame))"
    unfolding c by (rule region_copy_other) (use len l1 in auto)
  also have "\<dots> = copy_at (3 + off - 15) (octets new) (take 8 (drop 15 frame))"
    by (rule region_copy_at) (use len off in auto)
  also have "3 + off - 15 = off - 12" using off by auto
  finally show "take 8 (drop 15 (header_edit off frame old new)) = copy_at (off - 12) (octets new) (take 8 (drop 15 frame))" .
qed

lemma header_edit_fields:
  assumes "frame_wf frame" "off = 12 \<or> off = 16"
  shows "ihl_of (header_edit off frame old new) = ihl_of frame"
    "ip_protocol (header_edit off frame old new) = ip_protocol frame"
    "header_edit off frame old new ! 0 = frame ! 0"
    "segment_of (header_edit off frame old new) = segment_of frame"
    "frame_wf (header_edit off frame old new)"
proof -
  let ?f = "header_edit off frame old new"
  have nth: "?f ! 0 = frame ! 0" "?f ! 3 = frame ! 3" "?f ! 12 = frame ! 12"
    using frame_wf_length [OF assms(1)] by (auto intro!: header_edit_frame(2) [OF assms])
  then show "ihl_of ?f = ihl_of frame" "ip_protocol ?f = ip_protocol frame" "?f ! 0 = frame ! 0"
    by (simp_all add: ihl_of_def ip_protocol_def FABRIC_HDR_SZ_def)
  then show "segment_of ?f = segment_of frame" "frame_wf ?f"
    using assms(1) header_edit_frame(1,3) [OF assms, where old = old and new = new]
    by (simp_all add: segment_of_def frame_wf_def FABRIC_HDR_SZ_def)
qed

lemma address_region: "frame_wf frame \<Longrightarrow> off = 12 \<or> off = 16 \<Longrightarrow>
    take 4 (drop (off - 12) (take 8 (drop 15 frame))) = octets (ipv4_at (drop 3 frame) off)"
proof -
  assume wf: "frame_wf frame" and off: "off = 12 \<or> off = 16"
  have "take 4 (drop (off - 12) (take 8 (drop 15 frame))) = take 4 (drop off (drop 3 frame))"
    using off by (auto simp: drop_take)
  then show ?thesis using octets_region [of off "drop 3 frame"] off frame_wf_length [OF wf] by auto
qed

lemma header_edit_pseudo:
  assumes wf: "frame_wf frame" and off: "off = 12 \<or> off = 16" and old: "old = ipv4_at (drop 3 frame) off"
  shows "pseudo_sum (header_edit off frame old new) + wsum (octets old) = pseudo_sum frame + wsum (octets new)"
proof -
  let ?P = "take 8 (drop 15 frame)"
  have "wsum (copy_at (off - 12) (octets new) ?P) + wsum (take 4 (drop (off - 12) ?P)) = wsum ?P + wsum (octets new)"
    using wsum_copy_at [of "off - 12" "octets new" ?P] off frame_wf_length [OF wf] by auto
  then show ?thesis
    using header_edit_fields [OF wf off, where old = old and new = new] header_edit_frame(1,4) [OF wf off, where old = old and new = new]
      address_region [OF wf off] by (simp add: pseudo_sum_def old)
qed

lemma header_edit_ok:
  assumes wf: "frame_wf frame" and off: "off = 12 \<or> off = 16" and old: "old = ipv4_at (drop 3 frame) off"
    and ok: "ip_header_ok frame"
  shows "ip_header_ok (header_edit off frame old new)"
proof -
  let ?n = "ihl_of frame" let ?H = "take ?n (drop 3 frame)" and ?f1 = "copy_at (3 + off) (octets new) frame"
  have n: "20 \<le> ?n" "3 + ?n \<le> length frame" "length frame \<le> 131074"
    using wf by (simp_all add: frame_wf_def FABRIC_HDR_SZ_def)
  have l1: "length ?f1 = length frame" using off n by auto
  obtain c where c: "header_edit off frame old new = copy_at 13 (to_be16 c) ?f1"
    and m: "(unat c + wsum (octets new)) mod 65535 = (unat (get16 ?f1 13) + wsum (octets old)) mod 65535"
    using header_edit_copy [of off frame old new] by (auto simp: Let_def)
  let ?H1 = "take ?n (drop 3 ?f1)" and ?H2 = "take ?n (drop 3 (header_edit off frame old new))"
  have H1: "?H1 = copy_at off (octets new) ?H" using region_copy_at [of 3 "3 + off" "octets new" ?n frame] off n by auto
  have H2: "?H2 = copy_at 10 (to_be16 c) ?H1" unfolding c using region_copy_at [of 3 13 "to_be16 c" ?n ?f1] l1 n by simp
  have "take 4 (drop off ?H) = octets old"
    using octets_region [of off "drop 3 frame"] off n by (auto simp: old drop_take)
  then have s1: "wsum ?H1 + wsum (octets old) = wsum ?H + wsum (octets new)"
    using wsum_copy_at [of off "octets new" ?H] off n unfolding H1 by auto
  have "take 2 (drop 10 ?H1) = to_be16 (get16 ?f1 13)"
    using get16_region [of 13 ?f1] l1 n by (simp add: drop_take)
  then have s2: "wsum ?H2 + unat (get16 ?f1 13) = wsum ?H1 + unat c"
    using wsum_copy_at [of 10 "to_be16 c" ?H1] l1 n unfolding H2 by simp
  have "wsum ?H mod 65535 = 0" using ok n checksum_zero_iff [of ?H]
    by (simp add: ip_header_ok_def ip_packet_def FABRIC_HDR_SZ_def csum_ok_def)
  moreover have "wsum ?H2 mod 65535 = wsum ?H mod 65535"
    by (rule balance_mod [OF _ m]) (use s1 s2 in simp)
  ultimately have "wsum ?H2 mod 65535 = 0" by simp
  moreover have "wsum ?H2 \<noteq> 0"
  proof
    assume z: "wsum ?H2 = 0"
    have "?H2 ! 0 = frame ! 3" "0 < length ?H2"
      using header_edit_frame(1) [OF wf off] header_edit_frame(2) [OF wf off, of 3] n by auto
    moreover have "frame ! 3 \<noteq> 0" using n(1) by (auto simp: ihl_of_def FABRIC_HDR_SZ_def)
    ultimately show False using z unfolding wsum_zero_iff by (metis nth_mem)
  qed
  ultimately have "csum_ok (wsum ?H2)" by (simp add: csum_ok_def)
  then show ?thesis
    using checksum_zero_iff [of ?H2] header_edit_frame(1) [OF wf off] header_edit_fields(1) [OF wf off] n
    by (simp add: ip_header_ok_def ip_packet_def FABRIC_HDR_SZ_def)
qed

text \<open>The edit of the transport checksum field.\<close>

definition csum_pos :: "u8 list \<Rightarrow> nat \<Rightarrow> nat" where
  "csum_pos frame off = FABRIC_HDR_SZ + ihl_of frame + off"

lemma transport_edit:
  assumes wf: "frame_wf frame" and fld: "has_csum_field frame co"
  shows "\<exists>c. update_transport_csum_for_ip_change frame FABRIC_HDR_SZ (octets old) (octets new) =
      copy_at (csum_pos frame co) (to_be16 c) frame \<and>
    (if frame ! 0 AND FLAG_NEEDS_CSUM = 0
     then (unat c + wsum (octets new)) mod 65535 = (unat (get16 frame (csum_pos frame co)) + wsum (octets old)) mod 65535
     else (unat c + wsum (octets old)) mod 65535 = (unat (get16 frame (csum_pos frame co)) + wsum (octets new)) mod 65535)"
proof -
  let ?h = "get16 (octets old) 0" and ?l = "get16 (octets old) 2" and ?h' = "get16 (octets new) 0" and ?l' = "get16 (octets new) 2"
  let ?g = "get16 frame (csum_pos frame co)"
  let ?u = "if frame ! 0 AND FLAG_NEEDS_CSUM \<noteq> 0 then incremental_partial_update else incremental_csum_update"
  let ?c1 = "?u ?g ?h ?h'" let ?c = "?u ?c1 ?l ?l'"
  have eq: "update_transport_csum_for_ip_change frame FABRIC_HDR_SZ (octets old) (octets new) =
      copy_at (csum_pos frame co) (to_be16 ?c) frame"
    using fld frame_wf_length [OF wf]
    by (simp add: update_transport_csum_for_ip_change_def has_csum_field_def csum_pos_def ihl_of_def ip_protocol_def
        FABRIC_HDR_SZ_def Let_def)
  have full: "(unat ?c + wsum (octets new)) mod 65535 = (unat ?g + wsum (octets old)) mod 65535"
    if "frame ! 0 AND FLAG_NEEDS_CSUM = 0"
  proof -
    have "(unat ?c + unat ?l' + unat ?h') mod 65535 = (unat ?c1 + unat ?l + unat ?h') mod 65535"
      using that by (simp add: mod_add_cong [OF csum_update_mod refl])
    also have "\<dots> = (unat ?c1 + unat ?h' + unat ?l) mod 65535" by (simp add: ac_simps)
    also have "\<dots> = (unat ?g + unat ?h + unat ?l) mod 65535"
      using that by (simp add: mod_add_cong [OF csum_update_mod refl])
    finally show ?thesis by (simp add: wsum_octets ac_simps)
  qed
  have partial: "(unat ?c + wsum (octets old)) mod 65535 = (unat ?g + wsum (octets new)) mod 65535"
    if "frame ! 0 AND FLAG_NEEDS_CSUM \<noteq> 0"
  proof -
    have "(unat ?c + unat ?l + unat ?h) mod 65535 = (unat ?c1 + unat ?l' + unat ?h) mod 65535"
      using that by (simp add: mod_add_cong [OF partial_update_mod refl])
    also have "\<dots> = (unat ?c1 + unat ?h + unat ?l') mod 65535" by (simp add: ac_simps)
    also have "\<dots> = (unat ?g + unat ?h' + unat ?l') mod 65535"
      using that by (simp add: mod_add_cong [OF partial_update_mod refl])
    finally show ?thesis by (simp add: wsum_octets ac_simps)
  qed
  show ?thesis using eq full partial by (intro exI [of _ ?c]) auto
qed

lemma csum_field_copy:
  assumes wf: "frame_wf frame" and fld: "has_csum_field frame co"
  shows "length (copy_at (csum_pos frame co) (to_be16 c) frame) = length frame"
    and "j < 23 \<Longrightarrow> copy_at (csum_pos frame co) (to_be16 c) frame ! j = frame ! j"
    and "k + n \<le> 23 \<Longrightarrow> take n (drop k (copy_at (csum_pos frame co) (to_be16 c) frame)) = take n (drop k frame)"
    and "wsum (drop (FABRIC_HDR_SZ + ihl_of frame) (copy_at (csum_pos frame co) (to_be16 c) frame)) +
      unat (get16 frame (csum_pos frame co)) = wsum (segment_of frame) + unat c"
    and "get16 (copy_at (csum_pos frame co) (to_be16 c) frame) (csum_pos frame co) = c"
proof -
  let ?p = "csum_pos frame co"
  have p: "23 \<le> ?p" "?p + 2 \<le> length frame" "even co"
    using wf fld csum_offset_cases by (auto simp: csum_pos_def frame_wf_def has_csum_field_def FABRIC_HDR_SZ_def)
  show "length (copy_at ?p (to_be16 c) frame) = length frame" using p by simp
  show "copy_at ?p (to_be16 c) frame ! j = frame ! j" if "j < 23" for j
    using p that by (subst nth_copy_at) auto
  show "take n (drop k (copy_at ?p (to_be16 c) frame)) = take n (drop k frame)" if "k + n \<le> 23" for k n
    by (rule region_copy_other) (use p that in auto)
  let ?k = "FABRIC_HDR_SZ + ihl_of frame" let ?n = "length frame - ?k"
  have k: "?p = ?k + co" "?k \<le> length frame" using p by (simp_all add: csum_pos_def)
  have "drop ?k (copy_at ?p (to_be16 c) frame) = take ?n (drop ?k (copy_at ?p (to_be16 c) frame))"
    using p by simp
  also have "\<dots> = copy_at co (to_be16 c) (drop ?k frame)"
    using region_copy_at [of ?k ?p "to_be16 c" ?n frame] k p by simp
  finally have d: "drop ?k (copy_at ?p (to_be16 c) frame) = copy_at co (to_be16 c) (segment_of frame)"
    by (simp add: segment_of_def)
  have "take 2 (drop co (segment_of frame)) = to_be16 (get16 frame ?p)"
    using get16_region [of ?p frame] p k by (simp add: segment_of_def ac_simps)
  then show "wsum (drop ?k (copy_at ?p (to_be16 c) frame)) + unat (get16 frame ?p) = wsum (segment_of frame) + unat c"
    unfolding d using wsum_copy_at [of co "to_be16 c" "segment_of frame"] p k by (simp add: segment_of_def)
  show "get16 (copy_at ?p (to_be16 c) frame) ?p = c"
    using p by (simp add: get16_def nth_copy_at) (simp add: to_be16_def be16_to_be16)
qed

lemma pseudo_field_copy:
  assumes "frame_wf frame" "has_csum_field frame co"
  shows "ihl_of (copy_at (csum_pos frame co) (to_be16 c) frame) = ihl_of frame"
    "pseudo_sum (copy_at (csum_pos frame co) (to_be16 c) frame) = pseudo_sum frame"
    "frame_wf (copy_at (csum_pos frame co) (to_be16 c) frame)"
    "ip_header_ok (copy_at (csum_pos frame co) (to_be16 c) frame) = ip_header_ok frame"
proof -
  let ?f = "copy_at (csum_pos frame co) (to_be16 c) frame"
  note cf = csum_field_copy [OF assms, where c = c]
  show ihl: "ihl_of ?f = ihl_of frame" using cf(2) by (simp add: ihl_of_def FABRIC_HDR_SZ_def)
  show "pseudo_sum ?f = pseudo_sum frame"
    using cf(1,2) cf(3) [of 15 8] by (simp add: pseudo_sum_def ihl ip_protocol_def FABRIC_HDR_SZ_def)
  show "frame_wf ?f" using assms(1) cf(1) by (simp add: frame_wf_def ihl)
  have "take (ihl_of frame) (drop 3 ?f) = take (ihl_of frame) (drop 3 frame)"
    by (rule region_copy_other) (use assms in \<open>auto simp: csum_pos_def has_csum_field_def FABRIC_HDR_SZ_def\<close>)
  then show "ip_header_ok ?f = ip_header_ok frame" by (simp add: ip_header_ok_def ip_packet_def ihl FABRIC_HDR_SZ_def)
qed

lemma csum_ok_pseudo:
  assumes "has_csum_field frame co"
  shows "csum_ok (pseudo_sum frame + n) \<longleftrightarrow> (pseudo_sum frame + n) mod 65535 = 0"
proof -
  have "unat (ip_protocol frame) \<noteq> 0" using assms csum_offset_cases by (auto simp: has_csum_field_def unat_eq_0)
  then show ?thesis by (simp add: csum_ok_def pseudo_sum_def)
qed

lemma has_csum_field_cong:
  "ihl_of f = ihl_of g \<Longrightarrow> ip_protocol f = ip_protocol g \<Longrightarrow> length f = length g \<Longrightarrow> has_csum_field f co = has_csum_field g co"
  by (simp add: has_csum_field_def)

text \<open>What address rewriting has to keep.\<close>

definition rewrite_keeps :: "nat \<Rightarrow> u8 list \<Rightarrow> u8 list \<Rightarrow> bool" where
  "rewrite_keeps co frame frame' \<longleftrightarrow>
     length frame' = length frame \<and> frame' ! 0 = frame ! 0 \<and>
     ihl_of frame' = ihl_of frame \<and> ip_protocol frame' = ip_protocol frame \<and>
     (ip_header_ok frame \<longrightarrow> ip_header_ok frame') \<and>
     (frame ! 0 AND FLAG_NEEDS_CSUM = 0 \<longrightarrow> transport_ok frame \<longrightarrow> transport_ok frame') \<and>
     (frame ! 0 AND FLAG_NEEDS_CSUM \<noteq> 0 \<longrightarrow> partial_ok frame co \<longrightarrow> partial_ok frame' co)"

lemma rewrite_keeps_wf:
  assumes "rewrite_keeps co frame frame'"
  shows "frame_wf frame' = frame_wf frame" "has_csum_field frame' co = has_csum_field frame co"
  using assms by (simp_all add: rewrite_keeps_def frame_wf_def has_csum_field_def)

lemma rewrite_at_valid:
  assumes wf: "frame_wf frame" and fld: "has_csum_field frame co"
    and off: "off = 12 \<or> off = 16" and old: "old = ipv4_at (drop 3 frame) off"
  shows "rewrite_keeps co frame (rewrite_at off frame old new)"
    and "take 8 (drop 15 (rewrite_at off frame old new)) = copy_at (off - 12) (octets new) (take 8 (drop 15 frame))"
proof -
  let ?h = "header_edit off frame old new"
  note he = header_edit_fields [OF wf off, where old = old and new = new]
  have lh: "length ?h = length frame" by (rule header_edit_frame(1) [OF wf off])
  have fh: "has_csum_field ?h co" using fld has_csum_field_cong [OF he(1,2) lh] by simp
  have pos: "csum_pos ?h co = csum_pos frame co" by (simp add: csum_pos_def he)
  have g: "get16 ?h (csum_pos frame co) = get16 frame (csum_pos frame co)"
    using header_edit_frame(2) [OF wf off, where old = old and new = new] wf fld
    by (simp add: get16_def csum_pos_def frame_wf_def has_csum_field_def FABRIC_HDR_SZ_def)
  obtain c where c: "rewrite_at off frame old new = copy_at (csum_pos ?h co) (to_be16 c) ?h"
    and m: "if frame ! 0 AND FLAG_NEEDS_CSUM = 0
      then (unat c + wsum (octets new)) mod 65535 = (unat (get16 frame (csum_pos frame co)) + wsum (octets old)) mod 65535
      else (unat c + wsum (octets old)) mod 65535 = (unat (get16 frame (csum_pos frame co)) + wsum (octets new)) mod 65535"
    using transport_edit [OF he(5) fh, of old new] by (auto simp: rewrite_at_def header_edit_def [symmetric] he(3) pos g)
  note cf = csum_field_copy [OF he(5) fh, where c = c] and pf = pseudo_field_copy [OF he(5) fh, where c = c]
  have ps: "pseudo_sum ?h + wsum (octets old) = pseudo_sum frame + wsum (octets new)"
    by (rule header_edit_pseudo [OF wf off old])
  show "take 8 (drop 15 (rewrite_at off frame old new)) = copy_at (off - 12) (octets new) (take 8 (drop 15 frame))"
    using cf(3) [of 15 8] header_edit_frame(4) [OF wf off] by (simp add: c)
  have seg: "wsum (segment_of (rewrite_at off frame old new)) + unat (get16 frame (csum_pos frame co)) =
      wsum (segment_of frame) + unat c"
    using cf(4) by (simp add: c segment_of_def [of "copy_at _ _ _"] pf(1) [unfolded pos] he pos g)
  have "transport_ok (rewrite_at off frame old new)" if fl: "frame ! 0 AND FLAG_NEEDS_CSUM = 0" and ok: "transport_ok frame"
  proof -
    have "(pseudo_sum ?h + wsum (segment_of (rewrite_at off frame old new))) mod 65535 =
        (pseudo_sum frame + wsum (segment_of frame)) mod 65535"
      by (rule balance_mod [of _ "unat (get16 frame (csum_pos frame co)) + wsum (octets old)" _ "unat c + wsum (octets new)"])
         (use seg ps m fl in simp_all)
    then show ?thesis using ok csum_ok_pseudo [OF fld] csum_ok_pseudo [OF fh] pf(2) by (simp add: transport_ok_def c)
  qed
  moreover have "partial_ok (rewrite_at off frame old new) co"
    if fl: "frame ! 0 AND FLAG_NEEDS_CSUM \<noteq> 0" and ok: "partial_ok frame co"
  proof -
    have "(pseudo_sum ?h + unat (get16 frame (csum_pos frame co))) mod 65535 = (pseudo_sum frame + unat c) mod 65535"
      by (rule balance_mod [of _ "wsum (octets old) + unat c" _ "wsum (octets new) + unat (get16 frame (csum_pos frame co))"])
         (use ps m fl in \<open>simp_all add: ac_simps\<close>)
    moreover have "(pseudo_sum ?h + unat (get16 frame (csum_pos frame co))) mod 65535 = (pseudo_sum ?h + pseudo_sum frame) mod 65535"
      using ok by (intro mod_add_cong) (simp_all add: partial_ok_def csum_pos_def)
    ultimately have "(unat c + pseudo_sum frame) mod 65535 = (pseudo_sum ?h + pseudo_sum frame) mod 65535"
      by (simp add: ac_simps)
    then have "unat c mod 65535 = pseudo_sum ?h mod 65535" by (rule mod_add_right_imp)
    then show ?thesis using cf(5) pf(1,2) by (simp add: partial_ok_def c csum_pos_def)
  qed
  moreover have "ip_header_ok (rewrite_at off frame old new)" if "ip_header_ok frame"
    using header_edit_ok [OF wf off old that] pf(4) by (simp add: c)
  ultimately show "rewrite_keeps co frame (rewrite_at off frame old new)"
    using cf(1,2) pf(1) he lh by (auto simp: rewrite_keeps_def c ip_protocol_def FABRIC_HDR_SZ_def)
qed

text \<open>Completion of a deferred checksum.\<close>

lemma copy16_updates:
  "i + 2 \<le> length buf \<Longrightarrow> buf[i := ucast (drop_bit 8 w), i + 1 := ucast (w AND 0xFF)] = copy_at i (to_be16 w) buf"
proof (rule nth_equalityI)
  have "w AND 0xFF = take_bit 8 w" by (simp add: take_bit_eq_mask mask_eq_exp_minus_1)
  then have w: "(ucast (w AND 0xFF) :: u8) = ucast w" by (auto intro!: bit_word_eqI simp del: take_bit_of_1 simp: bit_simps)
  fix j assume "i + 2 \<le> length buf" "j < length (buf[i := ucast (drop_bit 8 w), i + 1 := ucast (w AND 0xFF)])"
  then show "buf[i := ucast (drop_bit 8 w), i + 1 := ucast (w AND 0xFF)] ! j = copy_at i (to_be16 w) buf ! j"
    by (auto simp: nth_copy_at nth_list_update w to_be16_def nth_Cons')
qed simp

lemma complete_checksum_eq:
  assumes "frame_wf frame" "has_csum_field frame co" "frame ! 0 AND FLAG_NEEDS_CSUM \<noteq> 0"
  shows "complete_checksum frame =
    (copy_at (csum_pos frame co) (to_be16 (internet_checksum (segment_of frame))) frame) [0 := frame ! 0 AND NOT FLAG_NEEDS_CSUM]"
  using assms frame_wf_length [OF assms(1)]
    copy16_updates [of "3 + ihl_of frame + co" frame "internet_checksum (drop (3 + ihl_of frame) frame)"]
  by (simp add: complete_checksum_def has_csum_field_def Let_def ip_protocol_def csum_pos_def segment_of_def
      FABRIC_HDR_SZ_def)

lemma first_byte_irrelevant:
  "ihl_of (f[0 := b]) = ihl_of f" "pseudo_sum (f[0 := b]) = pseudo_sum f" "segment_of (f[0 := b]) = segment_of f"
  "ip_header_ok (f[0 := b]) = ip_header_ok f"
  by (simp_all add: ihl_of_def pseudo_sum_def segment_of_def ip_protocol_def ip_header_ok_def ip_packet_def FABRIC_HDR_SZ_def
      drop_update_cancel)

lemma complete_checksum_valid:
  assumes wf: "frame_wf frame" and fld: "has_csum_field frame co" and fl: "frame ! 0 AND FLAG_NEEDS_CSUM \<noteq> 0"
    and ok: "partial_ok frame co"
  shows "transport_ok (complete_checksum frame)"
    and "ip_header_ok (complete_checksum frame) = ip_header_ok frame"
    and "complete_checksum frame ! 0 AND FLAG_NEEDS_CSUM = 0"
    and "length (complete_checksum frame) = length frame"
proof -
  let ?c = "internet_checksum (segment_of frame)" and ?p = "csum_pos frame co"
  let ?f = "copy_at ?p (to_be16 ?c) frame"
  note eq = complete_checksum_eq [OF wf fld fl] and cf = csum_field_copy [OF wf fld, where c = ?c]
    and pf = pseudo_field_copy [OF wf fld, where c = ?c]
  have seg: "wsum (segment_of ?f) + unat (get16 frame ?p) = wsum (segment_of frame) + unat ?c"
    using cf(4) pf(1) by (simp add: segment_of_def [of ?f])
  have "length (segment_of frame) \<le> 131074" using wf by (auto simp: frame_wf_def segment_of_def)
  then have "unat ?c + ones_fold (wsum (segment_of frame)) = 65535"
    using ones_fold_less [of "wsum (segment_of frame)"] by (simp add: unat_internet_checksum)
  then have "(unat ?c + wsum (segment_of frame)) mod 65535 = 0"
    by (metis mod_add_right_eq mod_self ones_fold_mod)
  moreover have "(pseudo_sum frame + wsum (segment_of ?f)) mod 65535 = (wsum (segment_of frame) + unat ?c) mod 65535"
    by (rule balance_mod [of _ "unat (get16 frame ?p)" _ "pseudo_sum frame"])
       (use seg ok in \<open>simp_all add: partial_ok_def csum_pos_def\<close>)
  ultimately have "(pseudo_sum frame + wsum (segment_of ?f)) mod 65535 = 0" by (simp add: add.commute)
  then show "transport_ok (complete_checksum frame)"
    using csum_ok_pseudo [OF fld] pf(2) by (simp add: transport_ok_def eq first_byte_irrelevant)
  show "ip_header_ok (complete_checksum frame) = ip_header_ok frame"
    using pf(4) by (simp add: eq first_byte_irrelevant)
  show "length (complete_checksum frame) = length frame" using cf(1) by (simp add: eq)
  have "0 < length frame" using frame_wf_length [OF wf] by linarith
  then show "complete_checksum frame ! 0 AND FLAG_NEEDS_CSUM = 0"
    using cf(1) by (simp add: eq and.assoc)
qed

section \<open>Properties\<close>

text \<open>
  C7. Rewriting an address of a well-formed TCP or UDP frame, given the address it
  carries, puts the new address there and leaves the other one.  A valid IP header
  checksum stays valid, a complete transport checksum stays valid, and a deferred
  one stays the sum of the pseudo header, so the incremental updates agree with
  recomputing the checksums.
\<close>

theorem rewrite_checksums_valid:
  assumes "frame_wf frame" "has_csum_field frame co"
  shows "rewrite_keeps co frame (rewrite_ipv4_dst frame (ipv4_dst frame) new) \<and>
    rewrite_keeps co frame (rewrite_ipv4_src frame (ipv4_src frame) new) \<and>
    ipv4_dst (rewrite_ipv4_dst frame (ipv4_dst frame) new) = new \<and>
    ipv4_src (rewrite_ipv4_dst frame (ipv4_dst frame) new) = ipv4_src frame \<and>
    ipv4_src (rewrite_ipv4_src frame (ipv4_src frame) new) = new \<and>
    ipv4_dst (rewrite_ipv4_src frame (ipv4_src frame) new) = ipv4_dst frame"
proof -
  note len = frame_wf_length [OF assms(1)]
  have P: "ipv4_src f = ipv4_at (take 8 (drop 15 f)) 0" "ipv4_dst f = ipv4_at (take 8 (drop 15 f)) 4"
    if "23 \<le> length f" for f
    using that by (simp_all add: ipv4_src_def ipv4_dst_def ipv4_at_def FABRIC_HDR_SZ_def)
  have new: "ipv4_at (copy_at i (octets new) p) i = new" if "i + 4 \<le> length p" for i p
    using that by (simp add: ipv4_at_def nth_copy_at) (simp add: octets_def ipv4_new_octets)
  have keep: "ipv4_at (copy_at i (octets new) p) j = ipv4_at p j"
    if "length p = 8" "(i, j) = (0, 4) \<or> (i, j) = (4, 0)" for i j p
    using that by (auto simp: ipv4_at_def nth_copy_at)
  have l: "23 \<le> length (rewrite_ipv4_dst frame (ipv4_dst frame) new)" "23 \<le> length (rewrite_ipv4_src frame (ipv4_src frame) new)"
    using rewrite_at_valid(1) [OF assms, of 16 "ipv4_dst frame" new] rewrite_at_valid(1) [OF assms, of 12 "ipv4_src frame" new]
      rewrite_at_eq [OF assms(1)] len
    by (simp_all add: rewrite_keeps_def ipv4_dst_def ipv4_src_def FABRIC_HDR_SZ_def)
  show ?thesis
    using rewrite_at_valid [OF assms, of 16 "ipv4_dst frame" new] rewrite_at_valid [OF assms, of 12 "ipv4_src frame" new]
      rewrite_at_eq [OF assms(1)] len P [OF len] P [OF l(1)] P [OF l(2)]
    by (simp add: ipv4_dst_def [of frame] ipv4_src_def [of frame] FABRIC_HDR_SZ_def new keep)
qed

definition example_frame :: "u8 list" where
  "example_frame = [0, 0, 1] @ [69, 0, 0, 40, 0, 0, 0, 0, 64, 6, 102, 206, 10, 0, 0, 1, 10, 0, 0, 2] @ [3, 232, 0, 80, 0, 0, 0, 1, 0, 0, 0, 0, 80, 2, 255, 255, 151, 167, 0, 0]"

theorem rewrite_checksums_valid_witness:
  "ip_header_ok (rewrite_ipv4_dst example_frame (ipv4_dst example_frame) 0x0A000063) \<and>
   ipv4_dst (rewrite_ipv4_dst example_frame (ipv4_dst example_frame) 0x0A000063) = 0x0A000063"
proof -
  have "frame_wf example_frame" "has_csum_field example_frame 16"
    by (simp_all add: frame_wf_def has_csum_field_def example_frame_def ihl_of_def ip_protocol_def csum_offset_of_def
        FABRIC_HDR_SZ_def IP_PROTO_TCP_def)
  moreover have "ip_header_ok example_frame" by code_simp
  ultimately show ?thesis using rewrite_checksums_valid [of example_frame 16 "0x0A000063"] by (simp add: rewrite_keeps_def)
qed

text \<open>
  Completing the deferred checksum of a well-formed TCP or UDP frame whose
  checksum field holds the sum of the pseudo header, also after any rewriting of
  its addresses, gives a valid transport checksum, clears the flag and leaves the
  IP header alone; a frame that does not ask for it is returned unchanged.
\<close>

theorem complete_after_rewrite_valid:
  assumes "frame_wf frame" "has_csum_field frame co" "partial_ok frame co" "frame ! 0 AND FLAG_NEEDS_CSUM \<noteq> 0"
    and "frame' = rewrite_ipv4_dst frame (ipv4_dst frame) new \<or> frame' = rewrite_ipv4_src frame (ipv4_src frame) new \<or> frame' = frame"
  shows "transport_ok (complete_checksum frame') \<and> (ip_header_ok frame \<longrightarrow> ip_header_ok (complete_checksum frame')) \<and>
    complete_checksum frame' ! 0 AND FLAG_NEEDS_CSUM = 0 \<and> complete_checksum (complete_checksum frame') = complete_checksum frame'"
proof -
  have k: "rewrite_keeps co frame frame'"
    using rewrite_at_valid(1) [OF assms(1,2), of _ _ new] rewrite_at_eq [OF assms(1)] assms(5)
    by (auto simp: ipv4_dst_def ipv4_src_def FABRIC_HDR_SZ_def rewrite_keeps_def)
  then have ok: "frame_wf frame'" "has_csum_field frame' co" "partial_ok frame' co" "frame' ! 0 AND FLAG_NEEDS_CSUM \<noteq> 0"
    using assms rewrite_keeps_wf [OF k] by (simp_all add: rewrite_keeps_def)
  note cv = complete_checksum_valid [OF ok(1,2,4,3)]
  have "ip_header_ok frame \<longrightarrow> ip_header_ok (complete_checksum frame')" using cv(2) k by (simp add: rewrite_keeps_def)
  moreover have "complete_checksum (complete_checksum frame') = complete_checksum frame'"
    using cv(3) by (simp add: complete_checksum_def [of "complete_checksum frame'"])
  ultimately show ?thesis using cv(1,3) by blast
qed

text \<open>The example frame as a guest with checksum offload sends it.\<close>

definition example_offload :: "u8 list" where
  "example_offload = example_frame[0 := 1, 39 := 20, 40 := 29]"

theorem complete_after_rewrite_valid_witness:
  "transport_ok (complete_checksum (rewrite_ipv4_dst example_offload (ipv4_dst example_offload) 0x0A000063)) \<and>
   example_offload ! 0 AND FLAG_NEEDS_CSUM \<noteq> 0"
proof -
  have f: "frame_wf example_offload" "has_csum_field example_offload 16"
    by (simp_all add: frame_wf_def has_csum_field_def example_offload_def example_frame_def ihl_of_def ip_protocol_def
        csum_offset_of_def FABRIC_HDR_SZ_def IP_PROTO_TCP_def)
  moreover have "partial_ok example_offload 16"
    by (simp add: partial_ok_def pseudo_sum_def example_offload_def example_frame_def ihl_of_def ip_protocol_def
        FABRIC_HDR_SZ_def get16_def unat_be16)
  moreover have "example_offload ! 0 AND FLAG_NEEDS_CSUM \<noteq> 0"
    by (simp add: example_offload_def example_frame_def FLAG_NEEDS_CSUM_def)
  ultimately show ?thesis using complete_after_rewrite_valid [of example_offload 16] by blast
qed

text \<open>
  UDP uses a checksum field of 0 for a datagram without checksum.  Rewriting an
  address of such a datagram puts a value there that no receiver accepts.
\<close>

definition example_udp :: "u8 list" where
  "example_udp = [0, 0, 1] @ [69, 0, 0, 28, 0, 0, 0, 0, 64, 17, 102, 207, 10, 0, 0, 1, 10, 0, 0, 2] @ [3, 232, 0, 53, 0, 8, 0, 0]"

lemma udp_without_checksum_corrupted:
  "frame_wf example_udp \<and> ip_protocol example_udp = IP_PROTO_UDP \<and> get16 example_udp (csum_pos example_udp 6) = 0 \<and>
   (let frame = rewrite_ipv4_dst example_udp (ipv4_dst example_udp) 0x0A000063
    in get16 frame (csum_pos frame 6) \<noteq> 0 \<and> \<not> transport_ok frame)"
proof -
  let ?frame = "rewrite_ipv4_dst example_udp (ipv4_dst example_udp) 0x0A000063"
  have r: "?frame = [0, 0, 1, 69, 0, 0, 28, 0, 0, 0, 0, 64, 17, 102, 110, 10, 0, 0, 1, 10, 0, 0, 99, 3, 232, 0, 53, 0, 8, 255, 158]"
    by code_simp
  have "frame_wf example_udp \<and> ip_protocol example_udp = IP_PROTO_UDP \<and> get16 example_udp (csum_pos example_udp 6) = 0"
    by (simp add: frame_wf_def example_udp_def ihl_of_def ip_protocol_def FABRIC_HDR_SZ_def IP_PROTO_UDP_def csum_pos_def
        get16_def be16_def)
  moreover have "get16 ?frame (csum_pos ?frame 6) \<noteq> 0"
    unfolding r by (simp add: csum_pos_def ihl_of_def FABRIC_HDR_SZ_def get16_def be16_def)
  moreover have "\<not> transport_ok ?frame"
    unfolding r by (simp add: transport_ok_def csum_ok_def pseudo_sum_def segment_of_def ihl_of_def ip_protocol_def FABRIC_HDR_SZ_def)
  ultimately show ?thesis by (simp add: Let_def)
qed

end
