(* ===== verification/Flow_Track.thy ===== *)
theory Flow_Track
  imports Prelude "HOL-Library.AList"
begin

text \<open>
  Connection tracking in the worker fabric: the table that remembers which return
  traffic belongs to a rewritten connection (\<open>fabric/conntrack.rs\<close>) and the
  tracker that derives demand from TCP flags (\<open>fabric/flow.rs\<close>).  A
  \<open>HashMap\<close> is an association list, an \<open>Instant\<close> a natural
  number of nanoseconds; the clock reading of an operation is its argument.
\<close>

unbundle bit_operations_syntax

type_synonym instant = nat

section \<open>Connection tracking\<close>

record conntrack_key =
  ck_src_ip :: ipv4
  ck_dst_ip :: ipv4
  ck_protocol :: u8
  ck_src_port :: u16
  ck_dst_port :: u16

record conntrack_entry =
  ce_service_ip :: ipv4
  ce_backend_ip :: ipv4
  ce_last_seen :: instant

type_synonym conntrack_table = "(conntrack_key \<times> conntrack_entry) list"

definition conntrack_new :: conntrack_table where
  "conntrack_new = []"

definition conntrack_insert :: "conntrack_key \<Rightarrow> conntrack_entry \<Rightarrow> conntrack_table \<Rightarrow> conntrack_table" where
  "conntrack_insert key entry table = AList.update key entry table"

definition conntrack_lookup ::
  "instant \<Rightarrow> conntrack_key \<Rightarrow> conntrack_table \<Rightarrow> conntrack_table \<times> conntrack_entry option" where
  "conntrack_lookup now key table =
     (case map_of table key of
        Some entry \<Rightarrow>
          let entry = entry\<lparr>ce_last_seen := now\<rparr> in (AList.update key entry table, Some entry)
      | None \<Rightarrow> (table, None))"

definition conntrack_gc :: "instant \<Rightarrow> duration \<Rightarrow> conntrack_table \<Rightarrow> conntrack_table" where
  "conntrack_gc now max_age table = filter (\<lambda>(_, entry). now - ce_last_seen entry \<le> max_age) table"

section \<open>Flow tracking\<close>

record flow_key =
  fk_src_ip :: ipv4
  fk_dst_ip :: ipv4
  fk_protocol :: u8
  fk_src_port :: u16
  fk_dst_port :: u16

datatype tcp_flow_state = FlowOpening | FlowEstablished | FlowHalfClosed | FlowClosed

record flow_state =
  fs_last_seen :: instant
  fs_tcp_state :: tcp_flow_state

type_synonym flow_tracker = "(flow_key \<times> flow_state) list"

definition OPENING_TIMEOUT :: duration where
  "OPENING_TIMEOUT = from_secs 10"

definition IDLE_TIMEOUT :: duration where
  "IDLE_TIMEOUT = from_secs 300"

definition HALF_CLOSED_TIMEOUT :: duration where
  "HALF_CLOSED_TIMEOUT = from_secs 30"

definition CLOSED_LINGER :: duration where
  "CLOSED_LINGER = from_secs 5"

definition flow_tracker_new :: flow_tracker where
  "flow_tracker_new = []"

definition tcp_next :: "u8 \<Rightarrow> tcp_flow_state \<Rightarrow> tcp_flow_state" where
  "tcp_next flags state =
     (let fin = (flags AND 0x01 \<noteq> 0); rst = (flags AND 0x04 \<noteq> 0); ack = (flags AND 0x10 \<noteq> 0)
      in if rst then FlowClosed
         else if fin then (case state of FlowHalfClosed \<Rightarrow> FlowClosed | _ \<Rightarrow> FlowHalfClosed)
         else if state = FlowOpening \<and> ack then FlowEstablished
         else state)"

definition track_packet :: "instant \<Rightarrow> flow_key \<Rightarrow> u8 \<Rightarrow> flow_tracker \<Rightarrow> flow_tracker" where
  "track_packet now key flags flows =
     (let syn = (flags AND 0x02 \<noteq> 0); ack = (flags AND 0x10 \<noteq> 0)
      in case map_of flows key of
           Some state \<Rightarrow>
             AList.update key \<lparr>fs_last_seen = now, fs_tcp_state = tcp_next flags (fs_tcp_state state)\<rparr> flows
         | None \<Rightarrow>
             if syn
             then AList.update key \<lparr>fs_last_seen = now,
                    fs_tcp_state = (if ack then FlowEstablished else FlowOpening)\<rparr> flows
             else flows)"

definition is_active_state :: "tcp_flow_state \<Rightarrow> bool" where
  "is_active_state s \<longleftrightarrow> s = FlowEstablished \<or> s = FlowHalfClosed"

definition has_active_flows :: "flow_tracker \<Rightarrow> bool" where
  "has_active_flows flows \<longleftrightarrow> list_ex (\<lambda>(_, s). is_active_state (fs_tcp_state s)) flows"

fun flow_timeout :: "tcp_flow_state \<Rightarrow> duration" where
  "flow_timeout FlowOpening = OPENING_TIMEOUT"
| "flow_timeout FlowEstablished = IDLE_TIMEOUT"
| "flow_timeout FlowHalfClosed = HALF_CLOSED_TIMEOUT"
| "flow_timeout FlowClosed = CLOSED_LINGER"

definition flow_gc :: "instant \<Rightarrow> flow_tracker \<Rightarrow> flow_tracker" where
  "flow_gc now flows = filter (\<lambda>(_, state). now - fs_last_seen state < flow_timeout (fs_tcp_state state)) flows"

section \<open>The tables as maps\<close>

lemma map_of_filter_distinct:
  "distinct (map fst xs) \<Longrightarrow> map_of (filter (\<lambda>(k, v). P k v) xs) k = (case map_of xs k of Some v \<Rightarrow> if P k v then Some v else None | None \<Rightarrow> None)"
proof (induction xs)
  case (Cons x xs)
  then show ?case
    by (cases x) (auto simp: map_of_eq_None_iff rev_image_eqI split: option.splits)
qed simp

lemma conntrack_insert_map: "map_of (conntrack_insert k e t) = (map_of t)(k \<mapsto> e)"
  by (simp add: conntrack_insert_def update_conv')

lemma conntrack_insert_distinct: "distinct (map fst t) \<Longrightarrow> distinct (map fst (conntrack_insert k e t))"
  by (simp add: conntrack_insert_def distinct_update)

lemma conntrack_lookup_some:
  "map_of t k = Some e \<Longrightarrow> snd (conntrack_lookup now k t) = Some (e\<lparr>ce_last_seen := now\<rparr>)"
  by (simp add: conntrack_lookup_def Let_def)

lemma conntrack_gc_map:
  "distinct (map fst t) \<Longrightarrow> map_of (conntrack_gc now max_age t) k =
     (case map_of t k of Some e \<Rightarrow> if now - ce_last_seen e \<le> max_age then Some e else None | None \<Rightarrow> None)"
  by (simp add: conntrack_gc_def map_of_filter_distinct)

lemma track_packet_map:
  "map_of (track_packet now key flags flows) =
     (case map_of flows key of
        Some state \<Rightarrow> (map_of flows)(key \<mapsto> \<lparr>fs_last_seen = now, fs_tcp_state = tcp_next flags (fs_tcp_state state)\<rparr>)
      | None \<Rightarrow> if flags AND 0x02 \<noteq> 0
          then (map_of flows)(key \<mapsto> \<lparr>fs_last_seen = now,
                 fs_tcp_state = (if flags AND 0x10 \<noteq> 0 then FlowEstablished else FlowOpening)\<rparr>)
          else map_of flows)"
  by (simp add: track_packet_def Let_def update_conv' split: option.split)

lemma track_packet_distinct: "distinct (map fst flows) \<Longrightarrow> distinct (map fst (track_packet now key flags flows))"
  by (simp add: track_packet_def Let_def distinct_update split: option.split)

lemma flow_gc_distinct: "distinct (map fst flows) \<Longrightarrow> distinct (map fst (flow_gc now flows))"
  by (simp add: flow_gc_def distinct_map_filter)

lemma has_active_iff:
  "distinct (map fst flows) \<Longrightarrow>
   has_active_flows flows \<longleftrightarrow> (\<exists>k s. map_of flows k = Some s \<and> is_active_state (fs_tcp_state s))"
  by (auto simp: has_active_flows_def list_ex_iff)

section \<open>One flow at a time\<close>

text \<open>What a flow sees: the flags of its own packets since the tracker was made.\<close>

record flow_packet =
  fp_now :: instant
  fp_key :: flow_key
  fp_flags :: u8

definition track_all :: "flow_packet list \<Rightarrow> flow_tracker \<Rightarrow> flow_tracker" where
  "track_all ps flows = fold (\<lambda>p. track_packet (fp_now p) (fp_key p) (fp_flags p)) ps flows"

fun flow_step :: "u8 \<Rightarrow> tcp_flow_state option \<Rightarrow> tcp_flow_state option" where
  "flow_step flags (Some s) = Some (tcp_next flags s)"
| "flow_step flags None =
     (if flags AND 0x02 = 0 then None
      else Some (if flags AND 0x10 \<noteq> 0 then FlowEstablished else FlowOpening))"

definition flow_run :: "u8 list \<Rightarrow> tcp_flow_state option \<Rightarrow> tcp_flow_state option" where
  "flow_run flags s = fold flow_step flags s"

definition flags_of :: "flow_key \<Rightarrow> flow_packet list \<Rightarrow> u8 list" where
  "flags_of k ps = map fp_flags (filter (\<lambda>p. fp_key p = k) ps)"

lemma track_packet_step:
  "map_option fs_tcp_state (map_of (track_packet now key flags flows) k) =
     (if k = key then flow_step flags (map_option fs_tcp_state (map_of flows k))
      else map_option fs_tcp_state (map_of flows k))"
  by (simp add: track_packet_map split: option.split)

lemma track_all_run:
  "map_option fs_tcp_state (map_of (track_all ps flows) k) =
     flow_run (flags_of k ps) (map_option fs_tcp_state (map_of flows k))"
  unfolding track_all_def flow_run_def flags_of_def
proof (induction ps arbitrary: flows)
  case (Cons p ps)
  show ?case by (simp only: fold_Cons comp_def Cons.IH track_packet_step) simp
qed simp

lemma track_all_distinct: "distinct (map fst flows) \<Longrightarrow> distinct (map fst (track_all ps flows))"
  unfolding track_all_def by (induction ps arbitrary: flows) (simp_all add: track_packet_distinct)

text \<open>
  A closed flow: a further FIN makes it count as demand again, while the handshake
  of a new connection with the same addresses and ports does not.
\<close>

lemma closed_flow_fin_reactivates: "is_active_state (tcp_next 0x11 FlowClosed)"
  by (simp add: tcp_next_def is_active_state_def)

lemma closed_flow_not_reopened:
  "flow_run [0x02, 0x10, 0x18] (Some FlowClosed) = Some FlowClosed"
  by (simp add: flow_run_def tcp_next_def)

section \<open>Properties\<close>


end
