(* ===== verification/Endpoint_Table.thy ===== *)
theory Endpoint_Table
  imports Protocol_Types Activator_Types Packet Flow_Track
begin

text \<open>
  The endpoint table of the worker fabric (\<open>fabric/endpoint\<close>): what a worker
  does with a frame for an address of the namespace.  An entry is a service, a pod
  not placed yet, a pod or adapter on this worker, or an address served by another
  worker; frames are forwarded, buffered, given to an activator or dropped.

  WebAssembly execution, IP packet slicing and the TCP stack are libraries; the
  functions the fabric calls are the fields of the record \<open>host\<close>.  The type
  variables are the states of the first and the last of them.
\<close>

section \<open>The libraries\<close>

datatype transport_slice = SliceTcp u16 u16 u8 nat | SliceUdp u16 u16 | SliceOther

record ipv4_slice =
  sl_src :: ipv4
  sl_dst :: ipv4
  sl_transport :: transport_slice

record stream_manager_output =
  smo_events :: "act_event list"
  smo_frames :: "u8 list list"

record ('w, 'sm) host =
  h_wasm :: "'w \<Rightarrow> act_event list \<Rightarrow> 'w \<times> action list option"
  h_slice :: "u8 list \<Rightarrow> ipv4_slice option"
  h_receive_frame :: "'sm \<Rightarrow> u8 list \<Rightarrow> 'sm \<times> stream_manager_output"
  h_handle_timeout :: "'sm \<Rightarrow> 'sm \<times> stream_manager_output"
  h_update_backend :: "'sm \<Rightarrow> ipv4 option \<Rightarrow> 'sm"
  h_execute_action :: "'sm \<Rightarrow> action \<Rightarrow> 'sm \<times> stream_manager_output"
  h_poll_delay :: "'sm \<Rightarrow> duration option"

section \<open>Activator instances\<close>

record 'w activator_instance =
  ai_wasm :: 'w
  ai_pending_events :: "act_event list"
  ai_last_backend_need :: act_backend_need

definition push_event :: "act_event \<Rightarrow> 'w activator_instance \<Rightarrow> 'w activator_instance" where
  "push_event ev ai = ai\<lparr>ai_pending_events := ai_pending_events ai @ [ev]\<rparr>"

definition process_events ::
  "('w, 'sm) host \<Rightarrow> 'w activator_instance \<Rightarrow> 'w activator_instance \<times> action list option" where
  "process_events host ai =
     (if ai_pending_events ai = [] then (ai, Some [])
      else let (w, result) = h_wasm host (ai_wasm ai) (ai_pending_events ai);
               ai = ai\<lparr>ai_wasm := w, ai_pending_events := []\<rparr>
           in case result of
                None \<Rightarrow> (ai, None)
              | Some actions \<Rightarrow> (ai\<lparr>ai_last_backend_need := last_need (ai_last_backend_need ai) actions\<rparr>, Some actions))"

section \<open>Packet information for activators\<close>

record packet_flow_key =
  pfk_src_ip :: ipv4
  pfk_dst_ip :: ipv4
  pfk_protocol :: u8
  pfk_src_port :: u16
  pfk_dst_port :: u16

record packet_flow_tracker =
  pft_flows :: "(packet_flow_key \<times> packet_flow) list"
  pft_next_id :: packet_flow

definition packet_flow_tracker_new :: packet_flow_tracker where
  "packet_flow_tracker_new = \<lparr>pft_flows = [], pft_next_id = 1\<rparr>"

definition get_or_assign :: "packet_flow_key \<Rightarrow> packet_flow_tracker \<Rightarrow> packet_flow_tracker \<times> packet_flow" where
  "get_or_assign key ft =
     (case map_of (pft_flows ft) key of
        Some flow \<Rightarrow> (ft, flow)
      | None \<Rightarrow> (ft\<lparr>pft_flows := AList.update key (pft_next_id ft) (pft_flows ft), pft_next_id := pft_next_id ft + 1\<rparr>,
                 pft_next_id ft))"

definition parse_frame_to_packet_info ::
  "('w, 'sm) host \<Rightarrow> u8 list \<Rightarrow> u8 list \<Rightarrow> packet_flow_tracker \<Rightarrow> packet_flow_tracker \<times> packet_info option" where
  "parse_frame_to_packet_info host pkt raw_frame ft =
     (case h_slice host pkt of
        None \<Rightarrow> (ft, None)
      | Some sl \<Rightarrow>
          let (protocol, src_port, dst_port, flags, payload_len, ip_proto_num) =
                (case sl_transport sl of
                   SliceTcp s d flags total_len \<Rightarrow> (ProtoTcp, s, d, Some flags, length pkt - total_len, 6)
                 | SliceUdp s d \<Rightarrow> (ProtoUdp, s, d, None, 0, 17)
                 | SliceOther \<Rightarrow> (ProtoOther, 0, 0, None, 0, 0));
              (ft, flow) = get_or_assign \<lparr>pfk_src_ip = sl_src sl, pfk_dst_ip = sl_dst sl,
                 pfk_protocol = ip_proto_num, pfk_src_port = src_port, pfk_dst_port = dst_port\<rparr> ft
          in (ft, Some \<lparr>pki_flow = flow, pki_src_addr = octets (sl_src sl), pki_dst_addr = octets (sl_dst sl),
                pki_src_port = src_port, pki_dst_port = dst_port, pki_protocol = protocol, pki_tcp_flags = flags,
                pki_payload_len = payload_len, pki_raw_frame = raw_frame\<rparr>))"

section \<open>Service processors\<close>

type_synonym port_id = u64

datatype endpoint_action =
    ServiceForward ipv4 ipv4
  | BufferedFrame "service_id option"
  | DropFrame "service_id option"
  | ActivatorActions "action list" service_id
  | L4Result "action list" "u8 list list" service_id "duration option"
  | ToRemoteWorker worker_id
  | ToLocalAdapter port_id
  | ToLocalPod port_id
  | NotFound

datatype 'w port_mode = PmPassthrough | PmL3 "'w activator_instance" | PmL4

datatype default_port_mode = DefaultDrop | DefaultPassthrough

record ('w, 'sm) service_processor =
  spr_port_routes :: "(u16 \<times> 'w port_mode) list"
  spr_default_mode :: default_port_mode
  spr_stream_manager :: "'sm option"
  spr_flow_tracker :: packet_flow_tracker

definition passthrough_processor :: "('w, 'sm) service_processor" where
  "passthrough_processor = \<lparr>spr_port_routes = [], spr_default_mode = DefaultPassthrough, spr_stream_manager = None,
     spr_flow_tracker = packet_flow_tracker_new\<rparr>"

definition extract_dst_port :: "u8 list \<Rightarrow> u16 option" where
  "extract_dst_port pkt =
     (if length pkt < 20 then None
      else let ihl = unat (pkt ! 0 AND 0x0F) * 4; protocol = pkt ! 9
           in if length pkt < ihl + 4 then None
              else if protocol = 6 \<or> protocol = 17 then Some (get16 pkt (ihl + 2)) else None)"

text \<open>
  The events of the stream manager go to the activator, the activator's stream actions
  back to the stream manager, for at most four rounds.
\<close>

fun execute_l4_actions ::
  "('w, 'sm) host \<Rightarrow> action list \<Rightarrow> 'sm \<Rightarrow> 'sm \<times> act_event list \<times> u8 list list" where
  "execute_l4_actions host [] sm = (sm, [], [])"
| "execute_l4_actions host (a # as) sm =
     (if is_l4_action a
      then let (sm, out) = h_execute_action host sm a;
               (sm, events, frames) = execute_l4_actions host as sm
           in (sm, smo_events out @ events, smo_frames out @ frames)
      else execute_l4_actions host as sm)"

fun l4_rounds ::
  "nat \<Rightarrow> ('w, 'sm) host \<Rightarrow> 'w activator_instance \<Rightarrow> 'sm \<Rightarrow> stream_manager_output \<Rightarrow> action list \<Rightarrow>
   'w activator_instance \<times> 'sm \<times> stream_manager_output \<times> action list" where
  "l4_rounds 0 host activator sm out acc = (activator, sm, out, acc)"
| "l4_rounds (Suc n) host activator sm out acc =
     (let activator = fold push_event (smo_events out) activator
      in if ai_pending_events activator = [] then (activator, sm, out\<lparr>smo_events := []\<rparr>, acc)
         else case process_events host activator of
                (activator, None) \<Rightarrow> (activator, sm, out\<lparr>smo_events := []\<rparr>, acc)
              | (activator, Some actions) \<Rightarrow>
                  let (sm, new_events, frames) = execute_l4_actions host actions sm
                  in l4_rounds n host activator sm
                       \<lparr>smo_events = new_events, smo_frames = smo_frames out @ frames\<rparr>
                       (acc @ filter (\<lambda>a. \<not> is_l4_action a) actions))"

definition process_l4_output ::
  "('w, 'sm) host \<Rightarrow> service_id \<Rightarrow> 'w activator_instance option \<Rightarrow> 'sm \<Rightarrow> stream_manager_output \<Rightarrow>
   'w activator_instance option \<times> 'sm \<times> endpoint_action" where
  "process_l4_output host sid activator sm out =
     (let (activator, sm, out, actions) =
            (case activator of
               None \<Rightarrow> (None, sm, out, [])
             | Some a \<Rightarrow> let (a, r) = l4_rounds 4 host a sm out [] in (Some a, r))
      in (activator, sm, L4Result actions (smo_frames out) sid (h_poll_delay host sm)))"

text \<open>The callers attach no activator to the stream manager.\<close>

definition stream_manager_turn ::
  "('w, 'sm) host \<Rightarrow> service_id \<Rightarrow> 'sm \<times> stream_manager_output \<Rightarrow> ('w, 'sm) service_processor \<Rightarrow>
   ('w, 'sm) service_processor \<times> endpoint_action option" where
  "stream_manager_turn host sid turn proc =
     (let (sm, out) = turn; (_, sm, action) = process_l4_output host sid None sm out
      in (proc\<lparr>spr_stream_manager := Some sm\<rparr>, Some action))"

definition process_frame ::
  "('w, 'sm) host \<Rightarrow> service_id \<Rightarrow> u8 list \<Rightarrow> u8 list \<Rightarrow> ('w, 'sm) service_processor \<Rightarrow>
   ('w, 'sm) service_processor \<times> endpoint_action option" where
  "process_frame host sid pkt raw_frame proc =
     (case extract_dst_port pkt of
        None \<Rightarrow> (proc, None)
      | Some dst_port \<Rightarrow>
          (case map_of (spr_port_routes proc) dst_port of
             None \<Rightarrow> (proc, None)
           | Some PmPassthrough \<Rightarrow> (proc, None)
           | Some PmL4 \<Rightarrow>
               (case spr_stream_manager proc of
                  None \<Rightarrow> (proc, None)
                | Some sm \<Rightarrow> stream_manager_turn host sid (h_receive_frame host sm pkt) proc)
           | Some (PmL3 activator) \<Rightarrow>
               let (ft, info) = parse_frame_to_packet_info host pkt raw_frame (spr_flow_tracker proc);
                   activator = (case info of Some i \<Rightarrow> push_event (EvPacket i) activator | None \<Rightarrow> activator);
                   (activator, result) = process_events host activator;
                   proc = proc\<lparr>spr_flow_tracker := ft,
                     spr_port_routes := AList.update dst_port (PmL3 activator) (spr_port_routes proc)\<rparr>
               in (proc, map_option (\<lambda>actions. ActivatorActions actions sid) result)))"

definition push_to_l3 :: "act_event \<Rightarrow> u16 \<times> 'w port_mode \<Rightarrow> u16 \<times> 'w port_mode" where
  "push_to_l3 ev = (\<lambda>(port, mode). (port, case mode of PmL3 a \<Rightarrow> PmL3 (push_event ev a) | _ \<Rightarrow> mode))"

definition run_l3 :: "('w, 'sm) host \<Rightarrow> u16 \<times> 'w port_mode \<Rightarrow> (u16 \<times> 'w port_mode) \<times> action list" where
  "run_l3 host = (\<lambda>(port, mode).
     case mode of
       PmL3 a \<Rightarrow> (let (a, result) = process_events host a in ((port, PmL3 a), unwrap_or result []))
     | _ \<Rightarrow> ((port, mode), []))"

definition on_mark_ready ::
  "('w, 'sm) host \<Rightarrow> service_id \<Rightarrow> ('w, 'sm) service_processor \<Rightarrow> ('w, 'sm) service_processor \<times> endpoint_action option" where
  "on_mark_ready host sid proc =
     (let proc = proc\<lparr>spr_port_routes := map (push_to_l3 (EvBackendAvailable True)) (spr_port_routes proc)\<rparr>
      in case spr_stream_manager proc of
           Some sm \<Rightarrow> stream_manager_turn host sid (h_handle_timeout host sm) proc
         | None \<Rightarrow>
             let runs = map (run_l3 host) (spr_port_routes proc);
                 actions = concat (map snd runs)
             in (proc\<lparr>spr_port_routes := map fst runs\<rparr>,
                 if actions = [] then None else Some (ActivatorActions actions sid)))"

definition on_backend_update ::
  "('w, 'sm) host \<Rightarrow> bool \<Rightarrow> ipv4 option \<Rightarrow> ('w, 'sm) service_processor \<Rightarrow> ('w, 'sm) service_processor" where
  "on_backend_update host has_backend backend_ip proc =
     proc\<lparr>spr_port_routes := map (push_to_l3 (EvBackendAvailable has_backend)) (spr_port_routes proc),
          spr_stream_manager := map_option (\<lambda>sm. h_update_backend host sm backend_ip) (spr_stream_manager proc)\<rparr>"

definition processor_handle_timeout ::
  "('w, 'sm) host \<Rightarrow> service_id \<Rightarrow> ('w, 'sm) service_processor \<Rightarrow> ('w, 'sm) service_processor \<times> endpoint_action option" where
  "processor_handle_timeout host sid proc =
     (case spr_stream_manager proc of
        Some sm \<Rightarrow> stream_manager_turn host sid (h_handle_timeout host sm) proc
      | None \<Rightarrow> (proc, None))"

definition is_passthrough :: "('w, 'sm) service_processor \<Rightarrow> bool" where
  "is_passthrough proc \<longleftrightarrow> list_all (\<lambda>(_, m). case m of PmPassthrough \<Rightarrow> True | _ \<Rightarrow> False) (spr_port_routes proc)"

definition has_stream_manager :: "('w, 'sm) service_processor \<Rightarrow> bool" where
  "has_stream_manager proc \<longleftrightarrow> spr_stream_manager proc \<noteq> None"

section \<open>Endpoints\<close>

datatype fabric_endpoint_state = EpBuffering | EpPending | EpReady

record buffer_policy =
  bp_buffer_frames :: u32
  bp_timeout_ms :: u32

datatype ('w, 'sm) endpoint_backend =
    BkService service_id service_policy "ipv4 option" "('w, 'sm) service_processor"
  | BkUnplacedPod buffer_policy
  | BkRemoteSegment worker_id
  | BkLocalAdapter port_id
  | BkLocalPod "port_id option"

record ('w, 'sm) fabric_endpoint =
  fe_ip :: ipv4
  fe_state :: fabric_endpoint_state
  fe_buffer :: "u8 list list"
  fe_buffer_start :: "instant option"
  fe_backend :: "('w, 'sm) endpoint_backend"
  fe_flow_tracker :: "flow_tracker option"
  fe_last_activation :: "instant option"

record flow_status_change =
  fsc_ip :: ipv4
  fsc_service_id :: "service_id option"
  fsc_active :: bool

datatype endpoint_sync_effect =
    ServiceReady service_id
  | FlushPodBuffer ipv4
  | FlushAdapterBuffer ipv4 port_id "u8 list list"
  | SyncFlowStatusChange flow_status_change

record ('w, 'sm) endpoint_table =
  et_by_ip :: "(ipv4 \<times> ('w, 'sm) fabric_endpoint) list"
  et_service_id_to_ip :: "(service_id \<times> ipv4) list"
  et_activation_debounce :: duration

definition endpoint_table_new :: "('w, 'sm) endpoint_table" where
  "endpoint_table_new = \<lparr>et_by_ip = [], et_service_id_to_ip = [], et_activation_debounce = from_secs 1\<rparr>"

fun backend_service_id :: "('w, 'sm) endpoint_backend \<Rightarrow> service_id option" where
  "backend_service_id (BkService sid _ _ _) = Some sid"
| "backend_service_id _ = None"

definition ep_put :: "ipv4 \<Rightarrow> ('w, 'sm) fabric_endpoint \<Rightarrow> ('w, 'sm) endpoint_table \<Rightarrow> ('w, 'sm) endpoint_table" where
  "ep_put ip ep et = et\<lparr>et_by_ip := AList.update ip ep (et_by_ip et)\<rparr>"

text \<open>Forget the address of the service whose endpoint is about to be replaced.\<close>

definition drop_service_mapping :: "ipv4 \<Rightarrow> ('w, 'sm) endpoint_table \<Rightarrow> ('w, 'sm) endpoint_table" where
  "drop_service_mapping ip et =
     (case map_of (et_by_ip et) ip of
        Some ep \<Rightarrow>
          (case backend_service_id (fe_backend ep) of
             Some sid \<Rightarrow> et\<lparr>et_service_id_to_ip := AList.delete sid (et_service_id_to_ip et)\<rparr>
           | None \<Rightarrow> et)
      | None \<Rightarrow> et)"

definition drain_buffer :: "('w, 'sm) fabric_endpoint \<Rightarrow> ('w, 'sm) fabric_endpoint" where
  "drain_buffer ep = ep\<lparr>fe_buffer := [], fe_buffer_start := None\<rparr>"

section \<open>Frame dispatch\<close>

definition track_flow ::
  "instant \<Rightarrow> u8 list \<Rightarrow> ('w, 'sm) fabric_endpoint \<Rightarrow> ('w, 'sm) fabric_endpoint \<times> flow_status_change option" where
  "track_flow now frame ep =
     (case fe_flow_tracker ep of
        None \<Rightarrow> (ep, None)
      | Some ft \<Rightarrow>
          (case fabric_packet_new frame of
             None \<Rightarrow> (ep, None)
           | Some fp \<Rightarrow>
               if ip_protocol fp \<noteq> IP_PROTO_TCP then (ep, None)
               else (case (transport_ports fp, tcp_flags fp) of
                       (Some (src_port, dst_port), Some flags) \<Rightarrow>
                         let had_active = has_active_flows ft;
                             ft = track_packet now \<lparr>fk_src_ip = ipv4_src fp, fk_dst_ip = ipv4_dst fp,
                                    fk_protocol = IP_PROTO_TCP, fk_src_port = src_port, fk_dst_port = dst_port\<rparr> flags ft;
                             has_active = has_active_flows ft
                         in (ep\<lparr>fe_flow_tracker := Some ft\<rparr>,
                             if has_active \<noteq> had_active
                             then Some \<lparr>fsc_ip = fe_ip ep, fsc_service_id = backend_service_id (fe_backend ep),
                                    fsc_active = has_active\<rparr>
                             else None)
                     | _ \<Rightarrow> (ep, None))))"

definition check_activation_debounce ::
  "duration \<Rightarrow> instant \<Rightarrow> ('w, 'sm) fabric_endpoint \<Rightarrow> ('w, 'sm) fabric_endpoint \<times> bool" where
  "check_activation_debounce debounce now ep =
     (case fe_last_activation ep of
        Some prev \<Rightarrow> if now - prev < debounce then (ep, False) else (ep\<lparr>fe_last_activation := Some now\<rparr>, True)
      | None \<Rightarrow> (ep\<lparr>fe_last_activation := Some now\<rparr>, True))"

definition try_buffer_frame ::
  "u8 list \<Rightarrow> u32 \<Rightarrow> u32 \<Rightarrow> instant \<Rightarrow> ('w, 'sm) fabric_endpoint \<Rightarrow> ('w, 'sm) fabric_endpoint \<times> bool" where
  "try_buffer_frame frame buffer_frames timeout_ms now ep =
     (if buffer_frames = 0 then (ep, False)
      else if (case fe_buffer_start ep of Some start \<Rightarrow> now - start \<ge> from_millis (unat timeout_ms) | None \<Rightarrow> False)
      then (drain_buffer ep, False)
      else if length (fe_buffer ep) \<ge> unat buffer_frames then (ep, False)
      else (ep\<lparr>fe_buffer_start := (case fe_buffer_start ep of None \<Rightarrow> Some now | s \<Rightarrow> s),
               fe_buffer := fe_buffer ep @ [frame]\<rparr>, True))"

text \<open>Debounce, then buffer: the common end of the three buffering paths.\<close>

definition debounce_and_buffer ::
  "ipv4 \<Rightarrow> u8 list \<Rightarrow> service_id option \<Rightarrow> u32 \<Rightarrow> u32 \<Rightarrow> flow_status_change option \<Rightarrow> instant \<Rightarrow>
   ('w, 'sm) fabric_endpoint \<Rightarrow> ('w, 'sm) endpoint_table \<Rightarrow>
   ('w, 'sm) endpoint_table \<times> endpoint_action \<times> bool \<times> flow_status_change option" where
  "debounce_and_buffer dst_ip frame sid buffer_frames timeout_ms flow_change now ep et =
     (let (ep, should_activate) = check_activation_debounce (et_activation_debounce et) now ep;
          (ep, buffered) = try_buffer_frame frame buffer_frames timeout_ms now ep
      in (ep_put dst_ip ep et, if buffered then BufferedFrame sid else DropFrame sid, should_activate, flow_change))"

definition dispatch_service_buffer ::
  "('w, 'sm) host \<Rightarrow> ipv4 \<Rightarrow> u8 list \<Rightarrow> flow_status_change option \<Rightarrow> instant \<Rightarrow>
   ('w, 'sm) fabric_endpoint \<Rightarrow> service_id \<Rightarrow> service_policy \<Rightarrow> ipv4 option \<Rightarrow> ('w, 'sm) service_processor \<Rightarrow>
   ('w, 'sm) endpoint_table \<Rightarrow> ('w, 'sm) endpoint_table \<times> endpoint_action \<times> bool \<times> flow_status_change option" where
  "dispatch_service_buffer host dst_ip frame flow_change now ep sid policy backend_ip proc et =
     (let (proc, result) =
            (if \<not> is_passthrough proc
             then (case fabric_packet_new frame of
                     Some fp \<Rightarrow> process_frame host sid (ip_packet fp) frame proc
                   | None \<Rightarrow> (proc, None))
             else (proc, None));
          ep = ep\<lparr>fe_backend := BkService sid policy backend_ip proc\<rparr>
      in case result of
           Some action \<Rightarrow> (ep_put dst_ip ep et, action, False, None)
         | None \<Rightarrow> debounce_and_buffer dst_ip frame (Some sid) (sp_buffer_frames policy) (sp_timeout_ms policy)
                     flow_change now ep et)"

fun is_reachable :: "('w, 'sm) endpoint_backend \<Rightarrow> bool" where
  "is_reachable (BkLocalPod port_id) \<longleftrightarrow> port_id \<noteq> None"
| "is_reachable (BkRemoteSegment _) \<longleftrightarrow> True"
| "is_reachable (BkLocalAdapter _) \<longleftrightarrow> True"
| "is_reachable _ \<longleftrightarrow> False"

definition is_backend_reachable :: "ipv4 \<Rightarrow> ('w, 'sm) endpoint_table \<Rightarrow> bool" where
  "is_backend_reachable ip et =
     (case map_of (et_by_ip et) ip of Some ep \<Rightarrow> is_reachable (fe_backend ep) | None \<Rightarrow> False)"

definition dispatch_service ::
  "('w, 'sm) host \<Rightarrow> ipv4 \<Rightarrow> u8 list \<Rightarrow> flow_status_change option \<Rightarrow> instant \<Rightarrow>
   ('w, 'sm) fabric_endpoint \<Rightarrow> service_id \<Rightarrow> service_policy \<Rightarrow> ipv4 option \<Rightarrow> ('w, 'sm) service_processor \<Rightarrow>
   ('w, 'sm) endpoint_table \<Rightarrow> ('w, 'sm) endpoint_table \<times> endpoint_action \<times> bool \<times> flow_status_change option" where
  "dispatch_service host dst_ip frame flow_change now ep sid policy backend_ip proc et =
     (case (fe_state ep, backend_ip) of
        (EpReady, Some pod_ip) \<Rightarrow>
          if pod_ip \<noteq> dst_ip \<and> is_backend_reachable pod_ip et
          then (et, ServiceForward pod_ip (fe_ip ep), False, flow_change)
          else dispatch_service_buffer host dst_ip frame flow_change now ep sid policy backend_ip proc et
      | _ \<Rightarrow> dispatch_service_buffer host dst_ip frame flow_change now ep sid policy backend_ip proc et)"

definition dispatch_unplaced_pod ::
  "ipv4 \<Rightarrow> u8 list \<Rightarrow> flow_status_change option \<Rightarrow> instant \<Rightarrow> ('w, 'sm) fabric_endpoint \<Rightarrow> buffer_policy \<Rightarrow>
   ('w, 'sm) endpoint_table \<Rightarrow> ('w, 'sm) endpoint_table \<times> endpoint_action \<times> bool \<times> flow_status_change option" where
  "dispatch_unplaced_pod dst_ip frame flow_change now ep policy et =
     debounce_and_buffer dst_ip frame None (bp_buffer_frames policy) (bp_timeout_ms policy) flow_change now ep et"

definition dispatch_local_pod_pending ::
  "ipv4 \<Rightarrow> u8 list \<Rightarrow> flow_status_change option \<Rightarrow> instant \<Rightarrow> ('w, 'sm) fabric_endpoint \<Rightarrow>
   ('w, 'sm) endpoint_table \<Rightarrow> ('w, 'sm) endpoint_table \<times> endpoint_action \<times> bool \<times> flow_status_change option" where
  "dispatch_local_pod_pending dst_ip frame flow_change now ep et =
     debounce_and_buffer dst_ip frame None 64 30000 flow_change now ep et"

definition lookup_and_buffer ::
  "('w, 'sm) host \<Rightarrow> instant \<Rightarrow> ipv4 \<Rightarrow> u8 list \<Rightarrow> bool \<Rightarrow> ('w, 'sm) endpoint_table \<Rightarrow>
   ('w, 'sm) endpoint_table \<times> endpoint_action \<times> bool \<times> flow_status_change option" where
  "lookup_and_buffer host now dst_ip frame skip_flow_tracking et =
     (case map_of (et_by_ip et) dst_ip of
        None \<Rightarrow> (et, NotFound, False, None)
      | Some ep \<Rightarrow>
          let (ep, flow_change) = (if skip_flow_tracking then (ep, None) else track_flow now frame ep);
              et = ep_put dst_ip ep et
          in case fe_backend ep of
               BkRemoteSegment worker_id \<Rightarrow> (et, ToRemoteWorker worker_id, False, None)
             | BkLocalAdapter port_id \<Rightarrow> (et, ToLocalAdapter port_id, False, flow_change)
             | BkLocalPod (Some pid) \<Rightarrow> (et, ToLocalPod pid, False, flow_change)
             | BkService sid policy backend_ip proc \<Rightarrow>
                 dispatch_service host dst_ip frame flow_change now ep sid policy backend_ip proc et
             | BkUnplacedPod policy \<Rightarrow> dispatch_unplaced_pod dst_ip frame flow_change now ep policy et
             | BkLocalPod None \<Rightarrow> dispatch_local_pod_pending dst_ip frame flow_change now ep et)"

section \<open>Readiness, buffers and ports\<close>

datatype mark_ready_result =
    MarkPassthrough "u8 list list" ipv4 ipv4 "action list"
  | MarkL4 endpoint_action

fun actions_of :: "endpoint_action \<Rightarrow> action list" where
  "actions_of (ActivatorActions actions _) = actions"
| "actions_of _ = []"

definition mark_service_ready ::
  "('w, 'sm) host \<Rightarrow> service_id \<Rightarrow> ('w, 'sm) endpoint_table \<Rightarrow> ('w, 'sm) endpoint_table \<times> mark_ready_result option" where
  "mark_service_ready host service_id et =
     (case map_of (et_service_id_to_ip et) service_id of
        None \<Rightarrow> (et, None)
      | Some ip \<Rightarrow>
          (case map_of (et_by_ip et) ip of
             None \<Rightarrow> (et, None)
           | Some ep \<Rightarrow>
               (case fe_backend ep of
                  BkService sid policy (Some backend_ip) proc \<Rightarrow>
                    let ep = ep\<lparr>fe_state := EpReady\<rparr>;
                        (proc, result) = on_mark_ready host sid proc;
                        ep = ep\<lparr>fe_backend := BkService sid policy (Some backend_ip) proc\<rparr>
                    in (case result of
                          Some svc_action \<Rightarrow>
                            if has_stream_manager proc then (ep_put ip ep et, Some (MarkL4 svc_action))
                            else (ep_put ip (drain_buffer ep) et,
                                  Some (MarkPassthrough (fe_buffer ep) backend_ip (fe_ip ep) (actions_of svc_action)))
                        | None \<Rightarrow>
                            let frames = fe_buffer ep;
                                ep = drain_buffer ep;
                                ep = (if fe_flow_tracker ep = None then ep\<lparr>fe_flow_tracker := Some flow_tracker_new\<rparr> else ep)
                            in (ep_put ip ep et, Some (MarkPassthrough frames backend_ip (fe_ip ep) [])))
                | _ \<Rightarrow> (et, None))))"

definition flush_pod_buffer :: "ipv4 \<Rightarrow> ('w, 'sm) endpoint_table \<Rightarrow> ('w, 'sm) endpoint_table \<times> u8 list list" where
  "flush_pod_buffer ip et =
     (case map_of (et_by_ip et) ip of
        Some ep \<Rightarrow>
          (case fe_backend ep of
             BkUnplacedPod _ \<Rightarrow> (ep_put ip (drain_buffer ep) et, fe_buffer ep)
           | BkLocalPod _ \<Rightarrow> (ep_put ip (drain_buffer ep) et, fe_buffer ep)
           | _ \<Rightarrow> (et, []))
      | None \<Rightarrow> (et, []))"

definition get_service_nat_info :: "service_id \<Rightarrow> ('w, 'sm) endpoint_table \<Rightarrow> (ipv4 \<times> ipv4) option" where
  "get_service_nat_info service_id et =
     Option.bind (map_of (et_service_id_to_ip et) service_id) (\<lambda>ip.
     Option.bind (map_of (et_by_ip et) ip) (\<lambda>ep.
       case fe_backend ep of BkService _ _ (Some backend_ip) _ \<Rightarrow> Some (fe_ip ep, backend_ip) | _ \<Rightarrow> None))"

definition get_service_ip :: "service_id \<Rightarrow> ('w, 'sm) endpoint_table \<Rightarrow> ipv4 option" where
  "get_service_ip service_id et = map_of (et_service_id_to_ip et) service_id"

definition handle_timeout_for_ip ::
  "('w, 'sm) host \<Rightarrow> ipv4 \<Rightarrow> ('w, 'sm) endpoint_table \<Rightarrow> ('w, 'sm) endpoint_table \<times> endpoint_action option" where
  "handle_timeout_for_ip host ip et =
     (case map_of (et_by_ip et) ip of
        Some ep \<Rightarrow>
          (case fe_backend ep of
             BkService sid policy backend_ip proc \<Rightarrow>
               let (proc, result) = processor_handle_timeout host sid proc
               in (ep_put ip (ep\<lparr>fe_backend := BkService sid policy backend_ip proc\<rparr>) et, result)
           | _ \<Rightarrow> (et, None))
      | None \<Rightarrow> (et, None))"

record service_flush_data =
  sfd_service_ip :: ipv4
  sfd_backend_ip :: ipv4
  sfd_frames :: "u8 list list"

definition flushable :: "ipv4 \<Rightarrow> ('w, 'sm) fabric_endpoint \<Rightarrow> bool" where
  "flushable target_ip ep \<longleftrightarrow>
     (case fe_backend ep of
        BkService _ _ backend_ip _ \<Rightarrow> fe_state ep = EpReady \<and> backend_ip = Some target_ip \<and> fe_buffer ep \<noteq> []
      | _ \<Rightarrow> False)"

definition flush_by_backend_ip ::
  "ipv4 \<Rightarrow> ('w, 'sm) endpoint_table \<Rightarrow> ('w, 'sm) endpoint_table \<times> service_flush_data list" where
  "flush_by_backend_ip target_ip et =
     (et\<lparr>et_by_ip := map (\<lambda>(ip, ep). (ip, if flushable target_ip ep then drain_buffer ep else ep)) (et_by_ip et)\<rparr>,
      map (\<lambda>(ip, ep). \<lparr>sfd_service_ip = ip, sfd_backend_ip = target_ip, sfd_frames = fe_buffer ep\<rparr>)
        (filter (\<lambda>(ip, ep). flushable target_ip ep) (et_by_ip et)))"

definition attach_port ::
  "ipv4 \<Rightarrow> port_id \<Rightarrow> ('w, 'sm) endpoint_table \<Rightarrow> ('w, 'sm) endpoint_table \<times> (string + u8 list list)" where
  "attach_port ip port_id et =
     (case map_of (et_by_ip et) ip of
        None \<Rightarrow> (et, Inl ''attach_port: no endpoint for IP'')
      | Some ep \<Rightarrow>
          (case fe_backend ep of
             BkLocalPod _ \<Rightarrow>
               (ep_put ip (drain_buffer (ep\<lparr>fe_backend := BkLocalPod (Some port_id), fe_state := EpReady,
                  fe_flow_tracker := Some (unwrap_or (fe_flow_tracker ep) flow_tracker_new)\<rparr>)) et,
                Inr (fe_buffer ep))
           | _ \<Rightarrow> (et, Inl ''attach_port: endpoint is not LocalPod'')))"

fun detach_first ::
  "port_id \<Rightarrow> (ipv4 \<times> ('w, 'sm) fabric_endpoint) list \<Rightarrow> (ipv4 \<times> ('w, 'sm) fabric_endpoint) list" where
  "detach_first port_id [] = []"
| "detach_first port_id ((ip, ep) # rest) =
     (if (case fe_backend ep of BkLocalPod pid \<Rightarrow> pid = Some port_id | _ \<Rightarrow> False)
      then (ip, ep\<lparr>fe_backend := BkLocalPod None, fe_state := EpPending\<rparr>) # rest
      else (ip, ep) # detach_first port_id rest)"

definition detach_port :: "port_id \<Rightarrow> ('w, 'sm) endpoint_table \<Rightarrow> ('w, 'sm) endpoint_table" where
  "detach_port port_id et = et\<lparr>et_by_ip := detach_first port_id (et_by_ip et)\<rparr>"

definition get_port_id :: "ipv4 \<Rightarrow> ('w, 'sm) endpoint_table \<Rightarrow> port_id option" where
  "get_port_id ip et =
     (case map_of (et_by_ip et) ip of
        Some ep \<Rightarrow>
          (case fe_backend ep of BkLocalPod port_id \<Rightarrow> port_id | BkLocalAdapter port_id \<Rightarrow> Some port_id | _ \<Rightarrow> None)
      | None \<Rightarrow> None)"

definition gc_endpoint :: "instant \<Rightarrow> ('w, 'sm) fabric_endpoint \<Rightarrow> ('w, 'sm) fabric_endpoint \<times> flow_status_change option" where
  "gc_endpoint now ep =
     (case fe_flow_tracker ep of
        None \<Rightarrow> (ep, None)
      | Some ft \<Rightarrow>
          let had_active = has_active_flows ft; ft = flow_gc now ft; has_active = has_active_flows ft
          in (ep\<lparr>fe_flow_tracker := Some ft\<rparr>,
              if has_active \<noteq> had_active
              then Some \<lparr>fsc_ip = fe_ip ep, fsc_service_id = backend_service_id (fe_backend ep), fsc_active = has_active\<rparr>
              else None))"

definition gc_flow_trackers ::
  "instant \<Rightarrow> ('w, 'sm) endpoint_table \<Rightarrow> ('w, 'sm) endpoint_table \<times> flow_status_change list" where
  "gc_flow_trackers now et =
     (let results = map (\<lambda>(ip, ep). (ip, gc_endpoint now ep)) (et_by_ip et)
      in (et\<lparr>et_by_ip := map (\<lambda>(ip, ep, _). (ip, ep)) results\<rparr>,
          List.map_filter (\<lambda>(_, _, change). change) results))"

section \<open>Configuration\<close>

definition remove_ip :: "('w, 'sm) endpoint_table \<Rightarrow> ipv4 \<Rightarrow> ('w, 'sm) endpoint_table" where
  "remove_ip et ip = (let et = drop_service_mapping ip et in et\<lparr>et_by_ip := AList.delete ip (et_by_ip et)\<rparr>)"

definition apply_local_pod :: "ipv4 \<Rightarrow> ('w, 'sm) endpoint_table \<Rightarrow> ('w, 'sm) endpoint_table" where
  "apply_local_pod ip et =
     (let existing_port_id = (case map_of (et_by_ip et) ip of
            Some ep \<Rightarrow> (case fe_backend ep of BkLocalPod port_id \<Rightarrow> port_id | _ \<Rightarrow> None)
          | None \<Rightarrow> None);
          old_buffer = (case map_of (et_by_ip et) ip of
            Some ep \<Rightarrow> (case fe_backend ep of BkUnplacedPod _ \<Rightarrow> fe_buffer ep | _ \<Rightarrow> [])
          | None \<Rightarrow> [])
      in ep_put ip
           \<lparr>fe_ip = ip, fe_state = (if existing_port_id \<noteq> None then EpReady else EpPending), fe_buffer = old_buffer,
            fe_buffer_start = None, fe_backend = BkLocalPod existing_port_id,
            fe_flow_tracker = (if existing_port_id \<noteq> None then Some flow_tracker_new else None),
            fe_last_activation = None\<rparr> (drop_service_mapping ip et))"

definition remote_endpoint :: "ipv4 \<Rightarrow> worker_id \<Rightarrow> ('w, 'sm) fabric_endpoint" where
  "remote_endpoint ip worker_id =
     \<lparr>fe_ip = ip, fe_state = EpReady, fe_buffer = [], fe_buffer_start = None, fe_backend = BkRemoteSegment worker_id,
      fe_flow_tracker = None, fe_last_activation = None\<rparr>"

definition was_buffering :: "ipv4 \<Rightarrow> ('w, 'sm) endpoint_table \<Rightarrow> bool" where
  "was_buffering ip et =
     (case map_of (et_by_ip et) ip of Some ep \<Rightarrow> fe_state ep = EpBuffering \<and> fe_buffer ep \<noteq> [] | None \<Rightarrow> False)"

definition apply_remote_pod ::
  "ipv4 \<Rightarrow> worker_id \<Rightarrow> ('w, 'sm) endpoint_table \<Rightarrow> ('w, 'sm) endpoint_table \<times> endpoint_sync_effect list" where
  "apply_remote_pod ip worker_id et =
     (ep_put ip (remote_endpoint ip worker_id) et, if was_buffering ip et then [FlushPodBuffer ip] else [])"

definition apply_remote_peer ::
  "ipv4 \<Rightarrow> worker_id \<Rightarrow> ('w, 'sm) endpoint_table \<Rightarrow> ('w, 'sm) endpoint_table \<times> endpoint_sync_effect list" where
  "apply_remote_peer ip worker_id et =
     (ep_put ip (remote_endpoint ip worker_id) (drop_service_mapping ip et),
      if was_buffering ip et then [FlushPodBuffer ip] else [])"

definition apply_unplaced :: "ipv4 \<Rightarrow> ('w, 'sm) endpoint_table \<Rightarrow> ('w, 'sm) endpoint_table" where
  "apply_unplaced ip et =
     (if map_of (et_by_ip et) ip \<noteq> None then et
      else ep_put ip
        \<lparr>fe_ip = ip, fe_state = EpBuffering, fe_buffer = [], fe_buffer_start = None,
         fe_backend = BkUnplacedPod \<lparr>bp_buffer_frames = 64, bp_timeout_ms = 30000\<rparr>,
         fe_flow_tracker = None, fe_last_activation = None\<rparr> et)"

definition apply_local_peer ::
  "ipv4 \<Rightarrow> port_id option \<Rightarrow> ('w, 'sm) endpoint_table \<Rightarrow> ('w, 'sm) endpoint_table \<times> endpoint_sync_effect list" where
  "apply_local_peer ip adapter_port_id et =
     (case adapter_port_id of
        None \<Rightarrow> (et, [])
      | Some port_id \<Rightarrow>
          let old_frames = (case map_of (et_by_ip et) ip of Some ep \<Rightarrow> fe_buffer ep | None \<Rightarrow> [])
          in (ep_put ip
                \<lparr>fe_ip = ip, fe_state = EpReady, fe_buffer = [], fe_buffer_start = None,
                 fe_backend = BkLocalAdapter port_id, fe_flow_tracker = None, fe_last_activation = None\<rparr>
                (drop_service_mapping ip et),
              if old_frames \<noteq> [] then [FlushAdapterBuffer ip port_id old_frames] else []))"

definition service_backend_state :: "endpoint_pod_backend option \<Rightarrow> fabric_endpoint_state \<times> ipv4 option" where
  "service_backend_state backend =
     (case backend of
        None \<Rightarrow> (EpBuffering, None)
      | Some be \<Rightarrow> (if \<not> epb_ready be then EpPending else EpReady, Some (epb_pod_ip be)))"

definition can_reuse_processor :: "service_id \<Rightarrow> service_policy \<Rightarrow> ('w, 'sm) fabric_endpoint option \<Rightarrow> bool" where
  "can_reuse_processor service_id policy existing =
     (case existing of
        Some ep \<Rightarrow>
          (case fe_backend ep of
             BkService existing_id existing_policy _ _ \<Rightarrow> existing_id = service_id \<and> sp_ports existing_policy = sp_ports policy
           | _ \<Rightarrow> False)
      | None \<Rightarrow> False)"

text \<open>Update of a service endpoint in place (lines 360--411 of \<open>config.rs\<close>).\<close>

definition update_service ::
  "('w, 'sm) host \<Rightarrow> ipv4 \<Rightarrow> service_id \<Rightarrow> service_policy \<Rightarrow> fabric_endpoint_state \<Rightarrow> ipv4 option \<Rightarrow>
   ('w, 'sm) fabric_endpoint \<Rightarrow> ('w, 'sm) fabric_endpoint \<times> endpoint_sync_effect list" where
  "update_service host ip service_id policy new_state new_backend_ip ep =
     (case fe_backend ep of
        BkService existing_id _ old_backend_ip proc \<Rightarrow>
          let old_state = fe_state ep;
              should_clear = (case (old_backend_ip, new_backend_ip) of
                (_, None) \<Rightarrow> True | (Some old, Some new) \<Rightarrow> old \<noteq> new | _ \<Rightarrow> False);
              ep = ep\<lparr>fe_state := new_state,
                fe_backend := BkService existing_id policy new_backend_ip
                  (on_backend_update host (new_backend_ip \<noteq> None) new_backend_ip proc)\<rparr>;
              ep = (if should_clear then drain_buffer ep else ep);
              status = (if new_backend_ip = None \<and> (case fe_flow_tracker ep of Some ft \<Rightarrow> has_active_flows ft | None \<Rightarrow> False)
                then [SyncFlowStatusChange \<lparr>fsc_ip = ip, fsc_service_id = Some service_id, fsc_active = False\<rparr>] else []);
              ep = (if new_backend_ip = None then ep\<lparr>fe_last_activation := None, fe_flow_tracker := None\<rparr> else ep)
          in (ep, status @ (if new_state = EpReady \<and> old_state \<noteq> EpReady then [ServiceReady service_id] else []))
      | _ \<Rightarrow> (ep, []))"

type_synonym ('w, 'sm) make_processor = "service_id \<Rightarrow> service_policy \<Rightarrow> ipv4 \<Rightarrow> ('w, 'sm) service_processor"

definition create_service ::
  "('w, 'sm) make_processor \<Rightarrow> ipv4 \<Rightarrow> service_id \<Rightarrow> service_policy \<Rightarrow> fabric_endpoint_state \<Rightarrow> ipv4 option \<Rightarrow>
   ('w, 'sm) endpoint_table \<Rightarrow> ('w, 'sm) endpoint_table \<times> endpoint_sync_effect list" where
  "create_service make_processor ip service_id policy new_state new_backend_ip et =
     (let proc = make_processor service_id policy ip;
          et = (case map_of (et_by_ip et) ip of
                  Some ep \<Rightarrow> if backend_service_id (fe_backend ep) = Some service_id then et else drop_service_mapping ip et
                | None \<Rightarrow> et);
          et = ep_put ip
            \<lparr>fe_ip = ip, fe_state = new_state, fe_buffer = [], fe_buffer_start = None,
             fe_backend = BkService service_id policy new_backend_ip proc,
             fe_flow_tracker = (if is_passthrough proc then Some flow_tracker_new else None),
             fe_last_activation = None\<rparr> et;
          et = et\<lparr>et_service_id_to_ip := AList.update service_id ip (et_service_id_to_ip et)\<rparr>
      in (et, if new_state = EpReady then [ServiceReady service_id] else []))"

definition apply_service ::
  "('w, 'sm) host \<Rightarrow> ('w, 'sm) make_processor \<Rightarrow> ipv4 \<Rightarrow> service_id \<Rightarrow> service_policy \<Rightarrow> endpoint_pod_backend option \<Rightarrow>
   ('w, 'sm) endpoint_table \<Rightarrow> ('w, 'sm) endpoint_table \<times> endpoint_sync_effect list" where
  "apply_service host make_processor ip service_id policy backend et =
     (let (new_state, new_backend_ip) = service_backend_state backend
      in case map_of (et_by_ip et) ip of
           Some ep \<Rightarrow>
             if can_reuse_processor service_id policy (Some ep)
             then let (ep, effects) = update_service host ip service_id policy new_state new_backend_ip ep
                  in (ep_put ip ep et, effects)
             else create_service make_processor ip service_id policy new_state new_backend_ip et
         | None \<Rightarrow> create_service make_processor ip service_id policy new_state new_backend_ip et)"

definition apply_single_spec ::
  "('w, 'sm) host \<Rightarrow> ('w, 'sm) make_processor \<Rightarrow> worker_id \<Rightarrow> port_id option \<Rightarrow> endpoint_spec \<Rightarrow>
   ('w, 'sm) endpoint_table \<Rightarrow> ('w, 'sm) endpoint_table \<times> endpoint_sync_effect list" where
  "apply_single_spec host make_processor my_worker_id adapter_port_id spec et =
     (let ip = es_ip spec
      in case es_kind spec of
           PkPod (Some p) \<Rightarrow>
             if epl_worker_id p = my_worker_id then (apply_local_pod ip et, [])
             else apply_remote_pod ip (epl_worker_id p) et
         | PkPod None \<Rightarrow> (apply_unplaced ip et, [])
         | PkWireGuardPeer (Some p) \<Rightarrow>
             if epl_worker_id p = my_worker_id then apply_local_peer ip adapter_port_id et
             else apply_remote_peer ip (epl_worker_id p) et
         | PkWireGuardPeer None \<Rightarrow> (apply_unplaced ip et, [])
         | PkService service_id policy backend \<Rightarrow> apply_service host make_processor ip service_id policy backend et)"

fun apply_specs ::
  "('w, 'sm) host \<Rightarrow> ('w, 'sm) make_processor \<Rightarrow> worker_id \<Rightarrow> port_id option \<Rightarrow> endpoint_spec list \<Rightarrow>
   ('w, 'sm) endpoint_table \<Rightarrow> ('w, 'sm) endpoint_table \<times> endpoint_sync_effect list" where
  "apply_specs host mk me adapter [] et = (et, [])"
| "apply_specs host mk me adapter (spec # specs) et =
     (let (et, effects) = apply_single_spec host mk me adapter spec et;
          (et, more) = apply_specs host mk me adapter specs et
      in (et, effects @ more))"

definition apply_endpoint_sync ::
  "('w, 'sm) host \<Rightarrow> ('w, 'sm) make_processor \<Rightarrow> worker_id \<Rightarrow> port_id option \<Rightarrow> endpoint_spec list \<Rightarrow>
   ('w, 'sm) endpoint_table \<Rightarrow> ('w, 'sm) endpoint_table \<times> endpoint_sync_effect list" where
  "apply_endpoint_sync host mk me adapter specs et =
     (let new_ips = map es_ip specs;
          to_remove = filter (\<lambda>ip. ip \<notin> set new_ips) (map fst (et_by_ip et))
      in apply_specs host mk me adapter specs (fold (\<lambda>ip et. remove_ip et ip) to_remove et))"

definition apply_endpoint_update ::
  "('w, 'sm) host \<Rightarrow> ('w, 'sm) make_processor \<Rightarrow> worker_id \<Rightarrow> port_id option \<Rightarrow> endpoint_spec list \<Rightarrow> ipv4 list \<Rightarrow>
   ('w, 'sm) endpoint_table \<Rightarrow> ('w, 'sm) endpoint_table \<times> endpoint_sync_effect list" where
  "apply_endpoint_update host mk me adapter upserted removed_ips et =
     apply_specs host mk me adapter upserted (fold (\<lambda>ip et. remove_ip et ip) removed_ips et)"

end
