(* ===== verification/Forwarding.thy ===== *)
theory Forwarding
  imports Endpoint_Table
begin

text \<open>
  The frame path of the worker (\<open>fabric/forwarding.rs\<close>, \<open>fabric/mod.rs\<close>,
  \<open>worker/namespace.rs\<close>): a frame from a port or from the gateway is translated
  back if it belongs to a translated connection, looked up in the endpoint table, and
  sent on, buffered, given to an activator or dropped.

  Sending is an effect: the list of effects of an operation names the frames handed to
  ports and to the gateway, the events offered to the event channel and the timers
  started, in order.  A failing send is only logged by the code, or ends the flush it
  belongs to; what the device does with a frame is outside the model.  One operation
  reads the clock once (\<open>now\<close>), and a task it spawns runs at once.
\<close>

section \<open>State\<close>

datatype fabric_event =
    EndpointActivation ipv4 "service_id option"
  | EndpointDemand ipv4 "service_id option" bool

datatype fabric_effect =
    FxSend port_id "u8 list"
  | FxGateway "u8 list"
  | FxEvent fabric_event
  | FxPollTimer duration ipv4
  | FxLog service_id log_action

datatype frame_source = SourcePort port_id | SourceGateway | SourceInternal

record ('w, 'sm) fabric =
  fb_ports :: "port_id list"
  fb_endpoint_table :: "('w, 'sm) endpoint_table"
  fb_conntrack :: conntrack_table
  fb_has_gateway :: bool
  fb_has_event_channel :: bool
  fb_subnet :: ipv4
  fb_prefix_len :: u8
  fb_gateway_ip :: ipv4
  fb_tunnel_ports :: "(worker_id \<times> port_id) list"
  fb_next_port_id :: port_id

definition prefix_mask :: "u8 \<Rightarrow> ipv4" where
  "prefix_mask prefix_len = (if prefix_len \<ge> 32 then -1 else push_bit (unat (32 - prefix_len)) (-1))"

definition fabric_new :: "ipv4 \<Rightarrow> u8 \<Rightarrow> ('w, 'sm) fabric" where
  "fabric_new gateway_ip prefix_len =
     \<lparr>fb_ports = [], fb_endpoint_table = endpoint_table_new, fb_conntrack = conntrack_new, fb_has_gateway = False,
      fb_has_event_channel = False, fb_subnet = gateway_ip AND prefix_mask prefix_len, fb_prefix_len = prefix_len,
      fb_gateway_ip = gateway_ip, fb_tunnel_ports = [], fb_next_port_id = 0\<rparr>"

definition is_in_subnet :: "ipv4 \<Rightarrow> ('w, 'sm) fabric \<Rightarrow> bool" where
  "is_in_subnet ip fb \<longleftrightarrow> ip AND prefix_mask (fb_prefix_len fb) = fb_subnet fb AND prefix_mask (fb_prefix_len fb)"

definition resolve_ip :: "ipv4 \<Rightarrow> ('w, 'sm) fabric \<Rightarrow> port_id option" where
  "resolve_ip ip fb =
     (case get_port_id ip (fb_endpoint_table fb) of
        Some port_id \<Rightarrow> if port_id \<in> set (fb_ports fb) then Some port_id else None
      | None \<Rightarrow> None)"

definition emit_event :: "fabric_event \<Rightarrow> ('w, 'sm) fabric \<Rightarrow> fabric_effect list" where
  "emit_event ev fb = (if fb_has_event_channel fb then [FxEvent ev] else [])"

definition emit_activation :: "bool \<Rightarrow> ipv4 \<Rightarrow> service_id option \<Rightarrow> ('w, 'sm) fabric \<Rightarrow> fabric_effect list" where
  "emit_activation should_activate dst_ip service_id fb =
     (if should_activate then emit_event (EndpointActivation dst_ip service_id) fb else [])"

definition demand_event :: "flow_status_change \<Rightarrow> fabric_event" where
  "demand_event change = EndpointDemand (fsc_ip change) (fsc_service_id change) (fsc_active change)"

definition send_to_port :: "port_id \<Rightarrow> u8 list \<Rightarrow> ('w, 'sm) fabric \<Rightarrow> fabric_effect list" where
  "send_to_port port_id pkt fb = (if port_id \<in> set (fb_ports fb) then [FxSend port_id pkt] else [])"

section \<open>Connection tracking\<close>

definition insert_conntrack_entry ::
  "instant \<Rightarrow> u8 list \<Rightarrow> ipv4 \<Rightarrow> ipv4 \<Rightarrow> ('w, 'sm) fabric \<Rightarrow> ('w, 'sm) fabric" where
  "insert_conntrack_entry now rewritten service_ip pod_ip fb =
     (case fabric_packet_new rewritten of
        None \<Rightarrow> fb
      | Some fp \<Rightarrow>
          let ip_pkt = ip_packet fp;
              (src_port, dst_port) = unwrap_or (ip_packet_transport_ports ip_pkt) (0, 0);
              key = \<lparr>ck_src_ip = pod_ip, ck_dst_ip = ipv4_src fp, ck_protocol = unwrap_or (ip_packet_protocol ip_pkt) 0,
                     ck_src_port = dst_port, ck_dst_port = src_port\<rparr>
          in fb\<lparr>fb_conntrack := conntrack_insert key
                  \<lparr>ce_service_ip = service_ip, ce_backend_ip = pod_ip, ce_last_seen = now\<rparr> (fb_conntrack fb)\<rparr>)"

text \<open>The first layer of \<open>dispatch_frame\<close>: translate the source of a reply.\<close>

definition reverse_dnat :: "instant \<Rightarrow> u8 list \<Rightarrow> ('w, 'sm) fabric \<Rightarrow> ('w, 'sm) fabric \<times> u8 list" where
  "reverse_dnat now packet fb =
     (case fabric_packet_new packet of
        None \<Rightarrow> (fb, packet)
      | Some fp \<Rightarrow>
          (case ip_packet_protocol (ip_packet fp) of
             None \<Rightarrow> (fb, packet)
           | Some protocol \<Rightarrow>
               let (s_port, d_port) = unwrap_or (ip_packet_transport_ports (ip_packet fp)) (0, 0);
                   key = \<lparr>ck_src_ip = ipv4_src fp, ck_dst_ip = ipv4_dst fp, ck_protocol = protocol,
                          ck_src_port = s_port, ck_dst_port = d_port\<rparr>;
                   (ct, found) = conntrack_lookup now key (fb_conntrack fb);
                   fb = fb\<lparr>fb_conntrack := ct\<rparr>
               in case found of
                    Some entry \<Rightarrow> (fb, rewrite_ipv4_src packet (ipv4_src fp) (ce_service_ip entry))
                  | None \<Rightarrow> (fb, packet)))"

section \<open>Dispatch\<close>

definition send_l4_frame :: "('w, 'sm) fabric \<Rightarrow> u8 list \<Rightarrow> fabric_effect list" where
  "send_l4_frame fb pkt =
     (if length pkt < 20 then []
      else case ip_packet_dst pkt of
             None \<Rightarrow> []
           | Some dst_ip \<Rightarrow>
               (case resolve_ip dst_ip fb of
                  Some port_id \<Rightarrow> [FxSend port_id (with_fabric_header 0 0 pkt)]
                | None \<Rightarrow> []))"

definition send_l4_frames :: "u8 list list \<Rightarrow> ('w, 'sm) fabric \<Rightarrow> fabric_effect list" where
  "send_l4_frames frames fb = concat (map (send_l4_frame fb) frames)"

text \<open>
  Replaying a packet dispatches it again.  The argument \<open>redispatch\<close> is the dispatch
  function; its value \<open>None\<close> is a dispatch that does not return.
\<close>

type_synonym ('w, 'sm) fabric_run = "('w, 'sm) fabric \<Rightarrow> (('w, 'sm) fabric \<times> fabric_effect list) option"

definition dispatch_action ::
  "(u8 list \<Rightarrow> ('w, 'sm) fabric_run) \<Rightarrow> instant \<Rightarrow> service_id \<Rightarrow> ipv4 \<Rightarrow> action \<Rightarrow> ('w, 'sm) fabric_run" where
  "dispatch_action redispatch now service_id dst_ip action fb =
     (case action of
        ReplayPacket raw_frame \<Rightarrow>
          (case get_service_nat_info service_id (fb_endpoint_table fb) of
             Some (service_ip, backend_ip) \<Rightarrow>
               let rewritten = rewrite_ipv4_dst raw_frame service_ip backend_ip
               in redispatch rewritten (insert_conntrack_entry now rewritten service_ip backend_ip fb)
           | None \<Rightarrow> Some (fb, []))
      | SetBackendNeed need \<Rightarrow>
          Some (fb, emit_event (case need of
              NeedTraffic \<Rightarrow> EndpointActivation dst_ip (Some service_id)
            | NeedActive \<Rightarrow> EndpointDemand dst_ip (Some service_id) True
            | NeedNone \<Rightarrow> EndpointDemand dst_ip (Some service_id) False) fb)
      | Log log_action \<Rightarrow> Some (fb, [FxLog service_id log_action])
      | _ \<Rightarrow> Some (fb, []))"

fun run_actions ::
  "(u8 list \<Rightarrow> ('w, 'sm) fabric_run) \<Rightarrow> instant \<Rightarrow> service_id \<Rightarrow> ipv4 \<Rightarrow> action list \<Rightarrow> ('w, 'sm) fabric_run" where
  "run_actions redispatch now service_id dst_ip [] fb = Some (fb, [])"
| "run_actions redispatch now service_id dst_ip (a # as) fb =
     (case dispatch_action redispatch now service_id dst_ip a fb of
        None \<Rightarrow> None
      | Some (fb, fx) \<Rightarrow>
          (case run_actions redispatch now service_id dst_ip as fb of
             None \<Rightarrow> None
           | Some (fb, fx') \<Rightarrow> Some (fb, fx @ fx')))"

definition prepend_effects ::
  "fabric_effect list \<Rightarrow> (('w, 'sm) fabric \<times> fabric_effect list) option \<Rightarrow> (('w, 'sm) fabric \<times> fabric_effect list) option" where
  "prepend_effects fx r = map_option (\<lambda>(fb, fx'). (fb, fx @ fx')) r"

definition append_effects ::
  "fabric_effect list \<Rightarrow> (('w, 'sm) fabric \<times> fabric_effect list) option \<Rightarrow> (('w, 'sm) fabric \<times> fabric_effect list) option" where
  "append_effects fx r = map_option (\<lambda>(fb, fx'). (fb, fx' @ fx)) r"

definition route_unknown :: "frame_source \<Rightarrow> ipv4 \<Rightarrow> u8 list \<Rightarrow> ('w, 'sm) fabric \<Rightarrow> fabric_effect list" where
  "route_unknown source dst_ip pkt fb =
     (if dst_ip = fb_gateway_ip fb \<or> \<not> is_in_subnet dst_ip fb
      then case source of
             SourceGateway \<Rightarrow> []
           | SourceInternal \<Rightarrow> []
           | SourcePort _ \<Rightarrow> if fb_has_gateway fb then [FxGateway pkt] else []
      else [])"

text \<open>
  The second layer, the loop over \<open>0..2\<close>: at most \<open>n\<close> passes.  A pass ends the dispatch
  except after a destination translation.
\<close>

fun dispatch_passes ::
  "nat \<Rightarrow> (u8 list \<Rightarrow> ('w, 'sm) fabric_run) \<Rightarrow> ('w, 'sm) host \<Rightarrow> instant \<Rightarrow> frame_source \<Rightarrow> bool \<Rightarrow> u8 list \<Rightarrow>
   ('w, 'sm) fabric_run" where
  "dispatch_passes 0 redispatch host now source skip pkt fb = Some (fb, [])"
| "dispatch_passes (Suc n) redispatch host now source skip pkt fb =
     (case fabric_packet_new pkt of
        None \<Rightarrow> Some (fb, [])
      | Some fp \<Rightarrow>
          let dst_ip = ipv4_dst fp;
              (et, ep_action, should_activate, flow_change) =
                lookup_and_buffer host now dst_ip pkt skip (fb_endpoint_table fb);
              fb = fb\<lparr>fb_endpoint_table := et\<rparr>;
              demand = (case flow_change of Some change \<Rightarrow> emit_event (demand_event change) fb | None \<Rightarrow> [])
          in prepend_effects demand
            (case ep_action of
               ServiceForward pod_ip service_ip \<Rightarrow>
                 let rewritten = rewrite_ipv4_dst pkt service_ip pod_ip;
                     fb = insert_conntrack_entry now rewritten service_ip pod_ip fb
                 in prepend_effects (emit_activation should_activate dst_ip None fb)
                      (dispatch_passes n redispatch host now source True rewritten fb)
             | BufferedFrame service_id \<Rightarrow> Some (fb, emit_activation should_activate dst_ip service_id fb)
             | DropFrame service_id \<Rightarrow> Some (fb, emit_activation should_activate dst_ip service_id fb)
             | ActivatorActions actions service_id \<Rightarrow>
                 append_effects (emit_activation should_activate dst_ip (Some service_id) fb)
                   (run_actions redispatch now service_id dst_ip actions fb)
             | L4Result actions frames service_id poll_delay \<Rightarrow>
                 prepend_effects (send_l4_frames frames fb)
                   (append_effects
                     ((case poll_delay of Some delay \<Rightarrow> [FxPollTimer delay dst_ip] | None \<Rightarrow> []) @
                      emit_activation should_activate dst_ip (Some service_id) fb)
                     (run_actions redispatch now service_id dst_ip actions fb))
             | ToRemoteWorker worker_id \<Rightarrow>
                 (case map_of (fb_tunnel_ports fb) worker_id of
                    Some port_id \<Rightarrow> Some (fb, send_to_port port_id pkt fb)
                  | None \<Rightarrow> Some (fb, []))
             | ToLocalAdapter port_id \<Rightarrow> Some (fb, send_to_port port_id pkt fb)
             | ToLocalPod port_id \<Rightarrow> Some (fb, send_to_port port_id pkt fb)
             | NotFound \<Rightarrow> Some (fb, route_unknown source dst_ip pkt fb)))"

text \<open>\<open>fuel\<close> bounds the depth of replays: \<open>None\<close> is a dispatch that needs a deeper one.\<close>

primrec dispatch_frame ::
  "nat \<Rightarrow> ('w, 'sm) host \<Rightarrow> instant \<Rightarrow> frame_source \<Rightarrow> u8 list \<Rightarrow> ('w, 'sm) fabric_run" where
  "dispatch_frame 0 host now source packet fb = None"
| "dispatch_frame (Suc fuel) host now source packet fb =
     (let (fb, pkt) = reverse_dnat now packet fb
      in dispatch_passes 2 (\<lambda>p f. dispatch_frame fuel host now SourceInternal p f) host now source False pkt fb)"

section \<open>Tasks of the fabric\<close>

definition port_receive :: "nat \<Rightarrow> ('w, 'sm) host \<Rightarrow> instant \<Rightarrow> port_id \<Rightarrow> u8 list \<Rightarrow> ('w, 'sm) fabric_run" where
  "port_receive fuel host now port_id frame fb =
     (if length frame < FABRIC_HDR_SZ then Some (fb, [])
      else dispatch_frame fuel host now (SourcePort port_id) frame fb)"

definition gateway_receive :: "nat \<Rightarrow> ('w, 'sm) host \<Rightarrow> instant \<Rightarrow> u8 list \<Rightarrow> ('w, 'sm) fabric_run" where
  "gateway_receive fuel host now frame fb =
     (if length frame < FABRIC_HDR_SZ then Some (fb, [])
      else dispatch_frame fuel host now SourceGateway frame fb)"

definition port_guard_drop :: "port_id \<Rightarrow> ('w, 'sm) fabric \<Rightarrow> ('w, 'sm) fabric" where
  "port_guard_drop port_id fb =
     fb\<lparr>fb_endpoint_table := detach_port port_id (fb_endpoint_table fb), fb_ports := removeAll port_id (fb_ports fb)\<rparr>"

definition fabric_dispatch_actions ::
  "nat \<Rightarrow> ('w, 'sm) host \<Rightarrow> instant \<Rightarrow> action list \<Rightarrow> service_id \<Rightarrow> ('w, 'sm) fabric_run" where
  "fabric_dispatch_actions fuel host now actions service_id fb =
     run_actions (\<lambda>p f. dispatch_frame fuel host now SourceInternal p f) now service_id
       (unwrap_or (get_service_ip service_id (fb_endpoint_table fb)) 0) actions fb"

definition poll_timer_fired :: "nat \<Rightarrow> ('w, 'sm) host \<Rightarrow> instant \<Rightarrow> ipv4 \<Rightarrow> ('w, 'sm) fabric_run" where
  "poll_timer_fired fuel host now ip fb =
     (let (et, result) = handle_timeout_for_ip host ip (fb_endpoint_table fb);
          fb = fb\<lparr>fb_endpoint_table := et\<rparr>
      in case result of
           Some (L4Result actions frames service_id poll_delay) \<Rightarrow>
             prepend_effects (send_l4_frames frames fb)
               (append_effects (case poll_delay of Some delay \<Rightarrow> [FxPollTimer delay ip] | None \<Rightarrow> [])
                 (run_actions (\<lambda>p f. dispatch_frame fuel host now SourceInternal p f) now service_id ip actions fb))
         | _ \<Rightarrow> Some (fb, []))"

definition track_flushed_frame :: "instant \<Rightarrow> ipv4 \<Rightarrow> ipv4 \<Rightarrow> u8 list \<Rightarrow> conntrack_table \<Rightarrow> conntrack_table" where
  "track_flushed_frame now backend_ip service_ip frame ct =
     (case fabric_packet_new frame of
        None \<Rightarrow> ct
      | Some fp \<Rightarrow>
          (case ip_packet_src (ip_packet fp) of
             None \<Rightarrow> ct
           | Some src_ip \<Rightarrow>
               let (src_port, dst_port) = unwrap_or (ip_packet_transport_ports (ip_packet fp)) (0, 0);
                   key = \<lparr>ck_src_ip = backend_ip, ck_dst_ip = src_ip,
                          ck_protocol = unwrap_or (ip_packet_protocol (ip_packet fp)) 0,
                          ck_src_port = dst_port, ck_dst_port = src_port\<rparr>
               in conntrack_insert key
                    \<lparr>ce_service_ip = service_ip, ce_backend_ip = backend_ip, ce_last_seen = now\<rparr> ct))"

definition flush_service_frames ::
  "instant \<Rightarrow> u8 list list \<Rightarrow> ipv4 \<Rightarrow> ipv4 \<Rightarrow> ('w, 'sm) fabric \<Rightarrow> ('w, 'sm) fabric \<times> fabric_effect list" where
  "flush_service_frames now frames backend_ip service_ip fb =
     (case resolve_ip backend_ip fb of
        None \<Rightarrow> (fb, [])
      | Some dst_port \<Rightarrow>
          (fb\<lparr>fb_conntrack := fold (track_flushed_frame now backend_ip service_ip) frames (fb_conntrack fb)\<rparr>,
           map (\<lambda>frame. FxSend dst_port (rewrite_ipv4_dst frame service_ip backend_ip)) frames))"

fun flush_services ::
  "instant \<Rightarrow> service_flush_data list \<Rightarrow> ('w, 'sm) fabric \<Rightarrow> ('w, 'sm) fabric \<times> fabric_effect list" where
  "flush_services now [] fb = (fb, [])"
| "flush_services now (d # ds) fb =
     (let (fb, fx) = flush_service_frames now (sfd_frames d) (sfd_backend_ip d) (sfd_service_ip d) fb;
          (fb, fx') = flush_services now ds fb
      in (fb, fx @ fx'))"

definition add_port_inner ::
  "instant \<Rightarrow> ipv4 option \<Rightarrow> ('w, 'sm) fabric \<Rightarrow> port_id \<times> ('w, 'sm) fabric \<times> fabric_effect list" where
  "add_port_inner now pod_ip fb =
     (let port_id = fb_next_port_id fb;
          fb = fb\<lparr>fb_next_port_id := port_id + 1, fb_ports := port_id # fb_ports fb\<rparr>
      in case pod_ip of
           None \<Rightarrow> (port_id, fb, [])
         | Some ip \<Rightarrow>
             let (et, attached) = attach_port ip port_id (fb_endpoint_table fb);
                 pod_buffered = (case attached of Inr frames \<Rightarrow> frames | Inl _ \<Rightarrow> []);
                 (et, service_flushes) = flush_by_backend_ip ip et;
                 (fb, fx) = flush_services now service_flushes (fb\<lparr>fb_endpoint_table := et\<rparr>)
             in (port_id, fb, fx @ map (FxSend port_id) pod_buffered))"

definition add_tunnel_port :: "instant \<Rightarrow> worker_id \<Rightarrow> ('w, 'sm) fabric \<Rightarrow> port_id \<times> ('w, 'sm) fabric" where
  "add_tunnel_port now worker_id fb =
     (let (port_id, fb, _) = add_port_inner now None fb
      in (port_id, fb\<lparr>fb_tunnel_ports := AList.update worker_id port_id (fb_tunnel_ports fb)\<rparr>))"

definition remove_tunnel_port :: "worker_id \<Rightarrow> ('w, 'sm) fabric \<Rightarrow> ('w, 'sm) fabric" where
  "remove_tunnel_port worker_id fb = fb\<lparr>fb_tunnel_ports := AList.delete worker_id (fb_tunnel_ports fb)\<rparr>"

definition set_gateway :: "('w, 'sm) fabric \<Rightarrow> ('w, 'sm) fabric" where
  "set_gateway fb = fb\<lparr>fb_has_gateway := True\<rparr>"

definition set_event_channel :: "('w, 'sm) fabric \<Rightarrow> ('w, 'sm) fabric" where
  "set_event_channel fb = fb\<lparr>fb_has_event_channel := True\<rparr>"

text \<open>One tick of the collection task started by \<open>set_gateway\<close>.\<close>

definition gc_tick :: "instant \<Rightarrow> ('w, 'sm) fabric \<Rightarrow> ('w, 'sm) fabric \<times> fabric_effect list" where
  "gc_tick now fb =
     (let (et, changes) = gc_flow_trackers now (fb_endpoint_table fb);
          fb = fb\<lparr>fb_conntrack := conntrack_gc now (from_secs 300) (fb_conntrack fb), fb_endpoint_table := et\<rparr>
      in (fb, concat (map (\<lambda>c. emit_event (demand_event c) fb) changes)))"

section \<open>Endpoint messages from the orchestrator\<close>

text \<open>
  \<open>tcp\<close> is a fresh instance of the TCP activator, \<open>None\<close> if there is no runtime, no such
  component or its instantiation fails; \<open>new_stream_manager\<close> creates the TCP stack.
\<close>

definition port_mode_of :: "'w activator_instance option \<Rightarrow> port_config \<Rightarrow> 'w port_mode" where
  "port_mode_of tcp cfg =
     (case pc_activator cfg of
        None \<Rightarrow> PmPassthrough
      | Some ActHttp2 \<Rightarrow> PmL4
      | Some (ActTcp _) \<Rightarrow> (case tcp of Some a \<Rightarrow> PmL3 a | None \<Rightarrow> PmPassthrough))"

definition build_processor ::
  "'w activator_instance option \<Rightarrow> (ipv4 \<Rightarrow> u16 list \<Rightarrow> 'sm) \<Rightarrow> service_policy \<Rightarrow> ipv4 \<Rightarrow> ('w, 'sm) service_processor" where
  "build_processor tcp new_stream_manager policy ip =
     (if sp_ports policy = [] then passthrough_processor
      else let l4_ports = map pc_port (filter (\<lambda>cfg. pc_activator cfg = Some ActHttp2) (sp_ports policy))
           in \<lparr>spr_port_routes = fold (\<lambda>cfg. AList.update (pc_port cfg) (port_mode_of tcp cfg)) (sp_ports policy) [],
               spr_default_mode = (if list_ex (\<lambda>cfg. pc_activator cfg \<noteq> None) (sp_ports policy) then DefaultDrop else DefaultPassthrough),
               spr_stream_manager = (if l4_ports \<noteq> [] then Some (new_stream_manager ip l4_ports) else None),
               spr_flow_tracker = packet_flow_tracker_new\<rparr>)"

definition handle_service_ready ::
  "nat \<Rightarrow> ('w, 'sm) host \<Rightarrow> instant \<Rightarrow> service_id \<Rightarrow> ('w, 'sm) fabric_run" where
  "handle_service_ready fuel host now service_id fb =
     (let (et, flush_data) = mark_service_ready host service_id (fb_endpoint_table fb);
          fb = fb\<lparr>fb_endpoint_table := et\<rparr>
      in case flush_data of
           None \<Rightarrow> Some (fb, [])
         | Some (MarkPassthrough frames backend_ip service_ip actions) \<Rightarrow>
             let (fb, fx) = (if frames \<noteq> [] then flush_service_frames now frames backend_ip service_ip fb else (fb, []))
             in prepend_effects fx (fabric_dispatch_actions fuel host now actions service_id fb)
         | Some (MarkL4 (L4Result actions frames _ _)) \<Rightarrow>
             prepend_effects (send_l4_frames frames fb) (fabric_dispatch_actions fuel host now actions service_id fb)
         | Some (MarkL4 _) \<Rightarrow> Some (fb, []))"

text \<open>The result of handling an effect: the new state, the effects, and the demand events to report.\<close>

definition handle_endpoint_effect ::
  "nat \<Rightarrow> ('w, 'sm) host \<Rightarrow> instant \<Rightarrow> endpoint_sync_effect \<Rightarrow> ('w, 'sm) fabric \<Rightarrow>
   (('w, 'sm) fabric \<times> fabric_effect list \<times> flow_status_change list) option" where
  "handle_endpoint_effect fuel host now effect fb =
     (case effect of
        ServiceReady service_id \<Rightarrow>
          map_option (\<lambda>(fb, fx). (fb, fx, [])) (handle_service_ready fuel host now service_id fb)
      | FlushPodBuffer ip \<Rightarrow>
          let (et, buffered) = flush_pod_buffer ip (fb_endpoint_table fb);
              fb = fb\<lparr>fb_endpoint_table := et\<rparr>
          in Some (fb, (case resolve_ip ip fb of Some port_id \<Rightarrow> map (FxSend port_id) buffered | None \<Rightarrow> []), [])
      | SyncFlowStatusChange change \<Rightarrow> Some (fb, [], [change])
      | FlushAdapterBuffer ip port_id frames \<Rightarrow>
          Some (fb, if port_id \<in> set (fb_ports fb) then map (FxSend port_id) frames else [], []))"

fun handle_endpoint_effects ::
  "nat \<Rightarrow> ('w, 'sm) host \<Rightarrow> instant \<Rightarrow> endpoint_sync_effect list \<Rightarrow> ('w, 'sm) fabric \<Rightarrow>
   (('w, 'sm) fabric \<times> fabric_effect list \<times> flow_status_change list) option" where
  "handle_endpoint_effects fuel host now [] fb = Some (fb, [], [])"
| "handle_endpoint_effects fuel host now (e # es) fb =
     (case handle_endpoint_effect fuel host now e fb of
        None \<Rightarrow> None
      | Some (fb, fx, evs) \<Rightarrow>
          (case handle_endpoint_effects fuel host now es fb of
             None \<Rightarrow> None
           | Some (fb, fx', evs') \<Rightarrow> Some (fb, fx @ fx', evs @ evs')))"

definition endpoint_sync ::
  "nat \<Rightarrow> ('w, 'sm) host \<Rightarrow> instant \<Rightarrow> ('w, 'sm) make_processor \<Rightarrow> worker_id \<Rightarrow> port_id option \<Rightarrow> endpoint_spec list \<Rightarrow>
   ('w, 'sm) fabric \<Rightarrow> (('w, 'sm) fabric \<times> fabric_effect list \<times> flow_status_change list) option" where
  "endpoint_sync fuel host now mk me adapter specs fb =
     (let (et, effects) = apply_endpoint_sync host mk me adapter specs (fb_endpoint_table fb)
      in handle_endpoint_effects fuel host now effects (fb\<lparr>fb_endpoint_table := et\<rparr>))"

definition endpoint_update ::
  "nat \<Rightarrow> ('w, 'sm) host \<Rightarrow> instant \<Rightarrow> ('w, 'sm) make_processor \<Rightarrow> worker_id \<Rightarrow> port_id option \<Rightarrow> endpoint_spec list \<Rightarrow>
   ipv4 list \<Rightarrow> ('w, 'sm) fabric \<Rightarrow> (('w, 'sm) fabric \<times> fabric_effect list \<times> flow_status_change list) option" where
  "endpoint_update fuel host now mk me adapter upserted removed_ips fb =
     (let (et, effects) = apply_endpoint_update host mk me adapter upserted removed_ips (fb_endpoint_table fb)
      in handle_endpoint_effects fuel host now effects (fb\<lparr>fb_endpoint_table := et\<rparr>))"

end
