(* ===== verification/Fabric_Props.thy ===== *)
theory Fabric_Props
  imports Forwarding
begin

text \<open>Properties of the frame path.\<close>

section \<open>Rewritten frames\<close>

definition frame_min :: "u8 list \<Rightarrow> bool" where
  "frame_min f \<longleftrightarrow> 23 \<le> length f \<and> 20 \<le> ihl_of f"

lemma csum_offset_values: "csum_offset_of p = Some off \<Longrightarrow> off = 16 \<or> off = 6"
  by (auto simp: csum_offset_of_def split: if_splits)

lemma transport_csum_bytes:
  assumes "23 \<le> length f" "20 \<le> ihl_of f"
  shows "length (update_transport_csum_for_ip_change f FABRIC_HDR_SZ os ns) = length f"
    and "j < 3 + ihl_of f + 4 \<Longrightarrow> j < length f \<Longrightarrow> update_transport_csum_for_ip_change f FABRIC_HDR_SZ os ns ! j = f ! j"
  using assms
  by (auto simp: update_transport_csum_for_ip_change_def Let_def FABRIC_HDR_SZ_def ihl_of_def nth_copy_at
      dest!: csum_offset_values split: option.splits)

lemma ip_csum_bytes:
  assumes "23 \<le> length f"
  shows "length (update_ip_header_csum f FABRIC_HDR_SZ os ns) = length f"
    and "j \<noteq> 13 \<Longrightarrow> j \<noteq> 14 \<Longrightarrow> j < length f \<Longrightarrow> update_ip_header_csum f FABRIC_HDR_SZ os ns ! j = f ! j"
  using assms by (auto simp: update_ip_header_csum_def Let_def FABRIC_HDR_SZ_def nth_copy_at)

lemma rewrite_at_bytes:
  assumes m: "frame_min f" and off: "off = 12 \<or> off = 16"
  shows "length (rewrite_at off f old new) = length f"
    and "j \<noteq> 13 \<Longrightarrow> j \<noteq> 14 \<Longrightarrow> j < 3 + ihl_of f + 4 \<Longrightarrow> j < length f \<Longrightarrow>
      rewrite_at off f old new ! j = (if 3 + off \<le> j \<and> j < 7 + off then octets new ! (j - (3 + off)) else f ! j)"
proof -
  let ?g = "copy_at (FABRIC_HDR_SZ + off) (octets new) f"
  let ?h = "update_ip_header_csum ?g FABRIC_HDR_SZ (octets old) (octets new)"
  have g: "length ?g = length f" using m off by (auto simp: frame_min_def FABRIC_HDR_SZ_def)
  have h: "length ?h = length f" using ip_csum_bytes(1) [of ?g] g m by (simp add: frame_min_def)
  have "?h ! 3 = f ! 3" using ip_csum_bytes(2) [of ?g 3] g m off by (auto simp: frame_min_def FABRIC_HDR_SZ_def nth_copy_at)
  then have ihl: "ihl_of ?h = ihl_of f" by (simp add: ihl_of_def FABRIC_HDR_SZ_def)
  have l: "23 \<le> length ?h" "20 \<le> ihl_of ?h" using h ihl m by (simp_all add: frame_min_def)
  show "length (rewrite_at off f old new) = length f"
    using transport_csum_bytes(1) [OF l] h by (simp add: rewrite_at_def)
  assume j: "j \<noteq> 13" "j \<noteq> 14" "j < 3 + ihl_of f + 4" "j < length f"
  have "rewrite_at off f old new ! j = ?h ! j"
    using transport_csum_bytes(2) [OF l, of j] j h ihl by (simp add: rewrite_at_def)
  also have "\<dots> = ?g ! j" using ip_csum_bytes(2) [of ?g j] j g m by (simp add: frame_min_def)
  finally show "rewrite_at off f old new ! j = (if 3 + off \<le> j \<and> j < 7 + off then octets new ! (j - (3 + off)) else f ! j)"
    using j m off by (auto simp: nth_copy_at frame_min_def FABRIC_HDR_SZ_def)
qed

lemma rewrite_is_at:
  assumes "frame_min f"
  shows "rewrite_ipv4_dst f old new = rewrite_at 16 f old new" "rewrite_ipv4_src f old new = rewrite_at 12 f old new"
  using assms by (simp_all add: rewrite_ipv4_dst_def rewrite_ipv4_src_def rewrite_at_def frame_min_def FABRIC_HDR_SZ_def Let_def)

lemma octets_nth: "ipv4_new (octets ip ! 0) (octets ip ! Suc 0) (octets ip ! 2) (octets ip ! 3) = ip"
  by (simp add: octets_def ipv4_new_octets)

lemma rewrite_at_fields:
  assumes m: "frame_min f" and off: "off = 12 \<or> off = 16"
  shows "frame_min (rewrite_at off f old new)"
    and "ihl_of (rewrite_at off f old new) = ihl_of f"
    and "ip_protocol (rewrite_at off f old new) = ip_protocol f"
    and "ipv4_src (rewrite_at off f old new) = (if off = 12 then new else ipv4_src f)"
    and "ipv4_dst (rewrite_at off f old new) = (if off = 16 then new else ipv4_dst f)"
    and "transport_ports (rewrite_at off f old new) = transport_ports f"
proof -
  note b = rewrite_at_bytes [OF m off, where old = old and new = new]
  have len: "23 \<le> length f" "20 \<le> ihl_of f" using m by (simp_all add: frame_min_def)
  show ihl: "ihl_of (rewrite_at off f old new) = ihl_of f"
    using b(2) [of 3] len off by (auto simp: ihl_of_def FABRIC_HDR_SZ_def)
  show pr: "ip_protocol (rewrite_at off f old new) = ip_protocol f"
    using b(2) [of 12] len off by (auto simp: ip_protocol_def FABRIC_HDR_SZ_def)
  show "frame_min (rewrite_at off f old new)" using b(1) ihl m by (simp add: frame_min_def)
  show "ipv4_src (rewrite_at off f old new) = (if off = 12 then new else ipv4_src f)"
    using off b(1) len by (auto simp: ipv4_src_def ipv4_at_def FABRIC_HDR_SZ_def b(2) octets_nth)
  show "ipv4_dst (rewrite_at off f old new) = (if off = 16 then new else ipv4_dst f)"
    using off b(1) len by (auto simp: ipv4_dst_def ipv4_at_def FABRIC_HDR_SZ_def b(2) octets_nth)
  show "transport_ports (rewrite_at off f old new) = transport_ports f"
    using off len by (auto simp: transport_ports_def Let_def ihl pr b(1) get16_def FABRIC_HDR_SZ_def b(2))
qed

lemma ip_packet_accessors:
  assumes "23 \<le> length f"
  shows "ip_packet_protocol (ip_packet f) = Some (ip_protocol f)"
    and "ip_packet_transport_ports (ip_packet f) = transport_ports f"
    and "ip_packet_src (ip_packet f) = Some (ipv4_src f)"
    and "fabric_packet_new f = Some f"
proof -
  have t: "length (ip_packet f) = length f - 3" by (simp add: ip_packet_def FABRIC_HDR_SZ_def)
  show "ip_packet_protocol (ip_packet f) = Some (ip_protocol f)" "ip_packet_src (ip_packet f) = Some (ipv4_src f)"
    "fabric_packet_new f = Some f"
    using assms by (simp_all add: ip_packet_protocol_def ip_packet_src_def ip_protocol_def ipv4_src_def fabric_packet_new_def
        ip_packet_def FABRIC_HDR_SZ_def)
  show "ip_packet_transport_ports (ip_packet f) = transport_ports f"
    using assms by (auto simp: ip_packet_transport_ports_def transport_ports_def ip_protocol_def ihl_of_def get16_def
        ip_packet_def FABRIC_HDR_SZ_def Let_def add.assoc less_diff_conv)
qed

section \<open>The routing view of a table\<close>

text \<open>What routing depends on: everything of an endpoint but its buffer, trackers and activators.\<close>

datatype bk_view =
    VService service_id service_policy "ipv4 option"
  | VUnplaced buffer_policy
  | VRemote worker_id
  | VAdapter port_id
  | VPod "port_id option"

fun backend_view :: "('w, 'sm) endpoint_backend \<Rightarrow> bk_view" where
  "backend_view (BkService sid policy backend_ip _) = VService sid policy backend_ip"
| "backend_view (BkUnplacedPod policy) = VUnplaced policy"
| "backend_view (BkRemoteSegment w) = VRemote w"
| "backend_view (BkLocalAdapter p) = VAdapter p"
| "backend_view (BkLocalPod p) = VPod p"

definition endpoint_view :: "('w, 'sm) fabric_endpoint \<Rightarrow> ipv4 \<times> fabric_endpoint_state \<times> bk_view" where
  "endpoint_view ep = (fe_ip ep, fe_state ep, backend_view (fe_backend ep))"

definition table_view :: "('w, 'sm) endpoint_table \<Rightarrow> ipv4 \<Rightarrow> (ipv4 \<times> fabric_endpoint_state \<times> bk_view) option" where
  "table_view et ip = map_option endpoint_view (map_of (et_by_ip et) ip)"

lemma ep_put_map [simp]: "map_of (et_by_ip (ep_put ip ep et)) = (map_of (et_by_ip et))(ip \<mapsto> ep)"
  by (simp add: ep_put_def update_conv')

lemma ep_put_other [simp]:
  "et_service_id_to_ip (ep_put ip ep et) = et_service_id_to_ip et"
  "et_activation_debounce (ep_put ip ep et) = et_activation_debounce et"
  by (simp_all add: ep_put_def)

lemma table_view_put: "table_view (ep_put ip ep et) = (table_view et)(ip \<mapsto> endpoint_view ep)"
  by (simp add: table_view_def fun_eq_iff)

lemma backend_view_simps [simp]:
  "VService sid pol b = backend_view bk \<longleftrightarrow> (\<exists>proc. bk = BkService sid pol b proc)"
  "VUnplaced bp = backend_view bk \<longleftrightarrow> bk = BkUnplacedPod bp"
  "VRemote w = backend_view bk \<longleftrightarrow> bk = BkRemoteSegment w"
  "VAdapter p = backend_view bk \<longleftrightarrow> bk = BkLocalAdapter p"
  "VPod q = backend_view bk \<longleftrightarrow> bk = BkLocalPod q"
  "backend_view bk = VService sid pol b \<longleftrightarrow> (\<exists>proc. bk = BkService sid pol b proc)"
  "backend_view bk = VUnplaced bp \<longleftrightarrow> bk = BkUnplacedPod bp"
  "backend_view bk = VRemote w \<longleftrightarrow> bk = BkRemoteSegment w"
  "backend_view bk = VAdapter p \<longleftrightarrow> bk = BkLocalAdapter p"
  "backend_view bk = VPod q \<longleftrightarrow> bk = BkLocalPod q"
  by (cases bk; auto)+

lemma track_flow_view [simp]:
  "endpoint_view (fst (track_flow now frame ep)) = endpoint_view ep"
  "fe_backend (fst (track_flow now frame ep)) = fe_backend ep"
  "fe_ip (fst (track_flow now frame ep)) = fe_ip ep"
  "fe_state (fst (track_flow now frame ep)) = fe_state ep"
  "fe_buffer (fst (track_flow now frame ep)) = fe_buffer ep"
  "fe_buffer_start (fst (track_flow now frame ep)) = fe_buffer_start ep"
  by (simp_all add: track_flow_def endpoint_view_def Let_def split: option.split)

lemma debounce_view [simp]:
  "fe_backend (fst (check_activation_debounce d now ep)) = fe_backend ep"
  "fe_ip (fst (check_activation_debounce d now ep)) = fe_ip ep"
  "fe_state (fst (check_activation_debounce d now ep)) = fe_state ep"
  "fe_buffer (fst (check_activation_debounce d now ep)) = fe_buffer ep"
  "fe_buffer_start (fst (check_activation_debounce d now ep)) = fe_buffer_start ep"
  "fe_flow_tracker (fst (check_activation_debounce d now ep)) = fe_flow_tracker ep"
  by (simp_all add: check_activation_debounce_def split: option.split)

lemma try_buffer_view [simp]:
  "fe_backend (fst (try_buffer_frame frame cap tmo now ep)) = fe_backend ep"
  "fe_ip (fst (try_buffer_frame frame cap tmo now ep)) = fe_ip ep"
  "fe_state (fst (try_buffer_frame frame cap tmo now ep)) = fe_state ep"
  "fe_flow_tracker (fst (try_buffer_frame frame cap tmo now ep)) = fe_flow_tracker ep"
  by (simp_all add: try_buffer_frame_def drain_buffer_def)

text \<open>The number of frames an endpoint may buffer, from its backend.\<close>

fun view_cap :: "bk_view \<Rightarrow> nat" where
  "view_cap (VService _ policy _) = unat (sp_buffer_frames policy)"
| "view_cap (VUnplaced policy) = unat (bp_buffer_frames policy)"
| "view_cap (VPod None) = 64"
| "view_cap _ = 0"

text \<open>
  What a frame may change of the endpoint it is for: address, state and backend stay, and
  the buffer stays, is emptied, or gets this frame at its end if there is room.
\<close>

definition touched :: "u8 list \<Rightarrow> ('w, 'sm) fabric_endpoint \<Rightarrow> ('w, 'sm) fabric_endpoint \<Rightarrow> bool" where
  "touched frame ep ep' \<longleftrightarrow>
     endpoint_view ep' = endpoint_view ep \<and>
     (\<forall>ft'. fe_flow_tracker ep' = Some ft' \<longrightarrow>
        (\<exists>ft. fe_flow_tracker ep = Some ft \<and> (distinct (map fst ft) \<longrightarrow> distinct (map fst ft')))) \<and>
     (fe_buffer ep' = fe_buffer ep \<or> fe_buffer ep' = [] \<or>
      length (fe_buffer ep) < view_cap (backend_view (fe_backend ep)) \<and> fe_buffer ep' = fe_buffer ep @ [frame])"

lemma touched_refl: "touched frame ep ep"
  by (simp add: touched_def)

lemma touched_trans: "touched frame ep ep1 \<Longrightarrow> fe_buffer ep1 = fe_buffer ep \<Longrightarrow> touched frame ep1 ep2 \<Longrightarrow> touched frame ep ep2"
  by (fastforce simp: touched_def endpoint_view_def)

lemma touched_track: "touched frame ep (fst (track_flow now frame ep))"
  by (auto simp: touched_def track_flow_def Let_def endpoint_view_def track_packet_distinct
      split: option.split prod.split)

lemma touched_processor:
  "fe_backend ep = BkService sid pol b proc \<Longrightarrow> touched frame ep (ep\<lparr>fe_backend := BkService sid pol b proc'\<rparr>)"
  by (simp add: touched_def endpoint_view_def)

lemma touched_buffer:
  assumes "unat cap = view_cap (backend_view (fe_backend ep))"
  shows "touched frame ep (fst (try_buffer_frame frame cap tmo now (fst (check_activation_debounce d now ep))))"
  using assms unsigned_eq_0_iff [of cap]
  by (auto simp: touched_def endpoint_view_def try_buffer_frame_def drain_buffer_def not_le)

lemma debounce_and_buffer_fst:
  "fst (debounce_and_buffer ip frame sid cap tmo fc now ep et) =
     ep_put ip (fst (try_buffer_frame frame cap tmo now (fst (check_activation_debounce (et_activation_debounce et) now ep)))) et"
  by (simp add: debounce_and_buffer_def case_prod_beta Let_def)

text \<open>A lookup replaces one entry by one it touched, and nothing else.\<close>

definition puts :: "ipv4 \<Rightarrow> u8 list \<Rightarrow> ('w, 'sm) fabric_endpoint \<Rightarrow> ('w, 'sm) endpoint_table \<Rightarrow> ('w, 'sm) endpoint_table \<Rightarrow> bool" where
  "puts ip frame ep et et' \<longleftrightarrow> (\<exists>ep'. et' = ep_put ip ep' et \<and> touched frame ep ep')"

lemma puts_put: "touched frame ep ep' \<Longrightarrow> puts ip frame ep et (ep_put ip ep' et)"
  by (auto simp: puts_def)

lemma puts_trans: "touched frame ep ep1 \<Longrightarrow> fe_buffer ep1 = fe_buffer ep \<Longrightarrow> puts ip frame ep1 et et' \<Longrightarrow> puts ip frame ep et et'"
  by (auto simp: puts_def intro: touched_trans)

lemma puts_debounce:
  "unat cap = view_cap (backend_view (fe_backend ep)) \<Longrightarrow>
   puts ip frame ep et (fst (debounce_and_buffer ip frame sid cap tmo fc now ep et))"
  by (simp add: debounce_and_buffer_fst puts_put touched_buffer)

lemma puts_service_buffer:
  assumes "fe_backend ep = BkService sid pol b proc"
  shows "puts ip frame ep et (fst (dispatch_service_buffer host ip frame fc now ep sid pol b proc et))"
proof -
  obtain proc' r where pr: "(if \<not> is_passthrough proc
      then (case fabric_packet_new frame of Some fp \<Rightarrow> process_frame host sid (ip_packet fp) frame proc | None \<Rightarrow> (proc, None))
      else (proc, None)) = (proc', r)" by fastforce
  let ?ep = "ep\<lparr>fe_backend := BkService sid pol b proc'\<rparr>"
  have t: "touched frame ep ?ep" using assms by (rule touched_processor)
  have "puts ip frame ?ep et (fst (dispatch_service_buffer host ip frame fc now ep sid pol b proc et))"
    by (cases r) (simp_all add: dispatch_service_buffer_def pr puts_debounce puts_put touched_refl)
  then show ?thesis using puts_trans [OF t] by simp
qed

lemma puts_service:
  "fe_backend ep = BkService sid pol b proc \<Longrightarrow> et = ep_put ip ep et0 \<Longrightarrow>
   puts ip frame ep et (fst (dispatch_service host ip frame fc now ep sid pol b proc et)) \<or>
   fst (dispatch_service host ip frame fc now ep sid pol b proc et) = et"
  by (auto simp: dispatch_service_def puts_service_buffer split: fabric_endpoint_state.split option.split)

lemma lookup_put:
  assumes ep: "map_of (et_by_ip et) ip = Some ep"
  shows "\<exists>ep'. map_of (et_by_ip (fst (lookup_and_buffer host now ip frame skip et))) = (map_of (et_by_ip et))(ip \<mapsto> ep') \<and>
    touched frame ep ep'"
    and "et_service_id_to_ip (fst (lookup_and_buffer host now ip frame skip et)) = et_service_id_to_ip et"
    and "distinct (map fst (et_by_ip et)) \<Longrightarrow> distinct (map fst (et_by_ip (fst (lookup_and_buffer host now ip frame skip et))))"
proof -
  obtain ep1 fc where tr: "(if skip then (ep, None) else track_flow now frame ep) = (ep1, fc)" by fastforce
  then have "ep1 = fst (if skip then (ep, None) else track_flow now frame ep)" by simp
  then have t: "touched frame ep ep1" "fe_buffer ep1 = fe_buffer ep" "fe_backend ep1 = fe_backend ep"
    by (simp_all add: touched_track touched_refl)
  let ?et = "ep_put ip ep1 et" and ?r = "fst (lookup_and_buffer host now ip frame skip et)"
  have "?r = ?et \<or> puts ip frame ep1 ?et ?r"
  proof (cases "fe_backend ep1")
    case (BkService sid pol b proc)
    then show ?thesis using ep tr puts_service [OF BkService, of ?et ip et frame host fc now] by (auto simp: lookup_and_buffer_def)
  next
    case (BkUnplacedPod bp)
    then show ?thesis using ep tr by (simp add: lookup_and_buffer_def dispatch_unplaced_pod_def puts_debounce)
  next
    case (BkLocalPod q)
    then show ?thesis using ep tr by (cases q) (simp_all add: lookup_and_buffer_def dispatch_local_pod_pending_def puts_debounce)
  qed (use ep tr in \<open>simp_all add: lookup_and_buffer_def\<close>)
  then obtain ep' where r: "?r = ?et \<and> ep' = ep1 \<or> ?r = ep_put ip ep' ?et" and t': "touched frame ep ep'"
    using t touched_trans [OF t(1,2)] by (auto simp: puts_def)
  then show "\<exists>ep'. map_of (et_by_ip ?r) = (map_of (et_by_ip et))(ip \<mapsto> ep') \<and> touched frame ep ep'" by auto
  show "et_service_id_to_ip ?r = et_service_id_to_ip et" using r by auto
  show "distinct (map fst (et_by_ip et)) \<Longrightarrow> distinct (map fst (et_by_ip ?r))"
    using r by (auto simp: ep_put_def distinct_update)
qed

lemma lookup_view:
  "table_view (fst (lookup_and_buffer host now ip frame skip et)) = table_view et"
  "et_service_id_to_ip (fst (lookup_and_buffer host now ip frame skip et)) = et_service_id_to_ip et"
proof -
  show "table_view (fst (lookup_and_buffer host now ip frame skip et)) = table_view et"
  proof (cases "map_of (et_by_ip et) ip")
    case None
    then show ?thesis by (simp add: lookup_and_buffer_def)
  next
    case (Some ep)
    then show ?thesis using lookup_put(1) [OF Some, of host now frame skip]
      by (auto simp: table_view_def fun_eq_iff touched_def)
  qed
  show "et_service_id_to_ip (fst (lookup_and_buffer host now ip frame skip et)) = et_service_id_to_ip et"
  proof (cases "map_of (et_by_ip et) ip")
    case None
    then show ?thesis by (simp add: lookup_and_buffer_def)
  qed (rule lookup_put(2))
qed

section \<open>What holds along the frame path\<close>

text \<open>
  A reflexive and transitive relation that holds across a lookup and across the updates of
  connection tracking holds across the dispatch of a frame and of an activator's actions,
  however deep they replay.
\<close>

lemma effects_Some:
  "prepend_effects fx r = Some (fb', y) \<longleftrightarrow> (\<exists>z. r = Some (fb', z) \<and> y = fx @ z)"
  "append_effects fx r = Some (fb', y) \<longleftrightarrow> (\<exists>z. r = Some (fb', z) \<and> y = z @ fx)"
  "prepend_effects fx r = None \<longleftrightarrow> r = None"
  "append_effects fx r = None \<longleftrightarrow> r = None"
  by (cases r; auto simp: prepend_effects_def append_effects_def)+

locale frame_path =
  fixes host :: "('w, 'sm) host" and R :: "('w, 'sm) fabric \<Rightarrow> ('w, 'sm) fabric \<Rightarrow> bool"
  assumes path_refl: "R fb fb"
    and path_trans: "R fb fb1 \<Longrightarrow> R fb1 fb2 \<Longrightarrow> R fb fb2"
    and path_lookup: "R fb (fb\<lparr>fb_endpoint_table := fst (lookup_and_buffer host now ip frame skip (fb_endpoint_table fb))\<rparr>)"
    and path_timeout: "R fb (fb\<lparr>fb_endpoint_table := fst (handle_timeout_for_ip host ip (fb_endpoint_table fb))\<rparr>)"
    and path_insert: "R fb (insert_conntrack_entry now pkt service_ip pod_ip fb)"
    and path_dnat: "R fb (fst (reverse_dnat now pkt fb))"
begin

lemma path_action:
  assumes "dispatch_action redispatch now sid dst a fb = Some (fb', fx)"
    and re: "\<And>p f f' x. redispatch p f = Some (f', x) \<Longrightarrow> R f f'"
  shows "R fb fb'"
proof (cases a)
  case (ReplayPacket raw)
  show ?thesis
  proof (cases "get_service_nat_info sid (fb_endpoint_table fb)")
    case (Some nat)
    then show ?thesis using assms(1) ReplayPacket path_trans [OF path_insert re]
      by (cases nat) (simp add: dispatch_action_def Let_def)
  qed (use assms(1) ReplayPacket path_refl in \<open>simp add: dispatch_action_def\<close>)
qed (use assms(1) path_refl in \<open>simp_all add: dispatch_action_def\<close>)

lemma path_actions:
  assumes "run_actions redispatch now sid dst as fb = Some (fb', fx)"
    and re: "\<And>p f f' x. redispatch p f = Some (f', x) \<Longrightarrow> R f f'"
  shows "R fb fb'"
  using assms(1)
proof (induction as arbitrary: fb fb' fx)
  case (Cons a as)
  then obtain fb1 x y where 1: "dispatch_action redispatch now sid dst a fb = Some (fb1, x)"
    and 2: "run_actions redispatch now sid dst as fb1 = Some (fb', y)" by (auto split: option.splits prod.splits)
  have "R fb fb1" using 1 re by (rule path_action)
  then show ?case using Cons.IH [OF 2] by (rule path_trans)
qed (simp add: path_refl)

lemma path_passes:
  assumes "dispatch_passes n redispatch host now source skip pkt fb = Some (fb', fx)"
    and re: "\<And>p f f' x. redispatch p f = Some (f', x) \<Longrightarrow> R f f'"
  shows "R fb fb'"
  using assms(1)
proof (induction n arbitrary: skip pkt fb fx)
  case (Suc n)
  show ?case
  proof (cases "fabric_packet_new pkt")
    case None
    then show ?thesis using Suc.prems by (simp add: path_refl)
  next
    case (Some fp)
    obtain et act sa fc where l: "lookup_and_buffer host now (ipv4_dst fp) pkt skip (fb_endpoint_table fb) = (et, act, sa, fc)"
      by (metis prod_cases4)
    let ?fb = "fb\<lparr>fb_endpoint_table := et\<rparr>"
    have 1: "R fb ?fb" using path_lookup [of fb now "ipv4_dst fp" pkt skip] by (simp add: l)
    have "R ?fb fb'"
    proof (cases act)
      case (ServiceForward pod svc)
      then obtain z where "dispatch_passes n redispatch host now source True (rewrite_ipv4_dst pkt svc pod)
          (insert_conntrack_entry now (rewrite_ipv4_dst pkt svc pod) svc pod ?fb) = Some (fb', z)"
        using Suc.prems by (auto simp: Some l Let_def effects_Some)
      then show ?thesis using Suc.IH path_trans [OF path_insert] by blast
    next
      case (ActivatorActions as sid)
      then obtain z where "run_actions redispatch now sid (ipv4_dst fp) as ?fb = Some (fb', z)"
        using Suc.prems by (auto simp: Some l Let_def effects_Some)
      then show ?thesis by (rule path_actions [OF _ re])
    next
      case (L4Result as frames sid delay)
      then obtain z where "run_actions redispatch now sid (ipv4_dst fp) as ?fb = Some (fb', z)"
        using Suc.prems by (auto simp: Some l Let_def effects_Some)
      then show ?thesis by (rule path_actions [OF _ re])
    next
      case (ToRemoteWorker w)
      then show ?thesis using Suc.prems path_refl
        by (cases "map_of (fb_tunnel_ports fb) w") (auto simp: Some l Let_def effects_Some)
    qed (use Suc.prems in \<open>auto simp: Some l Let_def effects_Some path_refl\<close>)
    then show ?thesis using 1 by (rule path_trans [rotated])
  qed
qed (simp add: path_refl)

lemma path_frame: "dispatch_frame fuel host now source pkt fb = Some (fb', fx) \<Longrightarrow> R fb fb'"
proof (induction fuel arbitrary: source pkt fb fb' fx)
  case (Suc fuel)
  obtain fb1 p where d: "reverse_dnat now pkt fb = (fb1, p)" by fastforce
  have "R fb fb1" using path_dnat [of fb now pkt] by (simp add: d)
  moreover have "R fb1 fb'"
  proof (rule path_passes)
    show "dispatch_passes 2 (dispatch_frame fuel host now SourceInternal) host now source False p fb1 = Some (fb', fx)"
      using Suc.prems by (simp add: d)
  qed (rule Suc.IH)
  ultimately show ?case by (rule path_trans)
qed simp

lemma path_receive:
  "port_receive fuel host now port pkt fb = Some (fb', fx) \<Longrightarrow> R fb fb'"
  "gateway_receive fuel host now pkt fb = Some (fb', fx) \<Longrightarrow> R fb fb'"
  by (auto simp: port_receive_def gateway_receive_def path_refl path_frame split: if_splits)

lemma path_dispatch_actions: "fabric_dispatch_actions fuel host now as sid fb = Some (fb', fx) \<Longrightarrow> R fb fb'"
  using path_actions path_frame unfolding fabric_dispatch_actions_def by blast

lemma path_poll:
  assumes "poll_timer_fired fuel host now ip fb = Some (fb', fx)"
  shows "R fb fb'"
proof -
  obtain et r where h: "handle_timeout_for_ip host ip (fb_endpoint_table fb) = (et, r)" by fastforce
  let ?fb = "fb\<lparr>fb_endpoint_table := et\<rparr>"
  have 1: "R fb ?fb" using path_timeout [of fb ip] by (simp add: h)
  have "R ?fb fb'"
  proof (cases "\<exists>as frames sid delay. r = Some (L4Result as frames sid delay)")
    case True
    then obtain as sid z where "run_actions (dispatch_frame fuel host now SourceInternal) now sid ip as ?fb = Some (fb', z)"
      using assms by (auto simp: poll_timer_fired_def h effects_Some Let_def)
    then show ?thesis by (rule path_actions) (rule path_frame)
  next
    case False
    then show ?thesis using assms path_refl
      by (auto simp: poll_timer_fired_def h Let_def split: option.splits endpoint_action.splits)
  qed
  then show ?thesis using 1 by (rule path_trans [rotated])
qed

end

section \<open>The frame path keeps the routing configuration\<close>

definition same_routes :: "('w, 'sm) fabric \<Rightarrow> ('w, 'sm) fabric \<Rightarrow> bool" where
  "same_routes fb fb' \<longleftrightarrow>
     table_view (fb_endpoint_table fb') = table_view (fb_endpoint_table fb) \<and>
     et_service_id_to_ip (fb_endpoint_table fb') = et_service_id_to_ip (fb_endpoint_table fb) \<and>
     fb' = fb\<lparr>fb_endpoint_table := fb_endpoint_table fb', fb_conntrack := fb_conntrack fb'\<rparr>"

lemma same_routes_table:
  "table_view et = table_view (fb_endpoint_table fb) \<Longrightarrow>
   et_service_id_to_ip et = et_service_id_to_ip (fb_endpoint_table fb) \<Longrightarrow> same_routes fb (fb\<lparr>fb_endpoint_table := et\<rparr>)"
  by (simp add: same_routes_def)

lemma same_routes_conntrack: "same_routes fb (fb\<lparr>fb_conntrack := ct\<rparr>)"
  by (simp add: same_routes_def)

lemma same_routes_trans: "same_routes fb fb1 \<Longrightarrow> same_routes fb1 fb2 \<Longrightarrow> same_routes fb fb2"
  by (cases fb; cases fb1; cases fb2) (simp add: same_routes_def)

lemma timeout_put:
  "fst (handle_timeout_for_ip host ip et) = et \<or>
   (\<exists>ep ep'. map_of (et_by_ip et) ip = Some ep \<and> fst (handle_timeout_for_ip host ip et) = ep_put ip ep' et \<and> touched [] ep ep')"
  by (auto simp: handle_timeout_for_ip_def touched_processor case_prod_beta Let_def
      split: option.split endpoint_backend.split intro!: exI)

lemma timeout_view:
  "table_view (fst (handle_timeout_for_ip host ip et)) = table_view et"
  "et_service_id_to_ip (fst (handle_timeout_for_ip host ip et)) = et_service_id_to_ip et"
  using timeout_put [of host ip et] by (auto simp: table_view_def fun_eq_iff touched_def)

lemma insert_conntrack_shape: "\<exists>ct. insert_conntrack_entry now pkt service_ip pod_ip fb = fb\<lparr>fb_conntrack := ct\<rparr>"
  by (auto simp: insert_conntrack_entry_def case_prod_beta Let_def split: option.split intro: exI [of _ "fb_conntrack fb"])

lemma reverse_dnat_shape: "\<exists>ct. fst (reverse_dnat now pkt fb) = fb\<lparr>fb_conntrack := ct\<rparr>"
  by (auto simp: reverse_dnat_def case_prod_beta Let_def split: option.split intro: exI [of _ "fb_conntrack fb"])

interpretation routes: frame_path host same_routes for host :: "('w, 'sm) host"
proof unfold_locales
  fix fb :: "('w, 'sm) fabric" and now ip frame skip service_ip pod_ip
  show "same_routes fb fb" by (simp add: same_routes_def)
  show "same_routes fb (fb\<lparr>fb_endpoint_table := fst (lookup_and_buffer host now ip frame skip (fb_endpoint_table fb))\<rparr>)"
    by (intro same_routes_table lookup_view)
  show "same_routes fb (fb\<lparr>fb_endpoint_table := fst (handle_timeout_for_ip host ip (fb_endpoint_table fb))\<rparr>)"
    by (intro same_routes_table timeout_view)
  show "same_routes fb (insert_conntrack_entry now frame service_ip pod_ip fb)"
    using insert_conntrack_shape same_routes_conntrack by metis
  show "same_routes fb (fst (reverse_dnat now frame fb))"
    using reverse_dnat_shape same_routes_conntrack by metis
qed (rule same_routes_trans)

section \<open>Delivery and address translation\<close>

text \<open>The port that frames for an address leave through, read off the routing view.\<close>

definition endpoint_port :: "('w, 'sm) fabric \<Rightarrow> ipv4 \<Rightarrow> port_id option" where
  "endpoint_port fb ip =
     (case table_view (fb_endpoint_table fb) ip of
        Some (_, _, VPod (Some p)) \<Rightarrow> if p \<in> set (fb_ports fb) then Some p else None
      | Some (_, _, VAdapter p) \<Rightarrow> if p \<in> set (fb_ports fb) then Some p else None
      | Some (_, _, VRemote w) \<Rightarrow>
          (case map_of (fb_tunnel_ports fb) w of
             Some p \<Rightarrow> if p \<in> set (fb_ports fb) then Some p else None
           | None \<Rightarrow> None)
      | _ \<Rightarrow> None)"

fun is_frame_effect :: "fabric_effect \<Rightarrow> bool" where
  "is_frame_effect (FxSend _ _) \<longleftrightarrow> True"
| "is_frame_effect (FxGateway _) \<longleftrightarrow> True"
| "is_frame_effect _ \<longleftrightarrow> False"

definition frames_of :: "fabric_effect list \<Rightarrow> fabric_effect list" where
  "frames_of fx = filter is_frame_effect fx"

lemma frames_of_append [simp]: "frames_of (fx @ fx') = frames_of fx @ frames_of fx'"
  by (simp add: frames_of_def)

lemma frames_of_events [simp]: "frames_of (emit_event ev fb) = []" "frames_of (emit_activation b ip sid fb) = []"
  by (simp_all add: frames_of_def emit_event_def emit_activation_def)

lemma same_routes_fields:
  "same_routes fb fb' \<Longrightarrow> table_view (fb_endpoint_table fb') = table_view (fb_endpoint_table fb) \<and> fb_ports fb' = fb_ports fb \<and>
   fb_tunnel_ports fb' = fb_tunnel_ports fb"
  by (cases fb; cases fb') (simp add: same_routes_def)

lemma endpoint_port_routes:
  assumes "same_routes fb fb'" shows "endpoint_port fb' = endpoint_port fb"
proof -
  have e: "table_view (fb_endpoint_table fb') = table_view (fb_endpoint_table fb)" "fb_ports fb' = fb_ports fb"
    "fb_tunnel_ports fb' = fb_tunnel_ports fb" using same_routes_fields [OF assms] by simp_all
  show ?thesis unfolding endpoint_port_def e by (rule refl)
qed

lemma lookup_port:
  assumes "table_view et ip = Some (a, st, v)"
  shows "v = VPod (Some p) \<Longrightarrow> \<exists>et' fc. lookup_and_buffer host now ip frame skip et = (et', ToLocalPod p, False, fc)"
    and "v = VAdapter p \<Longrightarrow> \<exists>et' fc. lookup_and_buffer host now ip frame skip et = (et', ToLocalAdapter p, False, fc)"
    and "v = VRemote w \<Longrightarrow> \<exists>et' fc. lookup_and_buffer host now ip frame skip et = (et', ToRemoteWorker w, False, fc)"
  using assms by (auto simp: table_view_def endpoint_view_def lookup_and_buffer_def case_prod_beta Let_def)

lemma pass_deliver:
  assumes len: "23 \<le> length pkt" and p: "endpoint_port fb (ipv4_dst pkt) = Some p"
  shows "\<exists>fb' fx. dispatch_passes (Suc n) re host now source skip pkt fb = Some (fb', fx) \<and>
    frames_of fx = [FxSend p pkt] \<and> fb_conntrack fb' = fb_conntrack fb"
proof -
  obtain a st v where v: "table_view (fb_endpoint_table fb) (ipv4_dst pkt) = Some (a, st, v)"
    using p by (auto simp: endpoint_port_def split: option.splits)
  have "\<exists>et' act fc. lookup_and_buffer host now (ipv4_dst pkt) pkt skip (fb_endpoint_table fb) = (et', act, False, fc) \<and>
      (act = ToLocalPod p \<or> act = ToLocalAdapter p \<or> (\<exists>w. act = ToRemoteWorker w \<and> map_of (fb_tunnel_ports fb) w = Some p)) \<and>
      p \<in> set (fb_ports fb)"
    using p lookup_port [OF v, of _ host now pkt skip] v
    by (cases v) (fastforce simp: endpoint_port_def split: option.splits if_splits)+
  then show ?thesis
    using ip_packet_accessors(4) [OF len]
    by (auto simp: Let_def prepend_effects_def send_to_port_def frames_of_def emit_event_def split: option.split)
qed

fun view_reachable :: "bk_view \<Rightarrow> bool" where
  "view_reachable (VPod p) \<longleftrightarrow> p \<noteq> None"
| "view_reachable (VRemote _) \<longleftrightarrow> True"
| "view_reachable (VAdapter _) \<longleftrightarrow> True"
| "view_reachable _ \<longleftrightarrow> False"

lemma reachable_view: "is_reachable bk = view_reachable (backend_view bk)"
  by (cases bk) simp_all

lemma backend_reachable_view:
  "is_backend_reachable ip et \<longleftrightarrow> (case table_view et ip of Some (_, _, v) \<Rightarrow> view_reachable v | None \<Rightarrow> False)"
  by (simp add: is_backend_reachable_def table_view_def endpoint_view_def reachable_view split: option.split)

lemma endpoint_port_reachable: "endpoint_port fb ip = Some p \<Longrightarrow> is_backend_reachable ip (fb_endpoint_table fb)"
  by (auto simp: endpoint_port_def backend_reachable_view split: option.splits bk_view.splits)

lemma lookup_forward:
  assumes v: "table_view et ip = Some (a, EpReady, VService sid pol (Some b))" and b: "b \<noteq> ip" "is_backend_reachable b et"
  shows "\<exists>et' fc. lookup_and_buffer host now ip frame skip et = (et', ServiceForward b a, False, fc)"
proof -
  obtain ep proc where ep: "map_of (et_by_ip et) ip = Some ep" "fe_ip ep = a" "fe_state ep = EpReady" "fe_backend ep = BkService sid pol (Some b) proc"
    using v by (auto simp: table_view_def endpoint_view_def)
  obtain ep1 fc where tr: "(if skip then (ep, None) else track_flow now frame ep) = (ep1, fc)" by fastforce
  then have "ep1 = fst (if skip then (ep, None) else track_flow now frame ep)" by simp
  then have t: "fe_ip ep1 = a" "fe_state ep1 = EpReady" "fe_backend ep1 = BkService sid pol (Some b) proc"
    using ep by simp_all
  have "is_backend_reachable b (ep_put ip ep1 et)" using b by (simp add: is_backend_reachable_def)
  then show ?thesis using ep(1) t tr b(1) by (simp add: lookup_and_buffer_def dispatch_service_def)
qed

definition packet_key :: "u8 list \<Rightarrow> conntrack_key" where
  "packet_key f = \<lparr>ck_src_ip = ipv4_src f, ck_dst_ip = ipv4_dst f, ck_protocol = ip_protocol f,
     ck_src_port = fst (unwrap_or (transport_ports f) (0, 0)), ck_dst_port = snd (unwrap_or (transport_ports f) (0, 0))\<rparr>"

text \<open>The key of the replies of backend \<open>b\<close> to frame \<open>f\<close>.\<close>

definition reply_key :: "ipv4 \<Rightarrow> u8 list \<Rightarrow> conntrack_key" where
  "reply_key b f = \<lparr>ck_src_ip = b, ck_dst_ip = ipv4_src f, ck_protocol = ip_protocol f,
     ck_src_port = snd (unwrap_or (transport_ports f) (0, 0)), ck_dst_port = fst (unwrap_or (transport_ports f) (0, 0))\<rparr>"

lemma reverse_dnat_None:
  "23 \<le> length f \<Longrightarrow> map_of (fb_conntrack fb) (packet_key f) = None \<Longrightarrow> reverse_dnat now f fb = (fb, f)"
  by (simp add: reverse_dnat_def ip_packet_accessors case_prod_beta Let_def conntrack_lookup_def packet_key_def)

lemma reverse_dnat_Some:
  "23 \<le> length f \<Longrightarrow> map_of (fb_conntrack fb) (packet_key f) = Some e \<Longrightarrow>
   snd (reverse_dnat now f fb) = rewrite_ipv4_src f (ipv4_src f) (ce_service_ip e)"
  by (simp add: reverse_dnat_def ip_packet_accessors case_prod_beta Let_def conntrack_lookup_def packet_key_def)

lemma insert_conntrack_key:
  "frame_min f \<Longrightarrow> map_of (fb_conntrack (insert_conntrack_entry now (rewrite_ipv4_dst f old b) d b fb)) (reply_key b f) =
     Some \<lparr>ce_service_ip = d, ce_backend_ip = b, ce_last_seen = now\<rparr>"
  using rewrite_at_fields [of f 16 old b]
  by (simp add: insert_conntrack_entry_def rewrite_is_at ip_packet_accessors frame_min_def case_prod_beta Let_def
      conntrack_insert_map reply_key_def)

lemma pass_forward:
  assumes "23 \<le> length pkt" "lookup_and_buffer host now (ipv4_dst pkt) pkt skip (fb_endpoint_table fb) = (et, ServiceForward b d, False, fc)"
    and "dispatch_passes n re host now source True (rewrite_ipv4_dst pkt d b)
      (insert_conntrack_entry now (rewrite_ipv4_dst pkt d b) d b (fb\<lparr>fb_endpoint_table := et\<rparr>)) = Some (fb', fx)"
  shows "\<exists>z. dispatch_passes (Suc n) re host now source skip pkt fb = Some (fb', z @ fx) \<and> frames_of z = []"
  using assms by (simp add: ip_packet_accessors(4) Let_def prepend_effects_def emit_activation_def frames_of_def emit_event_def
      split: option.split)

lemma dispatch_nat:
  assumes m: "frame_min pkt" and d: "d = ipv4_dst pkt"
    and v: "table_view (fb_endpoint_table fb) d = Some (d, EpReady, VService sid pol (Some b))" and b: "b \<noteq> d"
    and p: "endpoint_port fb b = Some p" and ct: "map_of (fb_conntrack fb) (packet_key pkt) = None"
  shows "\<exists>fb' fx. dispatch_frame (Suc fuel) host now source pkt fb = Some (fb', fx) \<and>
    frames_of fx = [FxSend p (rewrite_ipv4_dst pkt d b)] \<and>
    map_of (fb_conntrack fb') (reply_key b pkt) = Some \<lparr>ce_service_ip = d, ce_backend_ip = b, ce_last_seen = now\<rparr>"
proof -
  let ?pkt = "rewrite_ipv4_dst pkt d b" and ?re = "dispatch_frame fuel host now SourceInternal"
  have len: "23 \<le> length pkt" using m by (simp add: frame_min_def)
  note rf = rewrite_at_fields [OF m, of 16 d b, folded rewrite_is_at [OF m]]
  obtain et fc where l: "lookup_and_buffer host now (ipv4_dst pkt) pkt False (fb_endpoint_table fb) = (et, ServiceForward b d, False, fc)"
    using lookup_forward [OF v b endpoint_port_reachable [OF p], of host now pkt False] d by auto
  let ?fb = "fb\<lparr>fb_endpoint_table := et\<rparr>" and ?fb1 = "insert_conntrack_entry now ?pkt d b (fb\<lparr>fb_endpoint_table := et\<rparr>)"
  have "same_routes fb ?fb" using routes.path_lookup [of fb host now "ipv4_dst pkt" pkt False] by (simp add: l)
  then have "same_routes fb ?fb1" using routes.path_insert same_routes_trans by metis
  then have p1: "endpoint_port ?fb1 (ipv4_dst ?pkt) = Some p" using p rf(5) by (simp add: endpoint_port_routes)
  obtain fb' fx where r: "dispatch_passes (Suc 0) ?re host now source True ?pkt ?fb1 = Some (fb', fx)"
    "frames_of fx = [FxSend p ?pkt]" "fb_conntrack fb' = fb_conntrack ?fb1"
    using pass_deliver [OF _ p1, of 0 ?re host now source True] rf(1) by (auto simp: frame_min_def)
  have "\<exists>z. dispatch_frame (Suc fuel) host now source pkt fb = Some (fb', z @ fx) \<and> frames_of z = []"
    using pass_forward [OF len l r(1)] by (simp add: reverse_dnat_None [OF len ct] numeral_2_eq_2 del: dispatch_passes.simps)
  then show ?thesis using r(2,3) insert_conntrack_key [OF m, of now d b d ?fb] by auto
qed

lemma dispatch_reply:
  assumes m: "frame_min r" and ct: "map_of (fb_conntrack fb) (packet_key r) = Some e"
    and q: "endpoint_port fb (ipv4_dst r) = Some q"
  shows "\<exists>fb' fx. dispatch_frame (Suc fuel) host now source r fb = Some (fb', fx) \<and>
    frames_of fx = [FxSend q (rewrite_ipv4_src r (ipv4_src r) (ce_service_ip e))]"
proof -
  let ?r = "rewrite_ipv4_src r (ipv4_src r) (ce_service_ip e)"
  note rf = rewrite_at_fields [OF m, of 12 "ipv4_src r" "ce_service_ip e", folded rewrite_is_at [OF m]]
  obtain fb1 where d: "reverse_dnat now r fb = (fb1, ?r)"
    using reverse_dnat_Some [OF _ ct, of now] m by (metis frame_min_def prod.collapse)
  then have "same_routes fb fb1" using routes.path_dnat [of fb now r] by simp
  then have "endpoint_port fb1 (ipv4_dst ?r) = Some q" using q rf(5) by (simp add: endpoint_port_routes)
  then show ?thesis
    using pass_deliver [of ?r fb1 q "Suc 0" "dispatch_frame fuel host now SourceInternal" host now source False] rf(1) d
    by (auto simp: frame_min_def numeral_2_eq_2 simp del: dispatch_passes.simps)
qed

section \<open>Where frames may go\<close>

fun effect_safe :: "('w, 'sm) fabric \<Rightarrow> frame_source \<Rightarrow> fabric_effect \<Rightarrow> bool" where
  "effect_safe fb source (FxSend p f) \<longleftrightarrow> endpoint_port fb (ipv4_dst f) = Some p"
| "effect_safe fb source (FxGateway f) \<longleftrightarrow>
     (\<exists>p. source = SourcePort p) \<and> fb_has_gateway fb \<and> table_view (fb_endpoint_table fb) (ipv4_dst f) = None \<and>
     (ipv4_dst f = fb_gateway_ip fb \<or> \<not> is_in_subnet (ipv4_dst f) fb)"
| "effect_safe fb source _ \<longleftrightarrow> True"

lemma effect_safe_routes:
  assumes "same_routes fb fb'" shows "effect_safe fb' = effect_safe fb"
proof (intro ext)
  fix source x
  have "fb_gateway_ip fb' = fb_gateway_ip fb \<and> fb_has_gateway fb' = fb_has_gateway fb \<and> is_in_subnet ip fb' = is_in_subnet ip fb" for ip
    using assms by (cases fb; cases fb') (simp add: same_routes_def is_in_subnet_def)
  then show "effect_safe fb' source x = effect_safe fb source x"
    using same_routes_fields [OF assms] endpoint_port_routes [OF assms] by (cases x) simp_all
qed

lemma effect_safe_internal: "effect_safe fb SourceInternal x \<Longrightarrow> effect_safe fb source x"
  by (cases x) auto

lemma safe_events [simp]:
  "list_all (effect_safe fb source) (emit_event ev fb')" "list_all (effect_safe fb source) (emit_activation b ip sid fb')"
  by (simp_all add: emit_event_def emit_activation_def)

lemma safe_l4_frames: "list_all (effect_safe fb source) (send_l4_frames frames fb)"
proof -
  have "list_all (effect_safe fb source) (send_l4_frame fb pkt)" for pkt
  proof -
    have "ipv4_dst (with_fabric_header 0 0 pkt) = ipv4_at pkt 16"
      by (simp add: ipv4_dst_def with_fabric_header_def to_be16_def FABRIC_HDR_SZ_def)
    moreover have "resolve_ip ip fb = Some p \<Longrightarrow> endpoint_port fb ip = Some p" for ip p
      by (auto simp: resolve_ip_def get_port_id_def endpoint_port_def table_view_def endpoint_view_def
          split: option.splits endpoint_backend.splits if_splits)
    ultimately show ?thesis by (simp add: send_l4_frame_def ip_packet_dst_def split: option.split)
  qed
  then show ?thesis by (induction frames) (simp_all add: send_l4_frames_def)
qed

definition run_safe :: "(u8 list \<Rightarrow> ('w, 'sm) fabric_run) \<Rightarrow> bool" where
  "run_safe redispatch \<longleftrightarrow> (\<forall>p f f' x. redispatch p f = Some (f', x) \<longrightarrow> same_routes f f' \<and> list_all (effect_safe f SourceInternal) x)"

lemma action_safe:
  assumes re: "run_safe redispatch" and a: "dispatch_action redispatch now sid dst a fb = Some (fb', fx)"
  shows "same_routes fb fb' \<and> list_all (effect_safe fb SourceInternal) fx"
proof -
  have "same_routes fb fb'" by (rule routes.path_action [OF a]) (use re in \<open>auto simp: run_safe_def\<close>)
  moreover have "list_all (effect_safe fb SourceInternal) fx"
  proof (cases a)
    case (ReplayPacket raw)
    show ?thesis
    proof (cases "get_service_nat_info sid (fb_endpoint_table fb)")
      case (Some nat)
      then obtain s b where "redispatch (rewrite_ipv4_dst raw s b) (insert_conntrack_entry now (rewrite_ipv4_dst raw s b) s b fb) = Some (fb', fx)"
        using a ReplayPacket by (cases nat) (simp add: dispatch_action_def Let_def)
      then show ?thesis using re effect_safe_routes [OF routes.path_insert] unfolding run_safe_def by metis
    qed (use a ReplayPacket in \<open>simp add: dispatch_action_def\<close>)
  qed (use a in \<open>auto simp: dispatch_action_def\<close>)
  ultimately show ?thesis by simp
qed

lemma actions_safe:
  assumes re: "run_safe redispatch"
  shows "run_actions redispatch now sid dst as fb = Some (fb', fx) \<Longrightarrow> list_all (effect_safe fb SourceInternal) fx"
proof (induction as arbitrary: fb fx)
  case (Cons a as)
  then obtain fb1 x y where 1: "dispatch_action redispatch now sid dst a fb = Some (fb1, x)"
    and 2: "run_actions redispatch now sid dst as fb1 = Some (fb', y)" and fx: "fx = x @ y"
    by (auto split: option.splits prod.splits)
  show ?case using action_safe [OF re 1] Cons.IH [OF 2] fx effect_safe_routes by (auto simp: list_all_iff)
qed simp

lemma process_frame_action:
  "process_frame host sid pkt raw proc = (proc', Some a) \<Longrightarrow>
   (\<exists>as. a = ActivatorActions as sid) \<or> (\<exists>frames delay. a = L4Result [] frames sid delay)"
  by (auto simp: process_frame_def stream_manager_turn_def process_l4_output_def Let_def
      split: option.splits prod.splits port_mode.splits)

lemma debounce_and_buffer_action:
  "debounce_and_buffer ip frame sid cap tmo fc now ep et = (et', a, sa, fc') \<Longrightarrow> a = BufferedFrame sid \<or> a = DropFrame sid"
  by (auto simp: debounce_and_buffer_def split: prod.splits if_splits)

fun is_service_action :: "service_id \<Rightarrow> endpoint_action \<Rightarrow> bool" where
  "is_service_action sid (ServiceForward _ _) \<longleftrightarrow> True"
| "is_service_action sid (ActivatorActions _ sid') \<longleftrightarrow> sid' = sid"
| "is_service_action sid (L4Result as _ sid' _) \<longleftrightarrow> sid' = sid \<and> as = []"
| "is_service_action sid (BufferedFrame s) \<longleftrightarrow> s = Some sid"
| "is_service_action sid (DropFrame s) \<longleftrightarrow> s = Some sid"
| "is_service_action sid _ \<longleftrightarrow> False"

lemma service_buffer_action:
  "dispatch_service_buffer host ip frame fc now ep sid pol b proc et = (et', act, sa, fc') \<Longrightarrow> is_service_action sid act"
  by (auto simp: dispatch_service_buffer_def Let_def dest!: process_frame_action debounce_and_buffer_action
      split: option.splits prod.splits if_splits)

lemma service_action:
  "dispatch_service host ip frame fc now ep sid pol b proc et = (et', act, sa, fc') \<Longrightarrow> is_service_action sid act"
  by (auto simp: dispatch_service_def dest: service_buffer_action split: option.splits fabric_endpoint_state.splits if_splits)

text \<open>Which actions a lookup returns, from the routing view of the address.\<close>

lemma lookup_action_view:
  assumes l: "lookup_and_buffer host now ip frame skip et = (et', act, sa, fc)"
  shows "act = NotFound \<Longrightarrow> table_view et ip = None"
    and "act = ToRemoteWorker w \<Longrightarrow> \<exists>a st. table_view et ip = Some (a, st, VRemote w)"
    and "act = ToLocalAdapter p \<Longrightarrow> \<exists>a st. table_view et ip = Some (a, st, VAdapter p)"
    and "act = ToLocalPod p \<Longrightarrow> \<exists>a st. table_view et ip = Some (a, st, VPod (Some p))"
    and "act = ServiceForward b d \<or> act = ActivatorActions as sid \<or> act = L4Result as frames sid delay \<Longrightarrow>
      \<exists>a st sid' pol b'. table_view et ip = Some (a, st, VService sid' pol b')"
    and "act = L4Result as frames sid delay \<Longrightarrow> as = []"
proof -
  let ?P = "\<lambda>v act. case v of
      None \<Rightarrow> act = NotFound
    | Some (_, _, VRemote w) \<Rightarrow> act = ToRemoteWorker w
    | Some (_, _, VAdapter p) \<Rightarrow> act = ToLocalAdapter p
    | Some (_, _, VPod (Some p)) \<Rightarrow> act = ToLocalPod p
    | Some (_, _, VService sid _ _) \<Rightarrow> is_service_action sid act
    | Some _ \<Rightarrow> act = BufferedFrame None \<or> act = DropFrame None"
  have "?P (table_view et ip) act"
  proof (cases "map_of (et_by_ip et) ip")
    case (Some ep)
    obtain ep1 fc1 where tr: "(if skip then (ep, None) else track_flow now frame ep) = (ep1, fc1)" by fastforce
    then have "ep1 = fst (if skip then (ep, None) else track_flow now frame ep)" by simp
    then have t: "fe_backend ep1 = fe_backend ep" by simp
    show ?thesis
    proof (cases "fe_backend ep")
      case (BkService sid pol b proc)
      then show ?thesis using l Some tr t
        by (auto simp: lookup_and_buffer_def table_view_def endpoint_view_def Let_def dest: service_action)
    next
      case (BkUnplacedPod bp)
      then show ?thesis using l Some tr t
        by (auto simp: lookup_and_buffer_def table_view_def endpoint_view_def dispatch_unplaced_pod_def
            dest: debounce_and_buffer_action)
    next
      case (BkLocalPod q)
      then show ?thesis using l Some tr t
        by (cases q) (auto simp: lookup_and_buffer_def table_view_def endpoint_view_def dispatch_local_pod_pending_def
            dest: debounce_and_buffer_action)
    qed (use l Some tr t in \<open>auto simp: lookup_and_buffer_def table_view_def endpoint_view_def\<close>)
  qed (use l in \<open>auto simp: lookup_and_buffer_def table_view_def\<close>)
  then show "act = NotFound \<Longrightarrow> table_view et ip = None"
    "act = ToRemoteWorker w \<Longrightarrow> \<exists>a st. table_view et ip = Some (a, st, VRemote w)"
    "act = ToLocalAdapter p \<Longrightarrow> \<exists>a st. table_view et ip = Some (a, st, VAdapter p)"
    "act = ToLocalPod p \<Longrightarrow> \<exists>a st. table_view et ip = Some (a, st, VPod (Some p))"
    "act = ServiceForward b d \<or> act = ActivatorActions as sid \<or> act = L4Result as frames sid delay \<Longrightarrow>
      \<exists>a st sid' pol b'. table_view et ip = Some (a, st, VService sid' pol b')"
    "act = L4Result as frames sid delay \<Longrightarrow> as = []"
    by (cases "table_view et ip"; cases "snd (snd (the (table_view et ip)))"; auto split: option.splits)+
qed

lemma passes_safe:
  assumes re: "run_safe redispatch"
  shows "dispatch_passes n redispatch host now source skip pkt fb = Some (fb', fx) \<Longrightarrow> list_all (effect_safe fb source) fx"
proof (induction n arbitrary: skip pkt fb fx)
  case (Suc n)
  show ?case
  proof (cases "fabric_packet_new pkt")
    case None
    then show ?thesis using Suc.prems by simp
  next
    case (Some fp)
    then have fp: "fp = pkt" by (simp add: fabric_packet_new_def split: if_splits)
    obtain et act sa fc where l: "lookup_and_buffer host now (ipv4_dst pkt) pkt skip (fb_endpoint_table fb) = (et, act, sa, fc)"
      by (metis prod_cases4)
    let ?fb = "fb\<lparr>fb_endpoint_table := et\<rparr>"
    have r: "same_routes fb ?fb" using routes.path_lookup [of fb host now "ipv4_dst pkt" pkt skip] by (simp add: l)
    note sr = effect_safe_routes [OF r]
    have demand: "list_all (effect_safe fb source) (case fc of Some c \<Rightarrow> emit_event (demand_event c) ?fb | None \<Rightarrow> [])"
      by (simp split: option.split)
    have run: "list_all (effect_safe fb source) z"
      if "run_actions redispatch now sid dst as ?fb = Some (fb', z)" for sid dst as z
      using actions_safe [OF re that] sr effect_safe_internal by (auto simp: list_all_iff)
    have deliver: "list_all (effect_safe fb source) (send_to_port p pkt ?fb)"
      if "table_view (fb_endpoint_table fb) (ipv4_dst pkt) = Some (a, st, v)"
        "v = VPod (Some p) \<or> v = VAdapter p \<or> (\<exists>w. v = VRemote w \<and> map_of (fb_tunnel_ports fb) w = Some p)" for a st v p
      using that by (auto simp: send_to_port_def endpoint_port_def)
    show ?thesis
    proof (cases act)
      case (ServiceForward pod svc)
      let ?fb1 = "insert_conntrack_entry now (rewrite_ipv4_dst pkt svc pod) svc pod ?fb"
      obtain x y z where z: "dispatch_passes n redispatch host now source True (rewrite_ipv4_dst pkt svc pod) ?fb1 = Some (fb', z)"
        and fx: "fx = x @ y @ z" "list_all (effect_safe fb source) x" "list_all (effect_safe fb source) y"
        using Suc.prems ServiceForward demand safe_events by (auto simp: Some fp l Let_def effects_Some)
      have "effect_safe ?fb1 = effect_safe fb" using effect_safe_routes [OF routes.path_insert] sr by metis
      then show ?thesis using Suc.IH [OF z] fx by simp
    next
      case (NotFound)
      then have "table_view (fb_endpoint_table fb) (ipv4_dst pkt) = None" using l lookup_action_view(1) by metis
      moreover have "fx = (case fc of Some c \<Rightarrow> emit_event (demand_event c) ?fb | None \<Rightarrow> []) @ route_unknown source (ipv4_dst pkt) pkt ?fb"
        using Suc.prems NotFound by (auto simp: Some fp l Let_def effects_Some)
      ultimately show ?thesis
        using demand by (auto simp: route_unknown_def is_in_subnet_def split: frame_source.split)
    next
      case (ActivatorActions as sid)
      then show ?thesis using Suc.prems demand run by (auto simp: Some fp l Let_def effects_Some)
    next
      case (L4Result as frames sid delay)
      then show ?thesis using Suc.prems demand run safe_l4_frames [of ?fb source frames]
        by (auto simp: Some fp l Let_def effects_Some sr split: option.splits)
    next
      case (ToRemoteWorker w)
      then obtain a st where v: "table_view (fb_endpoint_table fb) (ipv4_dst pkt) = Some (a, st, VRemote w)"
        using l lookup_action_view by metis
      then show ?thesis using Suc.prems ToRemoteWorker demand deliver [OF v]
        by (cases "map_of (fb_tunnel_ports fb) w") (auto simp: Some fp l Let_def effects_Some)
    next
      case (ToLocalAdapter p)
      then obtain a st where v: "table_view (fb_endpoint_table fb) (ipv4_dst pkt) = Some (a, st, VAdapter p)"
        using l lookup_action_view by metis
      then show ?thesis using Suc.prems ToLocalAdapter demand deliver [OF v] by (auto simp: Some fp l Let_def effects_Some)
    next
      case (ToLocalPod p)
      then obtain a st where v: "table_view (fb_endpoint_table fb) (ipv4_dst pkt) = Some (a, st, VPod (Some p))"
        using l lookup_action_view by metis
      then show ?thesis using Suc.prems ToLocalPod demand deliver [OF v] by (auto simp: Some fp l Let_def effects_Some)
    qed (use Suc.prems demand in \<open>auto simp: Some fp l Let_def effects_Some\<close>)
  qed
qed simp

lemma frame_safe: "run_safe (dispatch_frame fuel host now SourceInternal)"
proof (induction fuel)
  case (Suc fuel)
  show ?case unfolding run_safe_def
  proof (intro allI impI conjI)
    fix p f f' x assume d: "dispatch_frame (Suc fuel) host now SourceInternal p f = Some (f', x)"
    show "same_routes f f'" using d by (rule routes.path_frame)
    obtain f1 q where r: "reverse_dnat now p f = (f1, q)" by fastforce
    have "same_routes f f1" using routes.path_dnat [of f now p] by (simp add: r)
    then have "effect_safe f1 = effect_safe f" by (rule effect_safe_routes)
    then show "list_all (effect_safe f SourceInternal) x"
      using passes_safe [OF Suc.IH, of 2 host now SourceInternal False q f1 f' x] d by (simp add: r)
  qed
qed (simp add: run_safe_def)

section \<open>Replays end\<close>

text \<open>
  An activator replays frames it was given: runts, or frames with an IP header of at
  least twenty bytes.
\<close>

definition replays_frames :: "('w, 'sm) host \<Rightarrow> bool" where
  "replays_frames host \<longleftrightarrow>
     (\<forall>w evs w' as raw. h_wasm host w evs = (w', Some as) \<longrightarrow> ReplayPacket raw \<in> set as \<longrightarrow> length raw < 23 \<or> frame_min raw)"

definition no_service_chain :: "('w, 'sm) fabric \<Rightarrow> bool" where
  "no_service_chain fb \<longleftrightarrow>
     (\<forall>ip a st sid pol b. table_view (fb_endpoint_table fb) ip = Some (a, st, VService sid pol (Some b)) \<longrightarrow>
        (\<forall>a' st' sid' pol' b'. table_view (fb_endpoint_table fb) b \<noteq> Some (a', st', VService sid' pol' b')))"

lemma no_service_chain_routes: "same_routes fb fb' \<Longrightarrow> no_service_chain fb' = no_service_chain fb"
  by (drule same_routes_fields) (simp add: no_service_chain_def)

lemma nat_info_view:
  "get_service_nat_info sid et = Some (d, b) \<Longrightarrow> \<exists>ip a st sid' pol. table_view et ip = Some (a, st, VService sid' pol (Some b))"
proof -
  assume "get_service_nat_info sid et = Some (d, b)"
  then obtain ip ep where "map_of (et_by_ip et) ip = Some ep"
    "(case fe_backend ep of BkService _ _ (Some backend_ip) _ \<Rightarrow> Some (fe_ip ep, backend_ip) | _ \<Rightarrow> None) = Some (d, b)"
    by (auto simp: get_service_nat_info_def bind_eq_Some_conv)
  then have "\<exists>sid' pol. table_view et ip = Some (fe_ip ep, fe_state ep, VService sid' pol (Some b))"
    by (auto simp: table_view_def endpoint_view_def split: endpoint_backend.splits option.splits)
  then show ?thesis by blast
qed

text \<open>A frame for an address that is not a service ends after one pass, without actions.\<close>

definition ends_at :: "('w, 'sm) fabric \<Rightarrow> u8 list \<Rightarrow> bool" where
  "ends_at fb f \<longleftrightarrow> length f < 23 \<or>
     (\<forall>a st sid pol b. table_view (fb_endpoint_table fb) (ipv4_dst f) \<noteq> Some (a, st, VService sid pol b))"

lemma pass_ends:
  assumes "ends_at fb pkt"
  shows "dispatch_passes (Suc n) re host now source skip pkt fb \<noteq> None"
proof (cases "length pkt < 23")
  case False
  obtain et act sa fc where l: "lookup_and_buffer host now (ipv4_dst pkt) pkt skip (fb_endpoint_table fb) = (et, act, sa, fc)"
    by (metis prod_cases4)
  have "\<not> (\<exists>b d. act = ServiceForward b d)" "\<not> (\<exists>as sid. act = ActivatorActions as sid)"
    "\<not> (\<exists>as frames sid delay. act = L4Result as frames sid delay)"
    using lookup_action_view(5) [OF l] assms False unfolding ends_at_def by blast+
  then show ?thesis using False
    by (cases act) (simp_all add: ip_packet_accessors(4) l Let_def effects_Some split: option.split)
qed (simp add: fabric_packet_new_def FABRIC_HDR_SZ_def)

lemma frame_ends:
  assumes "length pkt < 23 \<or> frame_min pkt" "ends_at fb pkt"
  shows "dispatch_frame (Suc fuel) host now source pkt fb \<noteq> None"
proof -
  obtain fb1 p where d: "reverse_dnat now pkt fb = (fb1, p)" by fastforce
  have v: "table_view (fb_endpoint_table fb1) = table_view (fb_endpoint_table fb)"
    using same_routes_fields [OF routes.path_dnat [of fb now pkt]] by (simp add: d)
  have "p = pkt \<or> (\<exists>s. p = rewrite_ipv4_src pkt (ipv4_src pkt) s \<and> 23 \<le> length pkt)"
  proof (cases "length pkt < 23")
    case True
    then show ?thesis using d by (simp add: reverse_dnat_def fabric_packet_new_def FABRIC_HDR_SZ_def)
  next
    case False
    then show ?thesis using d reverse_dnat_None [of pkt fb now] reverse_dnat_Some [of pkt fb _ now]
      by (cases "map_of (fb_conntrack fb) (packet_key pkt)") auto
  qed
  then have "ends_at fb1 p"
    using assms rewrite_at_fields(1,5) [of pkt 12] by (auto simp: ends_at_def v frame_min_def rewrite_is_at)
  then show ?thesis using pass_ends [of fb1 p "Suc 0"] by (simp add: d numeral_2_eq_2 del: dispatch_passes.simps)
qed

lemma actions_end:
  assumes ch: "no_service_chain fb" and raw: "\<forall>raw. ReplayPacket raw \<in> set as \<longrightarrow> length raw < 23 \<or> frame_min raw"
  shows "run_actions (dispatch_frame (Suc fuel) host now SourceInternal) now sid dst as fb \<noteq> None"
  using assms
proof (induction as arbitrary: fb)
  case (Cons a as)
  let ?re = "dispatch_frame (Suc fuel) host now SourceInternal"
  have "dispatch_action ?re now sid dst a fb \<noteq> None"
  proof (cases a)
    case (ReplayPacket raw)
    show ?thesis
    proof (cases "get_service_nat_info sid (fb_endpoint_table fb)")
      case (Some nat)
      obtain d b where nat: "nat = (d, b)" by fastforce
      let ?p = "rewrite_ipv4_dst raw d b"
      let ?fb = "insert_conntrack_entry now ?p d b fb"
      have v: "table_view (fb_endpoint_table ?fb) = table_view (fb_endpoint_table fb)"
        using same_routes_fields [OF routes.path_insert] by blast
      have p: "length ?p < 23 \<or> frame_min ?p \<and> ipv4_dst ?p = b"
      proof (cases "frame_min raw")
        case True
        then show ?thesis using rewrite_at_fields(1,5) [of raw 16 d b] by (simp add: rewrite_is_at)
      next
        case False
        then show ?thesis using Cons.prems(2) ReplayPacket by (simp add: rewrite_ipv4_dst_def FABRIC_HDR_SZ_def)
      qed
      moreover have "ends_at ?fb ?p"
        using p nat_info_view [OF Some [unfolded nat]] Cons.prems(1) unfolding ends_at_def v no_service_chain_def by metis
      ultimately have "?re ?p ?fb \<noteq> None" using frame_ends by blast
      then show ?thesis using ReplayPacket Some nat by (simp add: dispatch_action_def Let_def del: dispatch_frame.simps)
    qed (simp add: ReplayPacket dispatch_action_def)
  qed (simp_all add: dispatch_action_def)
  then obtain fb1 x where 1: "dispatch_action ?re now sid dst a fb = Some (fb1, x)" by auto
  then have "same_routes fb fb1" using action_safe [OF frame_safe] by blast
  then have "no_service_chain fb1" using Cons.prems(1) no_service_chain_routes by blast
  then have "run_actions ?re now sid dst as fb1 \<noteq> None" by (rule Cons.IH) (use Cons.prems(2) in simp)
  then show ?case using 1 by (auto simp del: dispatch_frame.simps)
qed simp

lemma process_frame_replays:
  assumes "replays_frames host" "process_frame host sid pkt raw proc = (proc', Some (ActivatorActions as sid'))"
    "ReplayPacket f \<in> set as"
  shows "length f < 23 \<or> frame_min f"
proof -
  obtain ai ai' where e: "process_events host ai = (ai', Some as)"
    using assms(2) by (auto simp: process_frame_def stream_manager_turn_def process_l4_output_def Let_def
        split: option.splits prod.splits port_mode.splits)
  have "as = [] \<or> (\<exists>w evs w'. h_wasm host w evs = (w', Some as))"
    using e by (auto simp: process_events_def Let_def split: if_splits prod.splits option.splits)
  then show ?thesis using assms(1,3) unfolding replays_frames_def by fastforce
qed

lemma lookup_replays:
  assumes rp: "replays_frames host" and l: "lookup_and_buffer host now ip frame skip et = (et', ActivatorActions as sid, sa, fc)"
    and f: "ReplayPacket f \<in> set as"
  shows "length f < 23 \<or> frame_min f"
proof -
  obtain ep where ep: "map_of (et_by_ip et) ip = Some ep"
    using l by (auto simp: lookup_and_buffer_def split: option.splits)
  obtain ep1 fc1 where tr: "(if skip then (ep, None) else track_flow now frame ep) = (ep1, fc1)" by fastforce
  obtain a st sid' pol b where "table_view et ip = Some (a, st, VService sid' pol b)" using lookup_action_view(5) [OF l] by blast
  then obtain proc where bk: "fe_backend ep = BkService sid' pol b proc" using ep by (auto simp: table_view_def endpoint_view_def)
  have "ep1 = fst (if skip then (ep, None) else track_flow now frame ep)" using tr by simp
  then have "fe_backend ep1 = BkService sid' pol b proc" using bk by simp
  then have "dispatch_service host ip frame fc1 now ep1 sid' pol b proc (ep_put ip ep1 et) = (et', ActivatorActions as sid, sa, fc)"
    using l ep tr by (simp add: lookup_and_buffer_def)
  then have "dispatch_service_buffer host ip frame fc1 now ep1 sid' pol b proc (ep_put ip ep1 et) = (et', ActivatorActions as sid, sa, fc)"
    by (auto simp: dispatch_service_def split: option.splits fabric_endpoint_state.splits if_splits)
  then obtain pk proc' where "process_frame host sid' pk frame proc = (proc', Some (ActivatorActions as sid))"
    by (auto simp: dispatch_service_buffer_def Let_def dest: debounce_and_buffer_action
        split: option.splits prod.splits if_splits)
  then show ?thesis using process_frame_replays [OF rp _ f] by blast
qed

lemma passes_end:
  assumes rp: "replays_frames host"
  shows "no_service_chain fb \<Longrightarrow>
    dispatch_passes n (dispatch_frame (Suc fuel) host now SourceInternal) host now source skip pkt fb \<noteq> None"
proof (induction n arbitrary: skip pkt fb)
  case (Suc n)
  let ?re = "dispatch_frame (Suc fuel) host now SourceInternal"
  show ?case
  proof (cases "length pkt < 23")
    case False
    obtain et act sa fc where l: "lookup_and_buffer host now (ipv4_dst pkt) pkt skip (fb_endpoint_table fb) = (et, act, sa, fc)"
      by (metis prod_cases4)
    let ?fb = "fb\<lparr>fb_endpoint_table := et\<rparr>"
    have "same_routes fb ?fb" using routes.path_lookup [of fb host now "ipv4_dst pkt" pkt skip] by (simp add: l)
    then have ch: "no_service_chain ?fb" using Suc.prems no_service_chain_routes by blast
    note simps = ip_packet_accessors(4) [of pkt] l Let_def effects_Some
    show ?thesis
    proof (cases act)
      case (ServiceForward b d)
      have "no_service_chain (insert_conntrack_entry now (rewrite_ipv4_dst pkt d b) d b ?fb)"
        using ch no_service_chain_routes [OF routes.path_insert] by blast
      then show ?thesis using Suc.IH ServiceForward False by (simp add: simps del: dispatch_frame.simps not_None_eq)
    next
      case (ActivatorActions as sid)
      have "run_actions ?re now sid (ipv4_dst pkt) as ?fb \<noteq> None"
        by (rule actions_end [OF ch]) (use lookup_replays [OF rp] l ActivatorActions in blast)
      then show ?thesis using ActivatorActions False by (simp add: simps del: dispatch_frame.simps not_None_eq)
    next
      case (L4Result as frames sid delay)
      then have "as = []" using lookup_action_view(6) [OF l] by blast
      then show ?thesis using L4Result False by (simp add: simps del: dispatch_frame.simps not_None_eq)
    qed (use False in \<open>simp_all add: simps del: dispatch_frame.simps not_None_eq split: option.split\<close>)
  qed (simp add: fabric_packet_new_def FABRIC_HDR_SZ_def)
qed simp

section \<open>Properties\<close>

text \<open>
  C3. Address translation round trip.  A frame for the address of a ready service whose
  backend can be reached is handed to the backend's port, and to no other, with the
  backend's address as destination and everything else kept.  A reply of the backend, with
  addresses and ports swapped, is handed to the client's port with the service address as
  source.  Both frames keep valid checksums.
\<close>

theorem nat_round_trip:
  assumes "frame_min pkt" "d = ipv4_dst pkt" "b \<noteq> d"
    and "table_view (fb_endpoint_table fb) d = Some (d, EpReady, VService sid pol (Some b))"
    and "endpoint_port fb b = Some p" "endpoint_port fb (ipv4_src pkt) = Some q"
    and "map_of (fb_conntrack fb) (packet_key pkt) = None"
    and "frame_min r" "packet_key r = reply_key b pkt"
  shows "\<exists>fb1 fx1 pkt' fb2 fx2 r'.
    dispatch_frame (Suc fuel) host now source pkt fb = Some (fb1, fx1) \<and> frames_of fx1 = [FxSend p pkt'] \<and>
    dispatch_frame (Suc fuel) host now' source' r fb1 = Some (fb2, fx2) \<and> frames_of fx2 = [FxSend q r'] \<and>
    ipv4_dst pkt' = b \<and> ipv4_src pkt' = ipv4_src pkt \<and> transport_ports pkt' = transport_ports pkt \<and>
    ipv4_src r' = d \<and> ipv4_dst r' = ipv4_src pkt \<and> transport_ports r' = transport_ports r \<and>
    (\<forall>co. frame_wf pkt \<longrightarrow> has_csum_field pkt co \<longrightarrow> rewrite_keeps co pkt pkt') \<and>
    (\<forall>co. frame_wf r \<longrightarrow> has_csum_field r co \<longrightarrow> rewrite_keeps co r r')"
proof -
  let ?e = "\<lparr>ce_service_ip = d, ce_backend_ip = b, ce_last_seen = now\<rparr>"
  let ?p = "rewrite_ipv4_dst pkt d b" and ?r = "rewrite_ipv4_src r (ipv4_src r) d"
  have r: "ipv4_src r = b" "ipv4_dst r = ipv4_src pkt" using assms(9) by (simp_all add: packet_key_def reply_key_def)
  obtain fb1 fx1 where 1: "dispatch_frame (Suc fuel) host now source pkt fb = Some (fb1, fx1)" "frames_of fx1 = [FxSend p ?p]"
    "map_of (fb_conntrack fb1) (reply_key b pkt) = Some ?e"
    using dispatch_nat [OF assms(1,2,4,3,5,7)] by blast
  have "endpoint_port fb1 (ipv4_dst r) = Some q" using endpoint_port_routes [OF routes.path_frame [OF 1(1)]] assms(6) r by simp
  then obtain fb2 fx2 where 2: "dispatch_frame (Suc fuel) host now' source' r fb1 = Some (fb2, fx2)" "frames_of fx2 = [FxSend q ?r]"
    using dispatch_reply [OF assms(8), of fb1 ?e q fuel host now' source'] 1(3) assms(9) by auto
  have k: "rewrite_keeps co pkt ?p" if "frame_wf pkt" "has_csum_field pkt co" for co
    using rewrite_at_valid(1) [OF that, of 16 d b] assms(2) rewrite_at_eq(1) [OF that(1)] by (simp add: ipv4_dst_def FABRIC_HDR_SZ_def)
  have k': "rewrite_keeps co r ?r" if "frame_wf r" "has_csum_field r co" for co
    using rewrite_at_valid(1) [OF that, of 12 "ipv4_src r" d] rewrite_at_eq(2) [OF that(1)] by (simp add: ipv4_src_def FABRIC_HDR_SZ_def)
  show ?thesis
    using 1 2 k k' r rewrite_at_fields(4-6) [OF assms(1), of 16 d b] rewrite_at_fields(4-6) [OF assms(8), of 12 "ipv4_src r" d]
      rewrite_is_at(1) [OF assms(1)] rewrite_is_at(2) [OF assms(8)]
    by (intro exI [of _ fb1] exI [of _ fx1] exI [of _ ?p] exI [of _ fb2] exI [of _ fx2] exI [of _ ?r])
       (simp del: dispatch_frame.simps)
qed

text \<open>
  The example: client 10.0.0.1 on port 1, service 10.0.0.2, backend 10.0.0.99 on port 2;
  the example frame goes from the client to the service, and \<open>example_reply\<close> answers it.
\<close>

definition example_host :: "(unit, unit) host" where
  "example_host = \<lparr>h_wasm = \<lambda>w _. (w, Some []), h_slice = \<lambda>_. None, h_receive_frame = \<lambda>s _. (s, \<lparr>smo_events = [], smo_frames = []\<rparr>),
     h_handle_timeout = \<lambda>s. (s, \<lparr>smo_events = [], smo_frames = []\<rparr>), h_update_backend = \<lambda>s _. s,
     h_execute_action = \<lambda>s _. (s, \<lparr>smo_events = [], smo_frames = []\<rparr>), h_poll_delay = \<lambda>_. None\<rparr>"

definition example_pod :: "ipv4 \<Rightarrow> port_id \<Rightarrow> (unit, unit) fabric_endpoint" where
  "example_pod ip p = \<lparr>fe_ip = ip, fe_state = EpReady, fe_buffer = [], fe_buffer_start = None, fe_backend = BkLocalPod (Some p),
     fe_flow_tracker = Some [], fe_last_activation = None\<rparr>"

definition example_policy :: service_policy where
  "example_policy = \<lparr>sp_ports = [], sp_buffer_frames = 8, sp_timeout_ms = 1000\<rparr>"

definition example_service :: "(unit, unit) fabric_endpoint" where
  "example_service = \<lparr>fe_ip = 0x0A000002, fe_state = EpReady, fe_buffer = [], fe_buffer_start = None,
     fe_backend = BkService (ServiceId 7) example_policy (Some 0x0A000063) passthrough_processor,
     fe_flow_tracker = Some [], fe_last_activation = None\<rparr>"

definition example_fabric :: "(unit, unit) fabric" where
  "example_fabric = (fabric_new 0x0A0000FE 24)\<lparr>fb_ports := [1, 2],
     fb_endpoint_table := endpoint_table_new\<lparr>et_by_ip := [(0x0A000001, example_pod 0x0A000001 1), (0x0A000002, example_service),
       (0x0A000063, example_pod 0x0A000063 2)], et_service_id_to_ip := [(ServiceId 7, 0x0A000002)]\<rparr>\<rparr>"

definition example_reply :: "u8 list" where
  "example_reply = [0, 0, 1] @ [69, 0, 0, 40, 0, 0, 0, 0, 64, 6, 102, 109, 10, 0, 0, 99, 10, 0, 0, 1] @ [0, 80, 3, 232, 0, 0, 0, 1, 0, 0, 0, 2, 80, 18, 255, 255, 0, 0, 0, 0]"

lemma example_frame_fields:
  "frame_min example_frame" "ipv4_dst example_frame = 0x0A000002" "ipv4_src example_frame = 0x0A000001"
  "frame_min example_reply" "packet_key example_reply = reply_key 0x0A000063 example_frame"
  by code_simp+

lemma example_fabric_routes:
  "table_view (fb_endpoint_table example_fabric) 0x0A000002 = Some (0x0A000002, EpReady, VService (ServiceId 7) example_policy (Some 0x0A000063))"
  "endpoint_port example_fabric 0x0A000063 = Some 2" "endpoint_port example_fabric 0x0A000001 = Some 1"
  "fb_conntrack example_fabric = []"
  by (simp_all add: example_fabric_def table_view_def endpoint_view_def endpoint_port_def example_service_def example_pod_def
      fabric_new_def endpoint_table_new_def conntrack_new_def)

theorem nat_round_trip_witness:
  "\<exists>fb1 fx1 pkt' fb2 fx2 r'.
     dispatch_frame 1 example_host 0 (SourcePort 1) example_frame example_fabric = Some (fb1, fx1) \<and>
     frames_of fx1 = [FxSend 2 pkt'] \<and> ipv4_dst pkt' = 0x0A000063 \<and>
     dispatch_frame 1 example_host 5 (SourcePort 2) example_reply fb1 = Some (fb2, fx2) \<and>
     frames_of fx2 = [FxSend 1 r'] \<and> ipv4_src r' = 0x0A000002"
  using nat_round_trip [of example_frame "0x0A000002" "0x0A000063" example_fabric "ServiceId 7" example_policy 2 1 example_reply
      0 example_host 0 "SourcePort 1" 5 "SourcePort 2"]
  by (simp add: example_frame_fields example_fabric_routes del: dispatch_frame.simps) blast

text \<open>
  C5. Isolation.  Dispatching a frame, with all the replays it causes, leaves the routing
  configuration as it was.  Every frame it hands to a port has a destination address that
  is routed to this port, and every frame it hands to the gateway came from a port, and has
  a destination that is no endpoint and is the gateway or lies outside the subnet.
\<close>

theorem dispatch_effects_safe:
  assumes "dispatch_frame fuel host now source pkt fb = Some (fb', fx)"
  shows "same_routes fb fb' \<and> list_all (effect_safe fb source) fx"
proof -
  obtain n where n: "fuel = Suc n" using assms by (cases fuel) auto
  obtain fb1 p where d: "reverse_dnat now pkt fb = (fb1, p)" by fastforce
  have "same_routes fb fb1" using routes.path_dnat [of fb now pkt] by (simp add: d)
  then have "effect_safe fb1 = effect_safe fb" by (rule effect_safe_routes)
  then have "list_all (effect_safe fb source) fx"
    using passes_safe [OF frame_safe, of 2 n host now host now source False p fb1 fb' fx] assms by (simp add: n d)
  then show ?thesis using routes.path_frame [OF assms] by simp
qed

theorem dispatch_effects_safe_witness:
  "\<exists>fb' fx. dispatch_frame 1 example_host 0 (SourcePort 1) example_frame example_fabric = Some (fb', fx) \<and>
     same_routes example_fabric fb' \<and> list_all (effect_safe example_fabric (SourcePort 1)) fx"
proof -
  obtain fb' fx where "dispatch_frame (Suc 0) example_host 0 (SourcePort 1) example_frame example_fabric = Some (fb', fx)"
    using dispatch_nat [of example_frame "0x0A000002" example_fabric "ServiceId 7" example_policy "0x0A000063" 2 0 example_host 0 "SourcePort 1"]
    by (auto simp: example_frame_fields example_fabric_routes simp del: dispatch_frame.simps)
  then show ?thesis using dispatch_effects_safe [of "Suc 0" example_host 0 "SourcePort 1" example_frame example_fabric fb' fx]
    by (auto simp del: dispatch_frame.simps)
qed

text \<open>
  C19. Termination.  If activators replay only frames with a proper header, and no service
  has another service as its backend, then two levels of dispatch suffice for every frame
  from every source.
\<close>

theorem dispatch_terminates:
  assumes "replays_frames host" "no_service_chain fb"
  shows "\<exists>fb' fx. dispatch_frame (Suc (Suc fuel)) host now source pkt fb = Some (fb', fx)"
proof -
  obtain fb1 p where d: "reverse_dnat now pkt fb = (fb1, p)" by fastforce
  have "same_routes fb fb1" using routes.path_dnat [of fb now pkt] by (simp add: d)
  then have "no_service_chain fb1" using assms(2) no_service_chain_routes by blast
  then show ?thesis using passes_end [OF assms(1), of fb1 2 fuel now source False p]
    by (auto simp: dispatch_frame.simps(2) [of "Suc fuel"] d simp del: dispatch_frame.simps)
qed

theorem dispatch_terminates_witness:
  "\<exists>fb' fx. dispatch_frame 2 example_host 0 SourceGateway example_frame example_fabric = Some (fb', fx)"
proof -
  have "replays_frames example_host" by (simp add: replays_frames_def example_host_def)
  moreover have "no_service_chain example_fabric"
    by (auto simp: no_service_chain_def example_fabric_def table_view_def endpoint_view_def example_service_def example_pod_def
        fabric_new_def endpoint_table_new_def split: if_splits)
  ultimately show ?thesis using dispatch_terminates [of example_host example_fabric 0 0 SourceGateway example_frame]
    by (simp add: numeral_2_eq_2 del: dispatch_frame.simps)
qed

end
