(* ===== verification/Fabric_Inv.thy ===== *)
theory Fabric_Inv
  imports Fabric_Props
begin

text \<open>
  The invariant of the fabric under every operation of its tasks, and what a message with
  endpoint specifications makes of the endpoint table.
\<close>

section \<open>Well-formed tables\<close>

fun state_ok :: "fabric_endpoint_state \<Rightarrow> bk_view \<Rightarrow> bool" where
  "state_ok st (VService _ _ b) \<longleftrightarrow> (st = EpBuffering) = (b = None)"
| "state_ok st (VUnplaced _) \<longleftrightarrow> st = EpBuffering"
| "state_ok st (VPod p) \<longleftrightarrow> st = (if p = None then EpPending else EpReady)"
| "state_ok st _ \<longleftrightarrow> st = EpReady"

definition ep_ok :: "nat \<Rightarrow> ipv4 \<Rightarrow> ('w, 'sm) fabric_endpoint \<Rightarrow> bool" where
  "ep_ok B ip ep \<longleftrightarrow>
     fe_ip ep = ip \<and> state_ok (fe_state ep) (backend_view (fe_backend ep)) \<and>
     length (fe_buffer ep) \<le> B \<and> view_cap (backend_view (fe_backend ep)) \<le> B \<and>
     (view_reachable (backend_view (fe_backend ep)) \<longrightarrow> fe_buffer ep = []) \<and>
     (\<forall>ft. fe_flow_tracker ep = Some ft \<longrightarrow> distinct (map fst ft))"

definition table_ok :: "nat \<Rightarrow> ('w, 'sm) endpoint_table \<Rightarrow> bool" where
  "table_ok B et \<longleftrightarrow> distinct (map fst (et_by_ip et)) \<and> distinct (map fst (et_service_id_to_ip et)) \<and>
     (\<forall>ip ep. map_of (et_by_ip et) ip = Some ep \<longrightarrow> ep_ok B ip ep)"

definition fabric_ok :: "nat \<Rightarrow> ('w, 'sm) fabric \<Rightarrow> bool" where
  "fabric_ok B fb \<longleftrightarrow> table_ok B (fb_endpoint_table fb) \<and> distinct (map fst (fb_conntrack fb))"

lemma table_okD: "table_ok B et \<Longrightarrow> map_of (et_by_ip et) ip = Some ep \<Longrightarrow> ep_ok B ip ep"
  by (simp add: table_ok_def)

lemma table_ok_put: "table_ok B et \<Longrightarrow> ep_ok B ip ep \<Longrightarrow> table_ok B (ep_put ip ep et)"
  by (auto simp: table_ok_def ep_put_def distinct_update update_conv' split: if_splits)

lemma table_ok_cong:
  "table_ok B et \<Longrightarrow> et_by_ip et' = et_by_ip et \<Longrightarrow> distinct (map fst (et_service_id_to_ip et')) \<Longrightarrow> table_ok B et'"
  by (simp add: table_ok_def)

lemma view_cap_reachable: "view_reachable v \<Longrightarrow> view_cap v = 0"
  by (cases v) auto

lemma ep_ok_touched: "ep_ok B ip ep \<Longrightarrow> touched frame ep ep' \<Longrightarrow> ep_ok B ip ep'"
  using view_cap_reachable [of "backend_view (fe_backend ep)"]
  by (auto simp: ep_ok_def touched_def endpoint_view_def)

lemma table_ok_lookup: "table_ok B et \<Longrightarrow> table_ok B (fst (lookup_and_buffer host now ip frame skip et))"
proof (cases "map_of (et_by_ip et) ip")
  case (Some ep)
  assume ok: "table_ok B et"
  obtain ep' where "map_of (et_by_ip (fst (lookup_and_buffer host now ip frame skip et))) = (map_of (et_by_ip et))(ip \<mapsto> ep')"
    "touched frame ep ep'" using lookup_put(1) [OF Some] by blast
  then show ?thesis using ok lookup_put(2,3) [OF Some, of host now frame skip] ep_ok_touched [OF table_okD [OF ok Some]]
    by (auto simp: table_ok_def)
qed (simp add: lookup_and_buffer_def)

lemma table_ok_timeout: "table_ok B et \<Longrightarrow> table_ok B (fst (handle_timeout_for_ip host ip et))"
  using timeout_put [of host ip et] by (auto intro!: table_ok_put intro: ep_ok_touched [OF table_okD])

lemma ep_ok_drain: "ep_ok B ip ep \<Longrightarrow> ep_ok B ip (drain_buffer ep)"
  by (simp add: ep_ok_def drain_buffer_def)

lemma table_ok_mark_ready:
  assumes ok: "table_ok B et"
  shows "table_ok B (fst (mark_service_ready host sid et))"
proof -
  have "ep_ok B ip (ep\<lparr>fe_state := EpReady, fe_backend := BkService sid' pol (Some b) proc'\<rparr>)"
    "ep_ok B ip (ep\<lparr>fe_state := EpReady, fe_backend := BkService sid' pol (Some b) proc', fe_buffer := [], fe_buffer_start := None\<rparr>)"
    "ep_ok B ip (ep\<lparr>fe_state := EpReady, fe_backend := BkService sid' pol (Some b) proc', fe_buffer := [], fe_buffer_start := None,
       fe_flow_tracker := Some flow_tracker_new\<rparr>)"
    if "map_of (et_by_ip et) ip = Some ep" "fe_backend ep = BkService sid' pol (Some b) proc" for ip ep sid' pol b proc proc'
    using table_okD [OF ok that(1)] that(2) by (simp_all add: ep_ok_def flow_tracker_new_def)
  then show ?thesis using ok
    by (auto simp: mark_service_ready_def Let_def drain_buffer_def
        split: option.splits endpoint_backend.splits prod.splits intro!: table_ok_put)
qed

lemma table_ok_flush_pod: "table_ok B et \<Longrightarrow> table_ok B (fst (flush_pod_buffer ip et))"
  by (auto simp: flush_pod_buffer_def split: option.split endpoint_backend.split
      intro!: table_ok_put ep_ok_drain dest: table_okD)

lemma table_ok_map:
  assumes ok: "table_ok B et" and f: "\<And>ip ep. ep_ok B ip ep \<Longrightarrow> ep_ok B ip (f ip ep)"
  shows "table_ok B (et\<lparr>et_by_ip := map (\<lambda>(ip, ep). (ip, f ip ep)) (et_by_ip et)\<rparr>)"
proof -
  have m: "map_of (map (\<lambda>(ip, ep). (ip, f ip ep)) xs) ip = map_option (f ip) (map_of xs ip)" for xs ip
    by (induction xs) auto
  have k: "map (fst \<circ> (\<lambda>(ip, ep). (ip, f ip ep))) xs = map fst xs" for xs by (simp add: case_prod_beta')
  show ?thesis using ok f unfolding table_ok_def by (auto simp: m k)
qed

lemma table_ok_flush_backend: "table_ok B et \<Longrightarrow> table_ok B (fst (flush_by_backend_ip ip et))"
  unfolding flush_by_backend_ip_def fst_conv by (rule table_ok_map) (simp_all add: ep_ok_drain)

lemma ep_ok_gc: "ep_ok B ip ep \<Longrightarrow> ep_ok B ip (fst (gc_endpoint now ep))"
  by (simp add: gc_endpoint_def Let_def ep_ok_def flow_gc_distinct split: option.split)

lemma table_ok_gc: "table_ok B et \<Longrightarrow> table_ok B (fst (gc_flow_trackers now et))"
proof -
  assume ok: "table_ok B et"
  have "fst (gc_flow_trackers now et) = et\<lparr>et_by_ip := map (\<lambda>(ip, ep). (ip, fst (gc_endpoint now ep))) (et_by_ip et)\<rparr>"
    by (simp add: gc_flow_trackers_def case_prod_beta o_def)
  then show ?thesis using table_ok_map [OF ok, where f = "\<lambda>_ ep. fst (gc_endpoint now ep)"] ep_ok_gc by metis
qed

lemma table_ok_attach: "table_ok B et \<Longrightarrow> table_ok B (fst (attach_port ip port et))"
proof -
  assume ok: "table_ok B et"
  have "ep_ok B ip (drain_buffer (ep\<lparr>fe_backend := BkLocalPod (Some port), fe_state := EpReady,
      fe_flow_tracker := Some (unwrap_or (fe_flow_tracker ep) flow_tracker_new)\<rparr>))"
    if "map_of (et_by_ip et) ip = Some ep" for ep
    using table_okD [OF ok that] by (cases "fe_flow_tracker ep") (simp_all add: ep_ok_def drain_buffer_def flow_tracker_new_def)
  then show ?thesis using ok by (auto simp: attach_port_def split: option.split endpoint_backend.split intro!: table_ok_put)
qed

lemma detach_first_keys: "map fst (detach_first port xs) = map fst xs"
  by (induction port xs rule: detach_first.induct) auto

lemma detach_first_entry:
  "(ip, ep') \<in> set (detach_first port xs) \<Longrightarrow>
   \<exists>ep. (ip, ep) \<in> set xs \<and> (ep' = ep \<or>
     fe_backend ep = BkLocalPod (Some port) \<and> ep' = ep\<lparr>fe_backend := BkLocalPod None, fe_state := EpPending\<rparr>)"
  by (induction port xs rule: detach_first.induct) (auto split: if_splits endpoint_backend.splits)

lemma table_ok_detach:
  assumes ok: "table_ok B et" and B: "64 \<le> B"
  shows "table_ok B (detach_port port et)"
proof -
  have d: "distinct (map fst (et_by_ip et))" using ok by (simp add: table_ok_def)
  have "ep_ok B ip ep'" if m: "map_of (detach_first port (et_by_ip et)) ip = Some ep'" for ip ep'
  proof -
    obtain ep where "map_of (et_by_ip et) ip = Some ep" and
      ep': "ep' = ep \<or> fe_backend ep = BkLocalPod (Some port) \<and> ep' = ep\<lparr>fe_backend := BkLocalPod None, fe_state := EpPending\<rparr>"
      using detach_first_entry [OF map_of_SomeD [OF m]] d by auto
    then have "ep_ok B ip ep" using table_okD [OF ok] by blast
    then show ?thesis using ep' B by (auto simp: ep_ok_def)
  qed
  then show ?thesis using ok by (simp add: table_ok_def detach_port_def detach_first_keys)
qed

lemma drop_mapping_by_ip [simp]: "et_by_ip (drop_service_mapping ip et) = et_by_ip et"
  by (simp add: drop_service_mapping_def split: option.split)

lemma table_ok_drop: "table_ok B et \<Longrightarrow> table_ok B (drop_service_mapping ip et)"
  by (rule table_ok_cong) (auto simp: drop_service_mapping_def table_ok_def distinct_delete split: option.split)

lemma table_ok_remove: "table_ok B et \<Longrightarrow> table_ok B (remove_ip et ip)"
  using table_ok_drop [of B et ip] by (auto simp: remove_ip_def table_ok_def Let_def distinct_delete delete_conv' split: if_splits)

section \<open>Specifications\<close>

definition spec_cap :: "endpoint_spec \<Rightarrow> nat" where
  "spec_cap spec = (case es_kind spec of PkService _ policy _ \<Rightarrow> unat (sp_buffer_frames policy) | _ \<Rightarrow> 64)"

lemma update_service_ok:
  assumes "ep_ok B ip ep" "fe_backend ep = BkService sid0 pol0 b0 proc" "unat (sp_buffer_frames pol) \<le> B"
    "service_backend_state backend = (st, b)"
  shows "ep_ok B ip (fst (update_service host ip sid pol st b ep))"
  using assms
  by (auto simp: update_service_def ep_ok_def Let_def drain_buffer_def service_backend_state_def split: option.splits if_splits)

lemma create_service_ok:
  assumes "table_ok B et" "unat (sp_buffer_frames pol) \<le> B" "service_backend_state backend = (st, b)"
  shows "table_ok B (fst (create_service mk ip sid pol st b et))"
proof -
  let ?ep = "\<lparr>fe_ip = ip, fe_state = st, fe_buffer = [], fe_buffer_start = None, fe_backend = BkService sid pol b (mk sid pol ip),
      fe_flow_tracker = (if is_passthrough (mk sid pol ip) then Some flow_tracker_new else None), fe_last_activation = None\<rparr>"
  have ep: "ep_ok B ip ?ep"
    using assms by (auto simp: ep_ok_def service_backend_state_def flow_tracker_new_def split: option.splits if_splits)
  have t: "table_ok B (et'\<lparr>et_service_id_to_ip := m\<rparr>)" if "table_ok B et'" "distinct (map fst m)" for et' m
    using that by (auto simp: table_ok_def)
  have ids: "distinct (map fst (et_service_id_to_ip et'))" if "table_ok B et'" for et' using that by (simp add: table_ok_def)
  show ?thesis using assms(1) ep
    by (auto simp: create_service_def Let_def split: option.split
        intro!: t table_ok_put table_ok_drop distinct_update ids)
qed

lemma apply_service_ok:
  assumes ok: "table_ok B et" and c: "unat (sp_buffer_frames pol) \<le> B"
  shows "table_ok B (fst (apply_service host mk ip sid pol backend et))"
proof -
  obtain st b where sb: "service_backend_state backend = (st, b)" by fastforce
  have "table_ok B (ep_put ip (fst (update_service host ip sid pol st b ep)) et)"
    if ep: "map_of (et_by_ip et) ip = Some ep" and r: "can_reuse_processor sid pol (Some ep)" for ep
  proof -
    obtain sid0 pol0 b0 proc where "fe_backend ep = BkService sid0 pol0 b0 proc"
      using r by (auto simp: can_reuse_processor_def split: endpoint_backend.splits)
    then show ?thesis using table_ok_put [OF ok] update_service_ok [OF table_okD [OF ok ep] _ c sb] by blast
  qed
  then show ?thesis using create_service_ok [OF ok c sb]
    by (auto simp: apply_service_def sb split: option.split prod.split)
qed

lemma apply_single_spec_ok:
  assumes ok: "table_ok B et" and B: "64 \<le> B" and c: "spec_cap spec \<le> B"
  shows "table_ok B (fst (apply_single_spec host mk me adapter spec et))"
proof -
  let ?ip = "es_ip spec"
  have "ep_ok B ?ip (remote_endpoint ?ip w)" for w by (simp add: ep_ok_def remote_endpoint_def)
  then have rem: "table_ok B (fst (apply_remote_pod ?ip w et))" "table_ok B (fst (apply_remote_peer ?ip w et))" for w
    using ok by (auto simp: apply_remote_pod_def apply_remote_peer_def intro!: table_ok_put table_ok_drop)
  have unpl: "table_ok B (apply_unplaced ?ip et)"
    using ok B by (auto simp: apply_unplaced_def ep_ok_def intro!: table_ok_put)
  have peer: "table_ok B (fst (apply_local_peer ?ip adapter et))"
    using ok by (auto simp: apply_local_peer_def ep_ok_def Let_def split: option.split intro!: table_ok_put table_ok_drop)
  have "length (case map_of (et_by_ip et) ?ip of Some ep \<Rightarrow> (case fe_backend ep of BkUnplacedPod _ \<Rightarrow> fe_buffer ep | _ \<Rightarrow> []) | None \<Rightarrow> []) \<le> B"
    using table_okD [OF ok] by (auto simp: ep_ok_def split: option.split endpoint_backend.split)
  then have pod: "table_ok B (apply_local_pod ?ip et)"
    using ok B by (auto simp: apply_local_pod_def ep_ok_def Let_def flow_tracker_new_def
        split: option.splits endpoint_backend.splits intro!: table_ok_put table_ok_drop)
  have "table_ok B (fst (apply_service host mk ?ip sid pol b et))" if "es_kind spec = PkService sid pol b" for sid pol b
    using apply_service_ok [OF ok] c that by (simp add: spec_cap_def)
  then show ?thesis using rem unpl peer pod
    by (auto simp: apply_single_spec_def Let_def split: proto_endpoint_kind.split option.split)
qed

lemma apply_specs_ok:
  "table_ok B et \<Longrightarrow> 64 \<le> B \<Longrightarrow> list_all (\<lambda>s. spec_cap s \<le> B) specs \<Longrightarrow> table_ok B (fst (apply_specs host mk me adapter specs et))"
proof (induction specs arbitrary: et)
  case (Cons s specs)
  then show ?case using apply_single_spec_ok [OF Cons.prems(1,2), of s host mk me adapter] by (auto simp: case_prod_beta Let_def)
qed simp

lemma fold_remove_ok: "table_ok B et \<Longrightarrow> table_ok B (fold (\<lambda>ip et. remove_ip et ip) ips et)"
  by (induction ips arbitrary: et) (simp_all add: table_ok_remove)

lemma apply_endpoint_ok:
  assumes "table_ok B et" "64 \<le> B" "list_all (\<lambda>s. spec_cap s \<le> B) specs"
  shows "table_ok B (fst (apply_endpoint_sync host mk me adapter specs et))"
    and "table_ok B (fst (apply_endpoint_update host mk me adapter specs removed et))"
  using assms by (simp_all add: apply_endpoint_sync_def apply_endpoint_update_def Let_def apply_specs_ok fold_remove_ok)

section \<open>The invariant of the fabric\<close>

lemma conntrack_lookup_distinct: "distinct (map fst ct) \<Longrightarrow> distinct (map fst (fst (conntrack_lookup now key ct)))"
  by (simp add: conntrack_lookup_def Let_def distinct_update split: option.split)

interpretation inv: frame_path host "\<lambda>fb fb'. fabric_ok B fb \<longrightarrow> fabric_ok B fb'" for host :: "('w, 'sm) host" and B
proof unfold_locales
  fix fb :: "('w, 'sm) fabric" and now ip frame skip service_ip pod_ip
  show "fabric_ok B fb \<longrightarrow> fabric_ok B (fb\<lparr>fb_endpoint_table := fst (lookup_and_buffer host now ip frame skip (fb_endpoint_table fb))\<rparr>)"
    by (simp add: fabric_ok_def table_ok_lookup)
  show "fabric_ok B fb \<longrightarrow> fabric_ok B (fb\<lparr>fb_endpoint_table := fst (handle_timeout_for_ip host ip (fb_endpoint_table fb))\<rparr>)"
    by (simp add: fabric_ok_def table_ok_timeout)
  show "fabric_ok B fb \<longrightarrow> fabric_ok B (insert_conntrack_entry now frame service_ip pod_ip fb)"
    by (simp add: fabric_ok_def insert_conntrack_entry_def case_prod_beta Let_def conntrack_insert_distinct split: option.split)
  show "fabric_ok B fb \<longrightarrow> fabric_ok B (fst (reverse_dnat now frame fb))"
    by (simp add: fabric_ok_def reverse_dnat_def case_prod_beta Let_def conntrack_lookup_distinct split: option.split)
qed auto

lemma flush_service_frames_ok: "fabric_ok B fb \<Longrightarrow> fabric_ok B (fst (flush_service_frames now frames b s fb))"
proof -
  have t: "distinct (map fst ct) \<Longrightarrow> distinct (map fst (track_flushed_frame now b s f ct))" for f ct
    by (simp add: track_flushed_frame_def case_prod_beta Let_def conntrack_insert_distinct split: option.split)
  have "distinct (map fst ct) \<Longrightarrow> distinct (map fst (fold (track_flushed_frame now b s) frames ct))" for ct
    by (induction frames arbitrary: ct) (simp_all add: t)
  then show "fabric_ok B fb \<Longrightarrow> ?thesis" by (simp add: fabric_ok_def flush_service_frames_def split: option.split)
qed

lemma flush_services_ok: "fabric_ok B fb \<Longrightarrow> fabric_ok B (fst (flush_services now ds fb))"
proof (induction ds arbitrary: fb)
  case (Cons d ds)
  then show ?case using flush_service_frames_ok [OF Cons.prems, of now "sfd_frames d" "sfd_backend_ip d" "sfd_service_ip d"]
    by (simp add: case_prod_beta Let_def)
qed simp

lemma fabric_ok_table: "fabric_ok B fb \<Longrightarrow> table_ok B et \<Longrightarrow> fabric_ok B (fb\<lparr>fb_endpoint_table := et\<rparr>)"
  by (simp add: fabric_ok_def)

lemma fabric_ok_tableD: "fabric_ok B fb \<Longrightarrow> table_ok B (fb_endpoint_table fb)"
  by (simp add: fabric_ok_def)

lemma add_port_ok:
  assumes "fabric_ok B fb" shows "fabric_ok B (fst (snd (add_port_inner now pod_ip fb)))"
proof (cases pod_ip)
  case None
  then show ?thesis using assms by (simp add: add_port_inner_def Let_def fabric_ok_def)
next
  case (Some ip)
  let ?fb = "fb\<lparr>fb_next_port_id := fb_next_port_id fb + 1, fb_ports := fb_next_port_id fb # fb_ports fb\<rparr>"
  let ?et = "fst (flush_by_backend_ip ip (fst (attach_port ip (fb_next_port_id fb) (fb_endpoint_table fb))))"
  have "fabric_ok B (?fb\<lparr>fb_endpoint_table := ?et\<rparr>)"
    using assms by (simp add: fabric_ok_def table_ok_flush_backend table_ok_attach)
  from flush_services_ok [OF this] show ?thesis by (simp add: add_port_inner_def Some Let_def case_prod_beta)
qed

lemma handle_service_ready_ok:
  assumes ok: "fabric_ok B fb" and h: "handle_service_ready fuel host now sid fb = Some (fb', fx)"
  shows "fabric_ok B fb'"
proof -
  obtain et r where m: "mark_service_ready host sid (fb_endpoint_table fb) = (et, r)" by fastforce
  let ?fb = "fb\<lparr>fb_endpoint_table := et\<rparr>"
  have ok1: "fabric_ok B ?fb" using ok table_ok_mark_ready [of B "fb_endpoint_table fb" host sid] by (simp add: fabric_ok_def m)
  show ?thesis
  proof (cases r)
    case None
    then show ?thesis using h ok1 by (simp add: handle_service_ready_def m)
  next
    case (Some mr)
    show ?thesis
    proof (cases mr)
      case (MarkPassthrough frames b s as)
      obtain f1 x1 where f: "(if frames \<noteq> [] then flush_service_frames now frames b s ?fb else (?fb, [])) = (f1, x1)" by fastforce
      have "fabric_ok B f1" using ok1 flush_service_frames_ok [OF ok1, of now frames b s] f by (auto split: if_splits)
      moreover obtain z where "fabric_dispatch_actions fuel host now as sid f1 = Some (fb', z)"
        using h Some MarkPassthrough f by (auto simp: handle_service_ready_def m effects_Some)
      ultimately show ?thesis using inv.path_dispatch_actions by blast
    next
      case (MarkL4 act)
      then show ?thesis using h Some ok1
        by (cases act) (auto simp: handle_service_ready_def m effects_Some Let_def
            dest!: inv.path_dispatch_actions [where B = B])
    qed
  qed
qed

lemma handle_effects_ok:
  "handle_endpoint_effects fuel host now es fb = Some (fb', fx, evs) \<Longrightarrow> fabric_ok B fb \<Longrightarrow> fabric_ok B fb'"
proof (induction es arbitrary: fb fx evs)
  case (Cons e es)
  have one: "fabric_ok B f'" if "handle_endpoint_effect fuel host now e fb = Some (f', x, v)" for f' x v
  proof (cases e)
    case (ServiceReady sid)
    then show ?thesis using that handle_service_ready_ok [OF Cons.prems(2)] by (auto simp: handle_endpoint_effect_def)
  next
    case (FlushPodBuffer ip)
    then show ?thesis using that Cons.prems(2) table_ok_flush_pod [of B "fb_endpoint_table fb" ip]
      by (auto simp: handle_endpoint_effect_def fabric_ok_def case_prod_beta Let_def)
  qed (use that Cons.prems(2) in \<open>auto simp: handle_endpoint_effect_def\<close>)
  show ?case using Cons.prems Cons.IH one by (auto split: option.splits prod.splits)
qed simp

text \<open>Everything that can happen to a fabric: frames, ports, timers, and messages of the orchestrator.\<close>

inductive fabric_step ::
  "nat \<Rightarrow> ('w, 'sm) host \<Rightarrow> ('w, 'sm) make_processor \<Rightarrow> worker_id \<Rightarrow> ('w, 'sm) fabric \<Rightarrow> ('w, 'sm) fabric \<Rightarrow> bool"
  for B host mk me where
  step_port: "port_receive fuel host now p frame fb = Some (fb', fx) \<Longrightarrow> fabric_step B host mk me fb fb'"
| step_gateway: "gateway_receive fuel host now frame fb = Some (fb', fx) \<Longrightarrow> fabric_step B host mk me fb fb'"
| step_poll: "poll_timer_fired fuel host now ip fb = Some (fb', fx) \<Longrightarrow> fabric_step B host mk me fb fb'"
| step_add_port: "add_port_inner now pod_ip fb = (p, fb', fx) \<Longrightarrow> fabric_step B host mk me fb fb'"
| step_add_tunnel: "add_tunnel_port now w fb = (p, fb') \<Longrightarrow> fabric_step B host mk me fb fb'"
| step_remove_tunnel: "fabric_step B host mk me fb (remove_tunnel_port w fb)"
| step_port_drop: "fabric_step B host mk me fb (port_guard_drop p fb)"
| step_set_gateway: "fabric_step B host mk me fb (set_gateway fb)"
| step_set_events: "fabric_step B host mk me fb (set_event_channel fb)"
| step_gc: "gc_tick now fb = (fb', fx) \<Longrightarrow> fabric_step B host mk me fb fb'"
| step_sync: "list_all (\<lambda>s. spec_cap s \<le> B) specs \<Longrightarrow> endpoint_sync fuel host now mk me adapter specs fb = Some (fb', fx, evs) \<Longrightarrow>
    fabric_step B host mk me fb fb'"
| step_update: "list_all (\<lambda>s. spec_cap s \<le> B) specs \<Longrightarrow>
    endpoint_update fuel host now mk me adapter specs removed fb = Some (fb', fx, evs) \<Longrightarrow> fabric_step B host mk me fb fb'"

lemma fabric_step_ok:
  assumes B: "64 \<le> B" and "fabric_step B host mk me fb fb'" and ok: "fabric_ok B fb"
  shows "fabric_ok B fb'"
  using assms(2) ok
proof cases
  case (step_add_port now pod_ip p fx)
  then show ?thesis using add_port_ok [OF ok, of now pod_ip] by simp
next
  case (step_add_tunnel now w p)
  then show ?thesis using add_port_ok [OF ok, of now None] by (auto simp: add_tunnel_port_def fabric_ok_def case_prod_beta Let_def)
next
  case (step_port_drop p)
  then show ?thesis using ok table_ok_detach [OF fabric_ok_tableD [OF ok] B] by (simp add: port_guard_drop_def fabric_ok_def)
next
  case (step_gc now fx)
  then show ?thesis using ok table_ok_gc [of B "fb_endpoint_table fb" now]
    by (auto simp: gc_tick_def fabric_ok_def conntrack_gc_def distinct_map_filter case_prod_beta Let_def)
next
  case (step_sync specs fuel now adapter fx evs)
  obtain et effs where a: "apply_endpoint_sync host mk me adapter specs (fb_endpoint_table fb) = (et, effs)" by fastforce
  have t: "table_ok B et" using apply_endpoint_ok(1) [OF fabric_ok_tableD [OF ok] B step_sync(1), of host mk me adapter] by (simp add: a)
  show ?thesis using step_sync(2) handle_effects_ok [OF _ fabric_ok_table [OF ok t]] by (auto simp: endpoint_sync_def a)
next
  case (step_update specs fuel now adapter removed fx evs)
  obtain et effs where a: "apply_endpoint_update host mk me adapter specs removed (fb_endpoint_table fb) = (et, effs)" by fastforce
  have t: "table_ok B et"
    using apply_endpoint_ok(2) [OF fabric_ok_tableD [OF ok] B step_update(1), of host mk me adapter removed] by (simp add: a)
  show ?thesis using step_update(2) handle_effects_ok [OF _ fabric_ok_table [OF ok t]] by (auto simp: endpoint_update_def a)
next
  case (step_port fuel now p frame fx)
  then show ?thesis using ok inv.path_receive(1) by blast
next
  case (step_gateway fuel now frame fx)
  then show ?thesis using ok inv.path_receive(2) by blast
next
  case (step_poll fuel now ip fx)
  then show ?thesis using ok inv.path_poll by blast
qed (use ok in \<open>simp_all add: remove_tunnel_port_def set_gateway_def set_event_channel_def fabric_ok_def\<close>)

section \<open>What a synchronisation makes of the table\<close>

text \<open>The local view of an endpoint, derived from its specification and from the old entry.\<close>

fun spec_view ::
  "worker_id \<Rightarrow> port_id option \<Rightarrow> endpoint_spec \<Rightarrow> (ipv4 \<times> fabric_endpoint_state \<times> bk_view) option \<Rightarrow>
   (ipv4 \<times> fabric_endpoint_state \<times> bk_view) option" where
  "spec_view me adapter spec old =
     (let ip = es_ip spec;
          unplaced = (case old of Some v \<Rightarrow> Some v
            | None \<Rightarrow> Some (ip, EpBuffering, VUnplaced \<lparr>bp_buffer_frames = 64, bp_timeout_ms = 30000\<rparr>))
      in case es_kind spec of
           PkPod (Some p) \<Rightarrow>
             if epl_worker_id p = me
             then (case old of
                     Some (_, _, VPod (Some port)) \<Rightarrow> Some (ip, EpReady, VPod (Some port))
                   | _ \<Rightarrow> Some (ip, EpPending, VPod None))
             else Some (ip, EpReady, VRemote (epl_worker_id p))
         | PkPod None \<Rightarrow> unplaced
         | PkWireGuardPeer (Some p) \<Rightarrow>
             if epl_worker_id p = me
             then (case adapter of Some port \<Rightarrow> Some (ip, EpReady, VAdapter port) | None \<Rightarrow> old)
             else Some (ip, EpReady, VRemote (epl_worker_id p))
         | PkWireGuardPeer None \<Rightarrow> unplaced
         | PkService sid policy backend \<Rightarrow>
             (case service_backend_state backend of (st, b) \<Rightarrow> Some (ip, st, VService sid policy b)))"

lemma table_view_ids [simp]:
  "table_view (et\<lparr>et_service_id_to_ip := m\<rparr>) = table_view et" "table_view (drop_service_mapping ip et) = table_view et"
  by (simp_all add: table_view_def fun_eq_iff)

lemma update_service_view:
  "fe_backend ep = BkService sid pol0 b0 proc \<Longrightarrow>
   endpoint_view (fst (update_service host ip sid pol st b ep)) = (fe_ip ep, st, VService sid pol b)"
  by (simp add: update_service_def endpoint_view_def Let_def drain_buffer_def)

lemma apply_service_view:
  assumes "\<And>ep. map_of (et_by_ip et) ip = Some ep \<Longrightarrow> fe_ip ep = ip" "service_backend_state backend = (st, b)"
  shows "table_view (fst (apply_service host mk ip sid pol backend et)) = (table_view et)(ip \<mapsto> (ip, st, VService sid pol b))"
proof -
  have c: "table_view (fst (create_service mk ip sid pol st b et)) = (table_view et)(ip \<mapsto> (ip, st, VService sid pol b))"
    by (simp add: create_service_def Let_def table_view_put endpoint_view_def split: option.split)
  have "table_view (ep_put ip (fst (update_service host ip sid pol st b ep)) et) = (table_view et)(ip \<mapsto> (ip, st, VService sid pol b))"
    if ep: "map_of (et_by_ip et) ip = Some ep" and r: "can_reuse_processor sid pol (Some ep)" for ep
  proof -
    obtain pol0 b0 proc where "fe_backend ep = BkService sid pol0 b0 proc"
      using r by (auto simp: can_reuse_processor_def split: endpoint_backend.splits)
    then show ?thesis using update_service_view [of ep] assms(1) [OF ep] by (simp add: table_view_put)
  qed
  then show ?thesis using c by (simp add: apply_service_def assms(2) case_prod_beta split: option.split)
qed

lemma apply_single_spec_view:
  assumes "\<And>ep. map_of (et_by_ip et) (es_ip spec) = Some ep \<Longrightarrow> fe_ip ep = es_ip spec"
  shows "table_view (fst (apply_single_spec host mk me adapter spec et)) =
    (table_view et)(es_ip spec := spec_view me adapter spec (table_view et (es_ip spec)))"
proof -
  let ?ip = "es_ip spec"
  have pod: "table_view (apply_local_pod ?ip et) = (table_view et)(?ip := (case table_view et ?ip of
      Some (_, _, VPod (Some port)) \<Rightarrow> Some (?ip, EpReady, VPod (Some port)) | _ \<Rightarrow> Some (?ip, EpPending, VPod None)))"
    by (cases "map_of (et_by_ip et) ?ip"; cases "fe_backend (the (map_of (et_by_ip et) ?ip))")
       (auto simp: apply_local_pod_def Let_def table_view_put endpoint_view_def table_view_def [of et] split: option.split)
  have rem: "table_view (fst (apply_remote_pod ?ip w et)) = (table_view et)(?ip \<mapsto> (?ip, EpReady, VRemote w))"
    "table_view (fst (apply_remote_peer ?ip w et)) = (table_view et)(?ip \<mapsto> (?ip, EpReady, VRemote w))" for w
    by (simp_all add: apply_remote_pod_def apply_remote_peer_def table_view_put endpoint_view_def remote_endpoint_def)
  have unpl: "table_view (apply_unplaced ?ip et) = (table_view et)(?ip := (case table_view et ?ip of Some v \<Rightarrow> Some v
      | None \<Rightarrow> Some (?ip, EpBuffering, VUnplaced \<lparr>bp_buffer_frames = 64, bp_timeout_ms = 30000\<rparr>)))"
    by (cases "map_of (et_by_ip et) ?ip")
       (auto simp: apply_unplaced_def table_view_put endpoint_view_def fun_eq_iff table_view_def)
  have peer: "table_view (fst (apply_local_peer ?ip adapter et)) = (table_view et)(?ip := (case adapter of
      Some port \<Rightarrow> Some (?ip, EpReady, VAdapter port) | None \<Rightarrow> table_view et ?ip))"
    by (cases adapter) (auto simp: apply_local_peer_def Let_def table_view_put endpoint_view_def)
  show ?thesis
  proof (cases "es_kind spec")
    case (PkService sid pol backend)
    obtain st b where sb: "service_backend_state backend = (st, b)" by fastforce
    show ?thesis using apply_service_view [OF assms sb] PkService sb by (simp add: apply_single_spec_def)
  next
    case (PkPod pl)
    show ?thesis
    proof (cases pl)
      case None
      then show ?thesis using unpl PkPod by (simp add: apply_single_spec_def Let_def)
    next
      case (Some p)
      then show ?thesis using pod rem PkPod by (cases "epl_worker_id p = me") (simp_all add: apply_single_spec_def Let_def)
    qed
  next
    case (PkWireGuardPeer pl)
    show ?thesis
    proof (cases pl)
      case None
      then show ?thesis using unpl PkWireGuardPeer by (simp add: apply_single_spec_def Let_def)
    next
      case (Some p)
      then show ?thesis using peer rem PkWireGuardPeer by (cases "epl_worker_id p = me") (simp_all add: apply_single_spec_def Let_def)
    qed
  qed
qed

definition ips_ok :: "('w, 'sm) endpoint_table \<Rightarrow> bool" where
  "ips_ok et \<longleftrightarrow> (\<forall>ip a st v. table_view et ip = Some (a, st, v) \<longrightarrow> a = ip)"

lemma ips_ok_map: "ips_ok et \<Longrightarrow> map_of (et_by_ip et) ip = Some ep \<Longrightarrow> fe_ip ep = ip"
  by (simp add: ips_ok_def table_view_def endpoint_view_def)

lemma spec_view_ip: "spec_view me adapter spec old = Some (a, st, v) \<Longrightarrow> (\<And>a st v. old = Some (a, st, v) \<Longrightarrow> a = es_ip spec) \<Longrightarrow> a = es_ip spec"
  by (auto simp: Let_def split: option.splits proto_endpoint_kind.splits if_splits bk_view.splits prod.splits)

lemma apply_specs_view:
  "ips_ok et \<Longrightarrow> distinct (map es_ip specs) \<Longrightarrow>
   table_view (fst (apply_specs host mk me adapter specs et)) ip =
     (case find (\<lambda>s. es_ip s = ip) specs of Some s \<Rightarrow> spec_view me adapter s (table_view et ip) | None \<Rightarrow> table_view et ip)"
proof (induction specs arbitrary: et)
  case (Cons s specs)
  let ?et = "fst (apply_single_spec host mk me adapter s et)"
  have v: "table_view ?et = (table_view et)(es_ip s := spec_view me adapter s (table_view et (es_ip s)))"
    using Cons.prems(1) by (intro apply_single_spec_view) (rule ips_ok_map)
  have ok: "ips_ok ?et" using Cons.prems(1) unfolding ips_ok_def v by (auto simp del: spec_view.simps dest!: spec_view_ip split: if_splits)
  have "find (\<lambda>t. es_ip t = es_ip s) specs = None" using Cons.prems(2) by (auto simp: find_None_iff) (metis image_eqI)
  then show ?case using Cons.IH [OF ok] Cons.prems(2) v
    by (cases "find (\<lambda>s. es_ip s = ip) specs") (auto simp: case_prod_beta Let_def simp del: spec_view.simps)
qed simp

lemma remove_view: "table_view (remove_ip et ip) = (table_view et)(ip := None)"
  by (simp add: remove_ip_def Let_def table_view_def fun_eq_iff delete_conv')

lemma fold_remove_view:
  "table_view (fold (\<lambda>ip et. remove_ip et ip) ips et) ip = (if ip \<in> set ips then None else table_view et ip)"
  by (induction ips arbitrary: et) (auto simp: remove_view)

lemma apply_endpoint_view:
  assumes "ips_ok et" "distinct (map es_ip specs)"
  shows "table_view (fst (apply_endpoint_sync host mk me adapter specs et)) ip =
      (case find (\<lambda>s. es_ip s = ip) specs of Some s \<Rightarrow> spec_view me adapter s (table_view et ip) | None \<Rightarrow> None)"
    and "table_view (fst (apply_endpoint_update host mk me adapter specs removed et)) ip =
      (let old = (if ip \<in> set removed then None else table_view et ip)
       in case find (\<lambda>s. es_ip s = ip) specs of Some s \<Rightarrow> spec_view me adapter s old | None \<Rightarrow> old)"
proof -
  have ok: "ips_ok (fold (\<lambda>ip et. remove_ip et ip) ips et)" for ips
    using assms(1) by (auto simp: ips_ok_def fold_remove_view split: if_splits)
  have n: "table_view et ip = None" if "ip \<notin> set (map fst (et_by_ip et))" for ip
    using that by (simp add: table_view_def map_of_eq_None_iff)
  show "table_view (fst (apply_endpoint_sync host mk me adapter specs et)) ip =
      (case find (\<lambda>s. es_ip s = ip) specs of Some s \<Rightarrow> spec_view me adapter s (table_view et ip) | None \<Rightarrow> None)"
  proof (cases "find (\<lambda>s. es_ip s = ip) specs")
    case None
    then have "ip \<notin> set (map es_ip specs)" by (auto simp: find_None_iff)
    then show ?thesis using None n [of ip] apply_specs_view [OF ok assms(2)]
      by (auto simp: apply_endpoint_sync_def Let_def fold_remove_view)
  next
    case (Some s)
    then have "ip \<in> set (map es_ip specs)" by (auto simp: find_Some_iff)
    then show ?thesis using Some apply_specs_view [OF ok assms(2)]
      by (simp add: apply_endpoint_sync_def Let_def fold_remove_view del: spec_view.simps)
  qed
  show "table_view (fst (apply_endpoint_update host mk me adapter specs removed et)) ip =
      (let old = (if ip \<in> set removed then None else table_view et ip)
       in case find (\<lambda>s. es_ip s = ip) specs of Some s \<Rightarrow> spec_view me adapter s old | None \<Rightarrow> old)"
    using apply_specs_view [OF ok assms(2)] 
    by (simp add: apply_endpoint_update_def Let_def fold_remove_view del: spec_view.simps split: option.split)
qed

section \<open>Buffering for a pod that is starting\<close>

fun lookup_all ::
  "('w, 'sm) host \<Rightarrow> ipv4 \<Rightarrow> (instant \<times> u8 list) list \<Rightarrow> ('w, 'sm) endpoint_table \<Rightarrow> ('w, 'sm) endpoint_table \<times> endpoint_action list" where
  "lookup_all host ip [] et = (et, [])"
| "lookup_all host ip ((now, frame) # rest) et =
     (let (et, act, _, _) = lookup_and_buffer host now ip frame False et;
          (et, acts) = lookup_all host ip rest et
      in (et, act # acts))"

lemma lookup_pending:
  assumes ep: "map_of (et_by_ip et) ip = Some ep" and bk: "fe_backend ep = BkLocalPod None"
    and room: "length (fe_buffer ep) < 64" and fresh: "\<And>s. fe_buffer_start ep = Some s \<Longrightarrow> now - s < from_millis 30000"
  shows "\<exists>et' ep' sa fc. lookup_and_buffer host now ip frame False et = (et', BufferedFrame None, sa, fc) \<and>
    map_of (et_by_ip et') ip = Some ep' \<and> fe_backend ep' = BkLocalPod None \<and> fe_buffer ep' = fe_buffer ep @ [frame] \<and>
    fe_buffer_start ep' = Some (case fe_buffer_start ep of Some s \<Rightarrow> s | None \<Rightarrow> now)"
proof -
  obtain ep1 fc where tr: "track_flow now frame ep = (ep1, fc)" by fastforce
  have t: "fe_backend ep1 = BkLocalPod None" "fe_buffer ep1 = fe_buffer ep" "fe_buffer_start ep1 = fe_buffer_start ep"
    using track_flow_view [of now frame ep] bk by (simp_all add: tr)
  obtain ep2 sa where d: "check_activation_debounce (et_activation_debounce et) now ep1 = (ep2, sa)" by fastforce
  have t2: "fe_backend ep2 = BkLocalPod None" "fe_buffer ep2 = fe_buffer ep" "fe_buffer_start ep2 = fe_buffer_start ep"
    using debounce_view [of "et_activation_debounce et" now ep1] t by (simp_all add: d)
  have "fst (try_buffer_frame frame 64 30000 now ep2) = ep2\<lparr>fe_buffer_start := (case fe_buffer_start ep2 of None \<Rightarrow> Some now | s \<Rightarrow> s),
      fe_buffer := fe_buffer ep2 @ [frame]\<rparr> \<and> snd (try_buffer_frame frame 64 30000 now ep2)"
    using room fresh t2 by (cases "fe_buffer_start ep") (auto simp: try_buffer_frame_def not_le not_less)
  then obtain b where "try_buffer_frame frame 64 30000 now ep2 = (ep2\<lparr>fe_buffer_start := (case fe_buffer_start ep2 of None \<Rightarrow> Some now | s \<Rightarrow> s),
      fe_buffer := fe_buffer ep2 @ [frame]\<rparr>, b)" "b" by (metis prod.collapse)
  then show ?thesis using ep t t2
    by (auto simp: lookup_and_buffer_def tr dispatch_local_pod_pending_def debounce_and_buffer_def d Let_def split: option.split)
qed

lemma lookup_all_pending:
  assumes "map_of (et_by_ip et) ip = Some ep" "fe_backend ep = BkLocalPod None" "length (fe_buffer ep) + length fs \<le> 64"
    and "\<And>now. now \<in> set (map fst fs) \<Longrightarrow> now - t0 < from_millis 30000"
    and "fe_buffer_start ep = Some t0 \<or> fe_buffer_start ep = None \<and> (\<forall>x rest. fs = x # rest \<longrightarrow> fst x = t0)"
  shows "\<exists>et' ep'. lookup_all host ip fs et = (et', replicate (length fs) (BufferedFrame None)) \<and>
    map_of (et_by_ip et') ip = Some ep' \<and> fe_backend ep' = BkLocalPod None \<and> fe_buffer ep' = fe_buffer ep @ map snd fs"
  using assms
proof (induction fs arbitrary: et ep)
  case (Cons x fs)
  obtain now frame where x: "x = (now, frame)" by fastforce
  have s: "now - s < from_millis 30000" if "fe_buffer_start ep = Some s" for s using Cons.prems(4,5) that by (auto simp: x)
  obtain et1 ep1 sa fc where 1: "lookup_and_buffer host now ip frame False et = (et1, BufferedFrame None, sa, fc)"
    "map_of (et_by_ip et1) ip = Some ep1" "fe_backend ep1 = BkLocalPod None" "fe_buffer ep1 = fe_buffer ep @ [frame]"
    "fe_buffer_start ep1 = Some (case fe_buffer_start ep of Some s \<Rightarrow> s | None \<Rightarrow> now)"
    using lookup_pending [OF Cons.prems(1,2) _ s, of host frame] Cons.prems(3) by auto
  have "fe_buffer_start ep1 = Some t0" using 1(5) Cons.prems(5) by (auto simp: x split: option.splits)
  then obtain et' ep' where "lookup_all host ip fs et1 = (et', replicate (length fs) (BufferedFrame None))"
    "map_of (et_by_ip et') ip = Some ep'" "fe_backend ep' = BkLocalPod None" "fe_buffer ep' = fe_buffer ep1 @ map snd fs"
    using Cons.IH [OF 1(2,3)] Cons.prems(3,4) 1(4) by auto
  then show ?case using 1 by (simp add: x)
qed auto

section \<open>Where frames and demand get lost\<close>

text \<open>
  Frames buffered for an unplaced pod: if the pod is placed on another worker, the entry is
  replaced before the flush that the message asks for, which then finds nothing.
\<close>

lemma remote_placement_drops_buffer:
  assumes "map_of (et_by_ip et) ip = Some ep" "fe_state ep = EpBuffering" "fe_buffer ep \<noteq> []"
  shows "apply_remote_pod ip w et = (ep_put ip (remote_endpoint ip w) et, [FlushPodBuffer ip]) \<and>
    flush_pod_buffer ip (fst (apply_remote_pod ip w et)) = (fst (apply_remote_pod ip w et), [])"
  using assms by (simp add: apply_remote_pod_def was_buffering_def flush_pod_buffer_def remote_endpoint_def)

text \<open>
  Frames buffered for a service: when it gets ready with a backend on another worker, the
  flush resolves the backend among the local ports only and drops them.
\<close>

lemma remote_backend_flush_drops:
  assumes "table_view (fb_endpoint_table fb) b = Some (a, st, VRemote w)"
  shows "flush_service_frames now frames b s fb = (fb, [])"
  using assms by (auto simp: flush_service_frames_def resolve_ip_def get_port_id_def table_view_def endpoint_view_def)

text \<open>
  A pod specification that is applied again replaces the flow tracker, so the end of the flows
  it had is never reported.
\<close>

lemma reapplied_pod_forgets_flows:
  assumes "map_of (et_by_ip et) ip = Some ep" "fe_backend ep = BkLocalPod (Some p)" "fe_flow_tracker ep = Some ft" "has_active_flows ft"
    and "es_ip spec = ip" "es_kind spec = PkPod (Some \<lparr>epl_worker_id = me\<rparr>)"
  shows "\<exists>et' ep'. apply_single_spec host mk me adapter spec et = (et', []) \<and> map_of (et_by_ip et') ip = Some ep' \<and>
    fe_flow_tracker ep' = Some [] \<and> \<not> has_active_flows []"
  using assms by (simp add: apply_single_spec_def apply_local_pod_def Let_def flow_tracker_new_def has_active_flows_def)

text \<open>
  Two services that exchange their addresses in one message: the second one's entry removes the
  mapping the first one has just made, and the first service is no longer found by its id.
\<close>

lemma exchanged_services_lose_mapping:
  "let svc = (\<lambda>ip sid. \<lparr>es_ip = ip, es_kind = PkService (ServiceId sid) example_policy None\<rparr>);
       sync = (\<lambda>specs et. fst (apply_endpoint_sync example_host (\<lambda>_ _ _. passthrough_processor) (WorkerId 1) None specs et));
       et = sync [svc 2 1, svc 1 2] (sync [svc 1 1, svc 2 2] endpoint_table_new)
   in get_service_ip (ServiceId 1) et = None \<and> map_option snd (map_option snd (table_view et 2)) = Some (VService (ServiceId 1) example_policy None)"
  by (simp add: Let_def apply_endpoint_sync_def apply_single_spec_def apply_service_def create_service_def can_reuse_processor_def
      service_backend_state_def drop_service_mapping_def ep_put_def endpoint_table_new_def get_service_ip_def table_view_def
      endpoint_view_def)

section \<open>Properties\<close>

text \<open>
  C4. In every state a fabric can reach, each endpoint is stored under its own address, its
  state fits its backend (a service buffers exactly when it has no backend, a local pod is
  ready exactly when its port is attached), no buffer holds more frames than the largest
  configured bound, an endpoint that can be reached has an empty buffer, and every table
  has one entry per key.
\<close>

theorem fabric_reachable_ok:
  assumes "64 \<le> B" "(fabric_step B host mk me)\<^sup>*\<^sup>* (fabric_new gateway_ip prefix_len) fb"
  shows "fabric_ok B fb"
  using assms(2)
proof (induction rule: rtranclp_induct)
  case base
  show ?case by (simp add: fabric_ok_def table_ok_def fabric_new_def endpoint_table_new_def conntrack_new_def)
next
  case (step fb fb')
  then show ?case using fabric_step_ok [OF assms(1)] by blast
qed

theorem fabric_reachable_ok_witness:
  "fabric_ok 64 (set_gateway (fabric_new 0x0A0000FE 24 :: (unit, unit) fabric))"
proof (rule fabric_reachable_ok [of 64 example_host "\<lambda>_ _ _. passthrough_processor" "WorkerId 1" "0x0A0000FE" 24])
  show "(fabric_step 64 example_host (\<lambda>_ _ _. passthrough_processor) (WorkerId 1))\<^sup>*\<^sup>* (fabric_new 0x0A0000FE 24)
      (set_gateway (fabric_new 0x0A0000FE 24))" by (rule r_into_rtranclp) (rule step_set_gateway)
qed simp


definition example_specs :: "endpoint_spec list" where
  "example_specs = [\<lparr>es_ip = 0x0A000001, es_kind = PkPod (Some \<lparr>epl_worker_id = WorkerId 1\<rparr>)\<rparr>,
     \<lparr>es_ip = 0x0A000002, es_kind = PkService (ServiceId 7) example_policy None\<rparr>]"


text \<open>
  C15. Frames for a pod that is placed here but has no port yet are kept, up to 64 of them for
  up to 30 seconds, and attaching the port returns exactly these frames in the order of their
  arrival and leaves the buffer empty.
\<close>

theorem pending_pod_fifo:
  assumes "map_of (et_by_ip et) ip = Some ep" "fe_backend ep = BkLocalPod None" "fe_buffer ep = []" "fe_buffer_start ep = None"
    and "length frames \<le> 64" "list_all (\<lambda>(now, _). now - fst (hd frames) < from_millis 30000) frames"
  shows "\<exists>et' et'' ep''. lookup_all host ip frames et = (et', replicate (length frames) (BufferedFrame None)) \<and>
    attach_port ip port et' = (et'', Inr (map snd frames)) \<and>
    map_of (et_by_ip et'') ip = Some ep'' \<and> fe_buffer ep'' = [] \<and> fe_backend ep'' = BkLocalPod (Some port)"
proof -
  have t: "now - fst (hd frames) < from_millis 30000" if "now \<in> set (map fst frames)" for now
    using that assms(6) by (auto simp: list_all_iff)
  obtain et' ep' where "lookup_all host ip frames et = (et', replicate (length frames) (BufferedFrame None))"
    "map_of (et_by_ip et') ip = Some ep'" "fe_backend ep' = BkLocalPod None" "fe_buffer ep' = map snd frames"
    using lookup_all_pending [OF assms(1,2) _ t, where host = host and fs = frames] assms(3-5) by auto
  then show ?thesis by (auto simp: attach_port_def drain_buffer_def)
qed

definition example_pending :: "(unit, unit) endpoint_table" where
  "example_pending = apply_local_pod 0x0A000002 endpoint_table_new"

theorem pending_pod_fifo_witness:
  "\<exists>et' et'' ep''. lookup_all example_host 0x0A000002 [(10, example_frame), (20, example_reply)] example_pending =
     (et', [BufferedFrame None, BufferedFrame None]) \<and>
   attach_port 0x0A000002 1 et' = (et'', Inr [example_frame, example_reply]) \<and>
   map_of (et_by_ip et'') 0x0A000002 = Some ep'' \<and> fe_buffer ep'' = []"
  using pending_pod_fifo [of example_pending "0x0A000002" _ "[(10, example_frame), (20, example_reply)]" example_host 1]
  by (auto simp: example_pending_def apply_local_pod_def endpoint_table_new_def drop_service_mapping_def ep_put_def Let_def
      from_millis_def numeral_2_eq_2)

end
