(* ===== verification/Tcp_Activator.thy ===== *)
theory Tcp_Activator
  imports Activator_Types "HOL-Library.AList"
begin

unbundle bit_operations_syntax

text \<open>
  The TCP activator (\<open>activators/tcp\<close>): it keeps the first frame of every flow that
  arrives while the backend is absent, asks for the backend, and replays the frames when
  the backend is there.  The hash map of flows is an association list; the order of the
  replays is the order of the list.
\<close>

definition MAX_FLOWS :: nat where
  "MAX_FLOWS = 1024"

type_synonym tcp_activator = "(packet_flow \<times> u8 list) list"

definition tcp_activator_new :: tcp_activator where
  "tcp_activator_new = []"

definition tcp_store :: "packet_info \<Rightarrow> tcp_activator \<Rightarrow> tcp_activator" where
  "tcp_store info flows =
     (if length flows < MAX_FLOWS then AList.update (pki_flow info) (pki_raw_frame info) flows else flows)"

definition tcp_packet :: "packet_info \<Rightarrow> tcp_activator \<Rightarrow> tcp_activator \<times> action list" where
  "tcp_packet info flows =
     (let flow = pki_flow info;
          tcp_flags = unwrap_or (pki_tcp_flags info) 0;
          is_syn = (tcp_flags AND 0x02 \<noteq> 0);
          is_rst = (tcp_flags AND 0x04 \<noteq> 0);
          known = (map_of flows flow \<noteq> None)
      in if is_rst then (flows, [PacketDecision flow DecisionDrop])
         else if is_syn then
           (if \<not> known
            then (tcp_store info flows, [PacketDecision flow DecisionBuffered, SetBackendNeed NeedTraffic])
            else (flows, [PacketDecision flow DecisionBuffered]))
         else if known then (flows, [PacketDecision flow DecisionBuffered])
         else (tcp_store info flows, [PacketDecision flow DecisionBuffered, SetBackendNeed NeedTraffic]))"

definition tcp_event :: "act_event \<Rightarrow> tcp_activator \<Rightarrow> tcp_activator \<times> action list" where
  "tcp_event ev flows =
     (case ev of
        EvPacket info \<Rightarrow> tcp_packet info flows
      | EvBackendAvailable available \<Rightarrow>
          if available then ([], map (\<lambda>(_, frame). ReplayPacket frame) flows) else (flows, [])
      | _ \<Rightarrow> (flows, []))"

fun tcp_process_events :: "act_event list \<Rightarrow> tcp_activator \<Rightarrow> tcp_activator \<times> action list" where
  "tcp_process_events [] flows = (flows, [])"
| "tcp_process_events (ev # evs) flows =
     (let (flows, actions) = tcp_event ev flows;
          (flows, more) = tcp_process_events evs flows
      in (flows, actions @ more))"

section \<open>Lemmas\<close>

definition is_rst :: "packet_info \<Rightarrow> bool" where
  "is_rst info \<longleftrightarrow> unwrap_or (pki_tcp_flags info) 0 AND 0x04 \<noteq> 0"

lemma tcp_store_inv:
  assumes "distinct (map fst flows)" "length flows \<le> MAX_FLOWS"
  shows "distinct (map fst (tcp_store info flows))" "length (tcp_store info flows) \<le> MAX_FLOWS"
proof -
  have "length (AList.update k v flows) \<le> Suc (length flows)" for k v by (induction flows) auto
  from this [of "pki_flow info" "pki_raw_frame info"] show "length (tcp_store info flows) \<le> MAX_FLOWS"
    using assms(2) by (simp add: tcp_store_def)
  show "distinct (map fst (tcp_store info flows))" using assms(1) by (simp add: tcp_store_def distinct_update)
qed

lemma tcp_event_inv:
  assumes "distinct (map fst flows)" "length flows \<le> MAX_FLOWS"
  shows "distinct (map fst (fst (tcp_event ev flows)))" "length (fst (tcp_event ev flows)) \<le> MAX_FLOWS"
  using assms tcp_store_inv [OF assms]
  by (simp_all add: tcp_event_def tcp_packet_def Let_def split: act_event.split)

text \<open>The first frame of a flow among a list of packets, and the flows there are.\<close>

fun first_frame :: "packet_flow \<Rightarrow> packet_info list \<Rightarrow> u8 list option" where
  "first_frame k [] = None"
| "first_frame k (p # ps) = (if pki_flow p = k \<and> \<not> is_rst p then Some (pki_raw_frame p) else first_frame k ps)"

definition live_flows :: "packet_info list \<Rightarrow> packet_flow set" where
  "live_flows ps = pki_flow ` {p \<in> set ps. \<not> is_rst p}"

lemma tcp_packet_state:
  "fst (tcp_packet p flows) = (if is_rst p \<or> map_of flows (pki_flow p) \<noteq> None then flows else tcp_store p flows)"
  by (simp add: tcp_packet_def Let_def is_rst_def)

lemma tcp_packets_map:
  assumes "distinct (map fst flows)" "card (dom (map_of flows) \<union> live_flows ps) \<le> MAX_FLOWS"
  shows "map_of (fst (tcp_process_events (map EvPacket ps) flows)) k =
    (case map_of flows k of Some f \<Rightarrow> Some f | None \<Rightarrow> first_frame k ps)"
  using assms
proof (induction ps arbitrary: flows)
  case (Cons p ps)
  let ?flows = "fst (tcp_packet p flows)"
  have fin: "finite (dom (map_of flows) \<union> live_flows (p # ps))" by (simp add: live_flows_def finite_dom_map_of)
  have sub: "dom (map_of flows) \<union> live_flows ps \<subseteq> dom (map_of flows) \<union> live_flows (p # ps)"
    by (auto simp: live_flows_def)
  have len: "length flows = card (dom (map_of flows))"
    using distinct_card [OF Cons.prems(1)] by (simp add: dom_map_of_conv_image_fst)
  have m: "map_of ?flows = (if is_rst p \<or> map_of flows (pki_flow p) \<noteq> None then map_of flows
      else (map_of flows)(pki_flow p \<mapsto> pki_raw_frame p))"
  proof (cases "is_rst p \<or> map_of flows (pki_flow p) \<noteq> None")
    case False
    then have "pki_flow p \<in> live_flows (p # ps)" "pki_flow p \<notin> dom (map_of flows)" by (auto simp: live_flows_def)
    moreover from this have "insert (pki_flow p) (dom (map_of flows)) \<subseteq> dom (map_of flows) \<union> live_flows (p # ps)" by auto
    then have "card (insert (pki_flow p) (dom (map_of flows))) \<le> MAX_FLOWS"
      using card_mono [OF fin] Cons.prems(2) le_trans by blast
    ultimately have "Suc (card (dom (map_of flows))) \<le> MAX_FLOWS" by (simp add: finite_dom_map_of)
    then show ?thesis using False len by (simp add: tcp_packet_state tcp_store_def update_conv')
  qed (simp add: tcp_packet_state)
  have d: "distinct (map fst ?flows)"
    using Cons.prems(1) by (simp add: tcp_packet_state tcp_store_def distinct_update)
  have "dom (map_of ?flows) \<union> live_flows ps \<subseteq> dom (map_of flows) \<union> live_flows (p # ps)"
    unfolding m using sub by (auto simp: live_flows_def split: if_splits)
  then have "card (dom (map_of ?flows) \<union> live_flows ps) \<le> MAX_FLOWS"
    using card_mono [OF fin] Cons.prems(2) by (meson le_trans)
  note ih = Cons.IH [OF d this]
  have "fst (tcp_process_events (map EvPacket (p # ps)) flows) = fst (tcp_process_events (map EvPacket ps) ?flows)"
    by (simp add: tcp_event_def case_prod_beta Let_def)
  then show ?case using ih by (auto simp: m split: option.split if_splits)
qed (simp split: option.split)

section \<open>Properties\<close>


definition example_packet :: "packet_flow \<Rightarrow> u8 \<Rightarrow> u8 list \<Rightarrow> packet_info" where
  "example_packet flow flags raw = \<lparr>pki_flow = flow, pki_src_addr = [10, 0, 0, 1], pki_dst_addr = [10, 0, 0, 2],
     pki_src_port = 1000, pki_dst_port = 80, pki_protocol = ProtoTcp, pki_tcp_flags = Some flags, pki_payload_len = 0,
     pki_raw_frame = raw\<rparr>"


end
