(* ===== verification/Activator_Lib.thy ===== *)
theory Activator_Lib
  imports Activator_Types Packet "HOL-Library.AList"
begin

text \<open>
  What the stream activators (\<open>activators/http2\<close>, \<open>activators/postgres\<close>) share: the loop that
  drains complete messages from a receive buffer, the fold of the events through a handler,
  the map from upstream to downstream streams, and two interfaces with the facts that follow
  from them.  \<open>framing\<close> is the contract of one turn of a receive loop, from which it follows that
  the loop ends and that its result does not depend on how the bytes were cut into chunks.
  \<open>need_contract\<close> is the contract of an event handler that reports the need for a backend.
\<close>

section \<open>Receive loops\<close>

text \<open>
  One turn of a \<open>loop { let Some(..) = parse(..) else { break }; .. }\<close> is a function to an
  option: \<open>None\<close> is the \<open>break\<close>.  The fuel is the length of the receive buffer, which every turn
  makes shorter.
\<close>

fun drain_loop :: "('s \<Rightarrow> ('s \<times> 'a list) option) \<Rightarrow> nat \<Rightarrow> 's \<Rightarrow> 's \<times> 'a list" where
  "drain_loop turn 0 s = (s, [])"
| "drain_loop turn (Suc n) s =
     (case turn s of
        None \<Rightarrow> (s, [])
      | Some (s, actions) \<Rightarrow>
          let (s, more) = drain_loop turn n s
          in (s, actions @ more))"

text \<open>Two results in sequence, with their actions.\<close>

definition then_do :: "'s \<times> 'a list \<Rightarrow> ('s \<Rightarrow> 's \<times> 'a list) \<Rightarrow> 's \<times> 'a list" where
  "then_do r f = (let (s, actions) = r; (s, more) = f s in (s, actions @ more))"

lemma then_do_Pair [simp]: "then_do (s, a) f = (fst (f s), a @ snd (f s))"
  by (simp add: then_do_def case_prod_beta)

lemma then_do_assoc: "then_do (then_do r f) g = then_do r (\<lambda>s. then_do (f s) g)"
  by (cases r) (simp add: then_do_def case_prod_beta)

lemma drain_loop_invariant:
  assumes "\<And>s s' a. P s \<Longrightarrow> turn s = Some (s', a) \<Longrightarrow> P s'" "P s"
  shows "P (fst (drain_loop turn n s))"
  using assms(2)
proof (induction n arbitrary: s)
  case (Suc n)
  show ?case
  proof (cases "turn s")
    case (Some r)
    then show ?thesis using Suc assms(1) [of s "fst r" "snd r"] by (cases r) (simp add: case_prod_beta)
  qed (simp add: Suc)
qed simp

locale framing =
  fixes turn :: "'s \<Rightarrow> ('s \<times> 'a list) option"
    and buffer :: "'s \<Rightarrow> u8 list"
    and extend :: "u8 list \<Rightarrow> 's \<Rightarrow> 's"
  assumes turn_consumes: "turn s = Some (s', actions) \<Longrightarrow> length (buffer s') < length (buffer s)"
    and turn_stable: "turn s = Some (s', actions) \<Longrightarrow> turn (extend d s) = Some (extend d s', actions)"
    and extend_extend: "extend e (extend d s) = extend (d @ e) s"
    and buffer_extend: "buffer (extend d s) = buffer s @ d"
begin

lemma drain_ends:
  assumes "length (buffer s) \<le> n"
  shows "turn (fst (drain_loop turn n s)) = None"
  using assms
proof (induction n arbitrary: s)
  case 0
  then have "buffer s = []" by simp
  then show ?case using turn_consumes [of s] by (cases "turn s") auto
next
  case (Suc n)
  show ?case
  proof (cases "turn s")
    case (Some r)
    obtain s' a where r: "r = (s', a)" by (cases r)
    with Some have "length (buffer s') \<le> n" using turn_consumes [of s s' a] Suc.prems by simp
    then show ?thesis using Suc.IH [of s'] Some r by (simp add: case_prod_beta)
  qed simp
qed

lemma drain_fuel:
  assumes "length (buffer s) \<le> n" "length (buffer s) \<le> m"
  shows "drain_loop turn n s = drain_loop turn m s"
  using assms
proof (induction n arbitrary: s m)
  case 0
  then have "buffer s = []" by simp
  then have "turn s = None" using turn_consumes [of s] by (cases "turn s") auto
  then show ?case by (cases m) simp_all
next
  case (Suc n)
  show ?case
  proof (cases "turn s")
    case None
    then show ?thesis by (cases m) simp_all
  next
    case (Some r)
    obtain s' a where r: "r = (s', a)" by (cases r)
    with Some have l: "length (buffer s') < length (buffer s)" using turn_consumes [of s s' a] by simp
    then obtain k where m: "m = Suc k" using Suc.prems by (cases m) auto
    have "drain_loop turn n s' = drain_loop turn k s'" by (rule Suc.IH) (use l m Suc.prems in simp_all)
    then show ?thesis using Some r m by simp
  qed
qed

lemma drain_chunks:
  assumes "length (buffer s) \<le> n"
  shows "then_do (drain_loop turn n s) (\<lambda>s. drain_loop turn (length (buffer (extend e s))) (extend e s)) =
    drain_loop turn (length (buffer (extend e s))) (extend e s)"
  using assms
proof (induction n arbitrary: s)
  case 0
  then show ?case by simp
next
  case (Suc n)
  show ?case
  proof (cases "turn s")
    case (Some r)
    obtain s' a where r: "r = (s', a)" by (cases r)
    with Some have l: "length (buffer s') < length (buffer s)" using turn_consumes [of s s' a] by simp
    let ?k = "length (buffer (extend e s'))"
    have IH: "then_do (drain_loop turn n s') (\<lambda>s. drain_loop turn (length (buffer (extend e s))) (extend e s)) =
      drain_loop turn ?k (extend e s')"
      using Suc l by simp
    have turn: "turn (extend e s) = Some (extend e s', a)" using turn_stable Some r by simp
    obtain k where k: "length (buffer (extend e s)) = Suc k" using l by (cases "length (buffer (extend e s))") (auto simp: buffer_extend)
    have "?k \<le> k" using l k by (simp add: buffer_extend)
    then have "drain_loop turn k (extend e s') = drain_loop turn ?k (extend e s')" by (intro drain_fuel) simp_all
    with k turn have "drain_loop turn (length (buffer (extend e s))) (extend e s) =
      (fst (drain_loop turn ?k (extend e s')), a @ snd (drain_loop turn ?k (extend e s')))"
      by (simp add: case_prod_beta)
    moreover have "drain_loop turn (Suc n) s = (fst (drain_loop turn n s'), a @ snd (drain_loop turn n s'))"
      using Some r by (simp add: case_prod_beta)
    ultimately show ?thesis using IH [symmetric] by (simp only: then_do_Pair) (simp add: then_do_def case_prod_beta)
  qed simp
qed

end

section \<open>Events\<close>

fun run_events :: "('e \<Rightarrow> 's \<Rightarrow> 's \<times> 'a list) \<Rightarrow> 'e list \<Rightarrow> 's \<Rightarrow> 's \<times> 'a list" where
  "run_events handle [] s = (s, [])"
| "run_events handle (ev # evs) s = then_do (handle ev s) (run_events handle evs)"

lemma run_events_Cons2: "run_events handle (d # e # ds) s = then_do (then_do (handle d s) (handle e)) (run_events handle ds)"
  by (simp add: then_do_def case_prod_beta)

fun legal_events :: "('e \<Rightarrow> 's \<Rightarrow> 's \<times> 'a list) \<Rightarrow> ('e \<Rightarrow> 's \<Rightarrow> bool) \<Rightarrow> 'e list \<Rightarrow> 's \<Rightarrow> bool" where
  "legal_events handle legal [] s = True"
| "legal_events handle legal (ev # evs) s = (legal ev s \<and> legal_events handle legal evs (fst (handle ev s)))"

text \<open>
  A handler meets the contract when every legal event keeps the invariant and the last need it
  reports, if any, turns the need before the event into the need after it.
\<close>

locale need_contract =
  fixes handle :: "act_event \<Rightarrow> 's \<Rightarrow> 's \<times> action list"
    and legal :: "act_event \<Rightarrow> 's \<Rightarrow> bool"
    and ok :: "'s \<Rightarrow> bool"
    and need :: "'s \<Rightarrow> act_backend_need"
  assumes handle_ok: "ok s \<Longrightarrow> legal ev s \<Longrightarrow> ok (fst (handle ev s))"
    and handle_need: "ok s \<Longrightarrow> legal ev s \<Longrightarrow> last_need (need s) (snd (handle ev s)) = need (fst (handle ev s))"
begin

lemma run_events_need:
  assumes "ok s" "legal_events handle legal evs s"
  shows "ok (fst (run_events handle evs s)) \<and>
    last_need (need s) (snd (run_events handle evs s)) = need (fst (run_events handle evs s))"
  using assms
proof (induction evs arbitrary: s)
  case (Cons ev evs)
  obtain s' a where h: "handle ev s = (s', a)" by (cases "handle ev s")
  have "ok s'" "last_need (need s) a = need s'" using handle_ok [of s ev] handle_need [of s ev] Cons.prems h by simp_all
  then show ?case using Cons.IH [of s'] Cons.prems h by (simp add: case_prod_beta)
qed simp

end

text \<open>Actions that do not report a need.\<close>

definition quiet :: "action list \<Rightarrow> bool" where
  "quiet as \<longleftrightarrow> (\<forall>n. last_need n as = n)"

lemma quiet_simps [simp]:
  "quiet []" "quiet (UpstreamClose h # as) \<longleftrightarrow> quiet as"
  "quiet (UpstreamSend h d # as) \<longleftrightarrow> quiet as" "quiet (DownstreamSend h d # as) \<longleftrightarrow> quiet as"
  "quiet (DownstreamClose h # as) \<longleftrightarrow> quiet as" "quiet (Log l # as) \<longleftrightarrow> quiet as" "quiet (UpstreamConnect n # as) \<longleftrightarrow> quiet as"
  by (simp_all add: quiet_def)

lemma quiet_append: "quiet as \<Longrightarrow> quiet bs \<Longrightarrow> quiet (as @ bs)"
  by (simp add: quiet_def)

lemma quiet_closes: "quiet (map (\<lambda>(uh, _). UpstreamClose uh) m)"
  by (induction m) auto

section \<open>Upstream streams\<close>

text \<open>
  \<open>upstream_to_downstream.iter().find(|&(_, &v)| v == handle)\<close>.  The order of a hash map is not
  specified; the model takes the order of the association list.
\<close>

definition find_upstream :: "stream \<Rightarrow> (stream \<times> stream) list \<Rightarrow> stream option" where
  "find_upstream handle m = map_option fst (find (\<lambda>(_, v). v = handle) m)"

lemma find_upstream_unique:
  assumes "distinct (map snd m)" "(uh, handle) \<in> set m"
  shows "find_upstream handle m = Some uh"
  using assms by (induction m) (auto simp: find_upstream_def image_iff)

section \<open>Bytes\<close>

abbreviation be32 :: "u8 \<Rightarrow> u8 \<Rightarrow> u8 \<Rightarrow> u8 \<Rightarrow> u32" where
  "be32 \<equiv> ipv4_new"

abbreviation to_be32 :: "u32 \<Rightarrow> u8 list" where
  "to_be32 \<equiv> octets"

text \<open>A byte string literal.\<close>

definition bytes :: "string \<Rightarrow> u8 list" where
  "bytes s = map (\<lambda>c. of_char c) s"

lemma length_bytes [simp]: "length (bytes s) = length s"
  by (simp add: bytes_def)

lemma be32_to_be32: "be32 (to_be32 w ! 0) (to_be32 w ! 1) (to_be32 w ! 2) (to_be32 w ! 3) = w"
  by (simp add: octets_def ipv4_new_octets)

end
