(* ===== verification/Http2.thy ===== *)
theory Http2
  imports Activator_Lib
begin

text \<open>
  The HTTP/2 activator (\<open>activators/http2\<close>): the frame format, the state of one client connection
  with its backend connection, and the activator that owns the connections and reports the need
  for a backend.  A receive loop is \<open>drain_loop\<close> on one turn of it; hash maps are association
  lists.

  The lemmas show that frames are read back as they were written, that the result of receiving
  bytes does not depend on how they were cut, that client frames reach the backend in order, and
  that the reported need follows the number of open streams.
\<close>

unbundle bit_operations_syntax

section \<open>Frames\<close>

datatype frame_type =
    FtData | FtHeaders | FtPriority | FtRstStream | FtSettings | FtPushPromise | FtPing | FtGoaway
  | FtWindowUpdate | FtContinuation | FtUnknown u8

definition frame_type_from_u8 :: "u8 \<Rightarrow> frame_type" where
  "frame_type_from_u8 v =
     (if v = 0x0 then FtData
      else if v = 0x1 then FtHeaders
      else if v = 0x2 then FtPriority
      else if v = 0x3 then FtRstStream
      else if v = 0x4 then FtSettings
      else if v = 0x5 then FtPushPromise
      else if v = 0x6 then FtPing
      else if v = 0x7 then FtGoaway
      else if v = 0x8 then FtWindowUpdate
      else if v = 0x9 then FtContinuation
      else FtUnknown v)"

fun frame_type_to_u8 :: "frame_type \<Rightarrow> u8" where
  "frame_type_to_u8 FtData = 0x0"
| "frame_type_to_u8 FtHeaders = 0x1"
| "frame_type_to_u8 FtPriority = 0x2"
| "frame_type_to_u8 FtRstStream = 0x3"
| "frame_type_to_u8 FtSettings = 0x4"
| "frame_type_to_u8 FtPushPromise = 0x5"
| "frame_type_to_u8 FtPing = 0x6"
| "frame_type_to_u8 FtGoaway = 0x7"
| "frame_type_to_u8 FtWindowUpdate = 0x8"
| "frame_type_to_u8 FtContinuation = 0x9"
| "frame_type_to_u8 (FtUnknown v) = v"

definition FLAG_END_STREAM :: u8 where
  "FLAG_END_STREAM = 0x01"

definition FLAG_ACK :: u8 where
  "FLAG_ACK = 0x01"

definition ERROR_NO_ERROR :: u32 where
  "ERROR_NO_ERROR = 0x0"

definition ERROR_INTERNAL_ERROR :: u32 where
  "ERROR_INTERNAL_ERROR = 0x2"

definition FRAME_HEADER_LEN :: nat where
  "FRAME_HEADER_LEN = 9"

definition CLIENT_PREFACE :: "u8 list" where
  "CLIENT_PREFACE = bytes ''PRI * HTTP/2.0'' @ [13, 10, 13, 10] @ bytes ''SM'' @ [13, 10, 13, 10]"

record h2_frame =
  hf_frame_type :: frame_type
  hf_flags :: u8
  hf_stream_id :: u32
  hf_payload :: "u8 list"

definition parse_frame :: "u8 list \<Rightarrow> (h2_frame \<times> nat) option" where
  "parse_frame buf =
     (if length buf < FRAME_HEADER_LEN then None
      else let len = unat (push_bit 16 (ucast (buf ! 0)) OR push_bit 8 (ucast (buf ! 1)) OR ucast (buf ! 2) :: u32);
               stream_id = be32 (buf ! 5 AND 0x7f) (buf ! 6) (buf ! 7) (buf ! 8);
               total = FRAME_HEADER_LEN + len
           in if length buf < total then None
              else Some (\<lparr>hf_frame_type = frame_type_from_u8 (buf ! 3), hf_flags = buf ! 4, hf_stream_id = stream_id,
                          hf_payload = drop FRAME_HEADER_LEN (take total buf)\<rparr>, total))"

definition serialize_frame :: "frame_type \<Rightarrow> u8 \<Rightarrow> u32 \<Rightarrow> u8 list \<Rightarrow> u8 list" where
  "serialize_frame frame_type flags stream_id payload =
     (let len = length payload
      in [word_of_nat (drop_bit 16 len), word_of_nat (drop_bit 8 len), word_of_nat len, frame_type_to_u8 frame_type, flags] @
         to_be32 (stream_id AND 0x7fffffff) @ payload)"

definition build_settings :: "(u16 \<times> u32) list \<Rightarrow> u8 list" where
  "build_settings params =
     serialize_frame FtSettings 0 0 (concat (map (\<lambda>(id, value). to_be16 id @ to_be32 value) params))"

definition build_settings_ack :: "u8 list" where
  "build_settings_ack = serialize_frame FtSettings FLAG_ACK 0 []"

definition build_ping_ack :: "u8 list \<Rightarrow> u8 list" where
  "build_ping_ack opaque = serialize_frame FtPing FLAG_ACK 0 opaque"

definition build_window_update :: "u32 \<Rightarrow> u32 \<Rightarrow> u8 list" where
  "build_window_update stream_id increment =
     serialize_frame FtWindowUpdate 0 stream_id (to_be32 (increment AND 0x7fffffff))"

definition build_goaway :: "u32 \<Rightarrow> u32 \<Rightarrow> u8 list" where
  "build_goaway last_stream_id error_code =
     serialize_frame FtGoaway 0 0 (to_be32 (last_stream_id AND 0x7fffffff) @ to_be32 error_code)"

definition our_settings :: "u8 list" where
  "our_settings = build_settings [(0x1, 0), (0x2, 0), (0x3, 100), (0x4, 65535), (0x5, 16384)]"

section \<open>Connections\<close>

datatype h2_phase = H2AwaitingPreface | H2Handshaking | H2Active | H2Closing

datatype upstream_state = UpNone | UpConnecting | UpHandshaking | UpReady | UpFailed

record h2_stream =
  hs_client_end_stream :: bool
  hs_backend_end_stream :: bool

datatype h2_conn_action =
    CaDownstreamSend "u8 list"
  | CaUpstreamSend "u8 list"
  | CaDownstreamClose
  | CaUpstreamClose
  | CaStreamOpened
  | CaStreamClosed
  | CaLog string

record h2_connection =
  hc_phase :: h2_phase
  hc_upstream_state :: upstream_state
  hc_recv_buf :: "u8 list"
  hc_upstream_recv_buf :: "u8 list"
  hc_streams :: "(u32 \<times> h2_stream) list"
  hc_buffered_frames :: "u8 list list"
  hc_client_settings_acked :: bool
  hc_upstream_settings_acked :: bool
  hc_last_client_stream_id :: u32

type_synonym h2_result = "h2_connection \<times> h2_conn_action list"

definition h2_connection_new :: h2_connection where
  "h2_connection_new =
     \<lparr>hc_phase = H2AwaitingPreface, hc_upstream_state = UpNone, hc_recv_buf = [], hc_upstream_recv_buf = [],
      hc_streams = [], hc_buffered_frames = [], hc_client_settings_acked = False,
      hc_upstream_settings_acked = False, hc_last_client_stream_id = 0\<rparr>"

definition has_buffered_frames :: "h2_connection \<Rightarrow> bool" where
  "has_buffered_frames c \<longleftrightarrow> hc_buffered_frames c \<noteq> []"

definition has_stream :: "u32 \<Rightarrow> h2_connection \<Rightarrow> bool" where
  "has_stream stream_id c \<longleftrightarrow> list_ex (\<lambda>(id, _). id = stream_id) (hc_streams c)"

definition open_stream :: "u32 \<Rightarrow> h2_connection \<Rightarrow> h2_connection" where
  "open_stream stream_id c =
     c\<lparr>hc_streams := hc_streams c @ [(stream_id, \<lparr>hs_client_end_stream = False, hs_backend_end_stream = False\<rparr>)]\<rparr>"

definition remove_stream :: "u32 \<Rightarrow> h2_connection \<Rightarrow> h2_connection" where
  "remove_stream stream_id c = c\<lparr>hc_streams := filter (\<lambda>(id, _). id \<noteq> stream_id) (hc_streams c)\<rparr>"

text \<open>\<open>iter_mut().find(..)\<close> and an update of the stream found: the first one with the identifier.\<close>

fun update_first :: "u32 \<Rightarrow> (h2_stream \<Rightarrow> h2_stream) \<Rightarrow> (u32 \<times> h2_stream) list \<Rightarrow> (u32 \<times> h2_stream) list" where
  "update_first stream_id f [] = []"
| "update_first stream_id f ((sid, s) # rest) =
     (if sid = stream_id then (sid, f s) # rest else (sid, s) # update_first stream_id f rest)"

definition set_client_end_stream :: "u32 \<Rightarrow> h2_connection \<Rightarrow> h2_connection" where
  "set_client_end_stream stream_id c =
     c\<lparr>hc_streams := update_first stream_id (\<lambda>s. s\<lparr>hs_client_end_stream := True\<rparr>) (hc_streams c)\<rparr>"

definition set_backend_end_stream :: "u32 \<Rightarrow> h2_connection \<Rightarrow> h2_connection" where
  "set_backend_end_stream stream_id c =
     c\<lparr>hc_streams := update_first stream_id (\<lambda>s. s\<lparr>hs_backend_end_stream := True\<rparr>) (hc_streams c)\<rparr>"

definition check_stream_closed :: "u32 \<Rightarrow> h2_connection \<Rightarrow> h2_connection \<times> bool" where
  "check_stream_closed stream_id c =
     (let closed = list_ex (\<lambda>(id, s). id = stream_id \<and> hs_client_end_stream s \<and> hs_backend_end_stream s) (hc_streams c)
      in (if closed then remove_stream stream_id c else c, closed))"

definition buffer_or_forward :: "u8 list \<Rightarrow> h2_connection \<Rightarrow> h2_result" where
  "buffer_or_forward frame c =
     (if hc_upstream_state c = UpReady then (c, [CaUpstreamSend frame])
      else (c\<lparr>hc_buffered_frames := hc_buffered_frames c @ [frame]\<rparr>, []))"

definition flush_buffered :: "h2_connection \<Rightarrow> h2_result" where
  "flush_buffered c = (c\<lparr>hc_buffered_frames := []\<rparr>, map CaUpstreamSend (hc_buffered_frames c))"

definition check_handshake_complete :: "h2_connection \<Rightarrow> h2_connection" where
  "check_handshake_complete c =
     (if hc_client_settings_acked c \<and> hc_phase c = H2Handshaking then c\<lparr>hc_phase := H2Active\<rparr> else c)"

text \<open>The end of a stream in a frame of the client, and of the backend.\<close>

definition end_client_stream :: "u8 \<Rightarrow> u32 \<Rightarrow> h2_connection \<Rightarrow> h2_result" where
  "end_client_stream flags stream_id c =
     (if flags AND FLAG_END_STREAM \<noteq> 0
      then let (c, closed) = check_stream_closed stream_id (set_client_end_stream stream_id c)
           in (c, if closed then [CaStreamClosed] else [])
      else (c, []))"

definition end_backend_stream :: "u8 \<Rightarrow> u32 \<Rightarrow> h2_connection \<Rightarrow> h2_result" where
  "end_backend_stream flags stream_id c =
     (if flags AND FLAG_END_STREAM \<noteq> 0
      then let (c, closed) = check_stream_closed stream_id (set_backend_end_stream stream_id c)
           in (c, if closed then [CaStreamClosed] else [])
      else (c, []))"

definition reset_stream :: "u32 \<Rightarrow> h2_connection \<Rightarrow> h2_result" where
  "reset_stream stream_id c =
     (if has_stream stream_id c then (remove_stream stream_id c, [CaStreamClosed]) else (c, []))"

definition ping_opaque :: "u8 list \<Rightarrow> u8 list" where
  "ping_opaque payload = (if 8 \<le> length payload then take 8 payload else replicate 8 0)"

text \<open>The window updates that answer a data frame, sent back with the given action.\<close>

definition window_updates :: "(u8 list \<Rightarrow> h2_conn_action) \<Rightarrow> u32 \<Rightarrow> u8 list \<Rightarrow> h2_conn_action list" where
  "window_updates send stream_id payload =
     (let len = word_of_nat (length payload) :: u32
      in if len > 0
         then send (build_window_update 0 len) #
              (if stream_id > 0 then [send (build_window_update stream_id len)] else [])
         else [])"

definition handle_client_frame :: "h2_frame \<Rightarrow> u8 list \<Rightarrow> h2_connection \<Rightarrow> h2_result" where
  "handle_client_frame frame raw_frame c =
     (let flags = hf_flags frame; stream_id = hf_stream_id frame; payload = hf_payload frame
      in case hf_frame_type frame of
           FtSettings \<Rightarrow>
             if flags AND FLAG_ACK \<noteq> 0
             then (check_handshake_complete (c\<lparr>hc_client_settings_acked := True\<rparr>), [])
             else (c, [CaDownstreamSend build_settings_ack])
         | FtPing \<Rightarrow>
             if flags AND FLAG_ACK \<noteq> 0 then (c, [])
             else (c, [CaDownstreamSend (build_ping_ack (ping_opaque payload))])
         | FtHeaders \<Rightarrow>
             then_do
               (if stream_id > 0 \<and> \<not> has_stream stream_id c
                then let c = open_stream stream_id c
                     in (if stream_id > hc_last_client_stream_id c then c\<lparr>hc_last_client_stream_id := stream_id\<rparr> else c,
                         [CaStreamOpened])
                else (c, []))
               (\<lambda>c. then_do (end_client_stream flags stream_id c) (buffer_or_forward raw_frame))
         | FtData \<Rightarrow>
             then_do (c, window_updates CaDownstreamSend stream_id payload)
               (\<lambda>c. then_do (end_client_stream flags stream_id c) (buffer_or_forward raw_frame))
         | FtRstStream \<Rightarrow> then_do (reset_stream stream_id c) (buffer_or_forward raw_frame)
         | FtGoaway \<Rightarrow> buffer_or_forward raw_frame (c\<lparr>hc_phase := H2Closing\<rparr>)
         | _ \<Rightarrow> buffer_or_forward raw_frame c)"

definition client_extend :: "u8 list \<Rightarrow> h2_connection \<Rightarrow> h2_connection" where
  "client_extend data c = c\<lparr>hc_recv_buf := hc_recv_buf c @ data\<rparr>"

definition client_turn :: "h2_connection \<Rightarrow> h2_result option" where
  "client_turn c =
     (case parse_frame (hc_recv_buf c) of
        None \<Rightarrow> None
      | Some (frame, consumed) \<Rightarrow>
          let raw_frame = take consumed (hc_recv_buf c);
              c = c\<lparr>hc_recv_buf := drop consumed (hc_recv_buf c)\<rparr>
          in Some (if hc_phase c = H2Closing then (c, []) else handle_client_frame frame raw_frame c))"

definition client_drain :: "h2_connection \<Rightarrow> h2_result" where
  "client_drain c = drain_loop client_turn (length (hc_recv_buf c)) c"

definition on_client_data :: "u8 list \<Rightarrow> h2_connection \<Rightarrow> h2_result" where
  "on_client_data data c =
     (let c = client_extend data c
      in if hc_phase c = H2AwaitingPreface
         then if length (hc_recv_buf c) < length CLIENT_PREFACE then (c, [])
              else if take (length CLIENT_PREFACE) (hc_recv_buf c) \<noteq> CLIENT_PREFACE
              then (c\<lparr>hc_phase := H2Closing\<rparr>, [CaLog ''invalid H2 preface'', CaDownstreamClose])
              else then_do
                     (c\<lparr>hc_recv_buf := drop (length CLIENT_PREFACE) (hc_recv_buf c), hc_phase := H2Handshaking\<rparr>,
                      [CaDownstreamSend our_settings])
                     client_drain
         else client_drain c)"

definition on_upstream_connected :: "h2_connection \<Rightarrow> h2_result" where
  "on_upstream_connected c =
     (c\<lparr>hc_upstream_state := UpHandshaking\<rparr>, [CaUpstreamSend (CLIENT_PREFACE @ our_settings)])"

text \<open>The end of the handshake with the backend at its first settings frame.\<close>

definition upstream_ready :: "h2_connection \<Rightarrow> h2_result" where
  "upstream_ready c =
     (if hc_upstream_state c = UpHandshaking then flush_buffered (c\<lparr>hc_upstream_state := UpReady\<rparr>) else (c, []))"

definition handle_upstream_frame :: "h2_frame \<Rightarrow> u8 list \<Rightarrow> h2_connection \<Rightarrow> h2_result" where
  "handle_upstream_frame frame raw_frame c =
     (let flags = hf_flags frame; stream_id = hf_stream_id frame; payload = hf_payload frame;
          forward = (\<lambda>c. (c, [CaDownstreamSend raw_frame]))
      in case hf_frame_type frame of
           FtSettings \<Rightarrow>
             if flags AND FLAG_ACK \<noteq> 0 then upstream_ready (c\<lparr>hc_upstream_settings_acked := True\<rparr>)
             else then_do (c, [CaUpstreamSend build_settings_ack]) upstream_ready
         | FtPing \<Rightarrow>
             if flags AND FLAG_ACK \<noteq> 0 then (c, [])
             else (c, [CaUpstreamSend (build_ping_ack (ping_opaque payload))])
         | FtData \<Rightarrow>
             then_do (c, window_updates CaUpstreamSend stream_id payload)
               (\<lambda>c. then_do (end_backend_stream flags stream_id c) forward)
         | FtHeaders \<Rightarrow> then_do (end_backend_stream flags stream_id c) forward
         | FtRstStream \<Rightarrow> then_do (reset_stream stream_id c) forward
         | FtGoaway \<Rightarrow> forward (c\<lparr>hc_phase := H2Closing\<rparr>)
         | _ \<Rightarrow> forward c)"

definition upstream_extend :: "u8 list \<Rightarrow> h2_connection \<Rightarrow> h2_connection" where
  "upstream_extend data c = c\<lparr>hc_upstream_recv_buf := hc_upstream_recv_buf c @ data\<rparr>"

definition upstream_turn :: "h2_connection \<Rightarrow> h2_result option" where
  "upstream_turn c =
     (case parse_frame (hc_upstream_recv_buf c) of
        None \<Rightarrow> None
      | Some (frame, consumed) \<Rightarrow>
          let raw_frame = take consumed (hc_upstream_recv_buf c)
          in Some (handle_upstream_frame frame raw_frame
                     (c\<lparr>hc_upstream_recv_buf := drop consumed (hc_upstream_recv_buf c)\<rparr>)))"

definition on_upstream_data :: "u8 list \<Rightarrow> h2_connection \<Rightarrow> h2_result" where
  "on_upstream_data data c =
     (let c = upstream_extend data c
      in drain_loop upstream_turn (length (hc_upstream_recv_buf c)) c)"

text \<open>All streams of the connection are counted as closed.\<close>

definition close_streams :: "h2_connection \<Rightarrow> h2_result" where
  "close_streams c = (c\<lparr>hc_streams := []\<rparr>, replicate (length (hc_streams c)) CaStreamClosed)"

definition on_upstream_closed :: "h2_connection \<Rightarrow> h2_result" where
  "on_upstream_closed c =
     (let c = c\<lparr>hc_upstream_state := UpFailed\<rparr>
      in then_do
           (if hc_phase c \<noteq> H2Closing
            then (c\<lparr>hc_phase := H2Closing\<rparr>,
                  [CaDownstreamSend (build_goaway (hc_last_client_stream_id c) ERROR_NO_ERROR), CaDownstreamClose])
            else (c, []))
           close_streams)"

definition on_upstream_failed :: "h2_connection \<Rightarrow> h2_result" where
  "on_upstream_failed c =
     then_do
       (c\<lparr>hc_upstream_state := UpFailed, hc_phase := H2Closing\<rparr>,
        [CaDownstreamSend (build_goaway 0 ERROR_INTERNAL_ERROR), CaDownstreamClose])
       close_streams"

definition stream_count :: "h2_connection \<Rightarrow> nat" where
  "stream_count c = length (hc_streams c)"

section \<open>The activator\<close>

record http2_activator =
  ha_connections :: "(stream \<times> h2_connection) list"
  ha_upstream_to_downstream :: "(stream \<times> stream) list"
  ha_pending_connects :: "stream list"
  ha_backend_available :: bool
  ha_total_h2_streams :: nat

definition http2_activator_new :: http2_activator where
  "http2_activator_new =
     \<lparr>ha_connections = [], ha_upstream_to_downstream = [], ha_pending_connects = [],
      ha_backend_available = False, ha_total_h2_streams = 0\<rparr>"

type_synonym h2_act_result = "http2_activator \<times> action list"

text \<open>One connection action: the stream count is updated, everything else becomes an action of the activator.\<close>

definition h2_apply_conn_action :: "stream \<Rightarrow> http2_activator \<Rightarrow> h2_conn_action \<Rightarrow> h2_act_result" where
  "h2_apply_conn_action downstream_handle act ca =
     (case ca of
        CaDownstreamSend data \<Rightarrow> (act, [DownstreamSend downstream_handle data])
      | CaUpstreamSend data \<Rightarrow>
          (act, case find_upstream downstream_handle (ha_upstream_to_downstream act) of
                  Some uh \<Rightarrow> [UpstreamSend uh data] | None \<Rightarrow> [])
      | CaDownstreamClose \<Rightarrow> (act, [DownstreamClose downstream_handle])
      | CaUpstreamClose \<Rightarrow>
          (act, case find_upstream downstream_handle (ha_upstream_to_downstream act) of
                  Some uh \<Rightarrow> [UpstreamClose uh] | None \<Rightarrow> [])
      | CaStreamOpened \<Rightarrow> (act\<lparr>ha_total_h2_streams := ha_total_h2_streams act + 1\<rparr>, [])
      | CaStreamClosed \<Rightarrow> (act\<lparr>ha_total_h2_streams := ha_total_h2_streams act - 1\<rparr>, [])
      | CaLog msg \<Rightarrow> (act, [Log \<lparr>la_level = LevelInfo, la_message = msg\<rparr>]))"

fun h2_process_conn_actions :: "stream \<Rightarrow> h2_conn_action list \<Rightarrow> http2_activator \<Rightarrow> h2_act_result" where
  "h2_process_conn_actions handle [] act = (act, [])"
| "h2_process_conn_actions handle (ca # cas) act =
     then_do (h2_apply_conn_action handle act ca) (h2_process_conn_actions handle cas)"

definition check_backend_need_transition :: "nat \<Rightarrow> nat \<Rightarrow> action list" where
  "check_backend_need_transition old new =
     (if old = 0 \<and> new > 0 then [SetBackendNeed NeedActive]
      else if old > 0 \<and> new = 0 then [SetBackendNeed NeedNone]
      else [])"

text \<open>An operation of the connection with the given handle, with its actions processed.\<close>

definition h2_with_conn :: "stream \<Rightarrow> (h2_connection \<Rightarrow> h2_result) \<Rightarrow> http2_activator \<Rightarrow> h2_act_result" where
  "h2_with_conn handle f act =
     (case map_of (ha_connections act) handle of
        None \<Rightarrow> (act, [])
      | Some conn \<Rightarrow>
          let (conn, conn_actions) = f conn
          in h2_process_conn_actions handle conn_actions
               (act\<lparr>ha_connections := AList.update handle conn (ha_connections act)\<rparr>))"

definition h2_need_after :: "http2_activator \<Rightarrow> h2_act_result \<Rightarrow> h2_act_result" where
  "h2_need_after old r =
     then_do r (\<lambda>act. (act, check_backend_need_transition (ha_total_h2_streams old) (ha_total_h2_streams act)))"

definition h2_wants_upstream :: "h2_connection \<Rightarrow> bool" where
  "h2_wants_upstream conn \<longleftrightarrow> hc_upstream_state conn = UpNone \<and> has_buffered_frames conn"

definition h2_connect :: "stream \<Rightarrow> http2_activator \<Rightarrow> h2_act_result" where
  "h2_connect handle act =
     (case map_of (ha_connections act) handle of
        None \<Rightarrow> (act, [])
      | Some conn \<Rightarrow>
          (act\<lparr>ha_connections := AList.update handle (conn\<lparr>hc_upstream_state := UpConnecting\<rparr>) (ha_connections act),
              ha_pending_connects := ha_pending_connects act @ [handle]\<rparr>,
           [UpstreamConnect 80]))"

definition h2_stream_open :: "stream \<Rightarrow> http2_activator \<Rightarrow> h2_act_result" where
  "h2_stream_open handle act =
     (act\<lparr>ha_connections := AList.update handle h2_connection_new (ha_connections act)\<rparr>, [])"

definition h2_stream_data :: "stream \<Rightarrow> u8 list \<Rightarrow> http2_activator \<Rightarrow> h2_act_result" where
  "h2_stream_data handle data act =
     (case map_of (ha_connections act) handle of
        None \<Rightarrow> (act, [])
      | Some _ \<Rightarrow>
          h2_need_after act
            (then_do (h2_with_conn handle (on_client_data data) act)
               (\<lambda>act. if ha_backend_available act \<and>
                         (case map_of (ha_connections act) handle of Some conn \<Rightarrow> h2_wants_upstream conn | None \<Rightarrow> False)
                      then h2_connect handle act else (act, []))))"

definition h2_stream_close :: "stream \<Rightarrow> http2_activator \<Rightarrow> h2_act_result" where
  "h2_stream_close handle act =
     h2_need_after act
       (case map_of (ha_connections act) handle of
          None \<Rightarrow> (act, [])
        | Some conn \<Rightarrow>
            let upstream_handle = find_upstream handle (ha_upstream_to_downstream act)
            in (act\<lparr>ha_connections := AList.delete handle (ha_connections act),
                    ha_upstream_to_downstream :=
                      (case upstream_handle of Some uh \<Rightarrow> AList.delete uh (ha_upstream_to_downstream act)
                       | None \<Rightarrow> ha_upstream_to_downstream act),
                    ha_pending_connects := filter (\<lambda>h. h \<noteq> handle) (ha_pending_connects act),
                    ha_total_h2_streams := ha_total_h2_streams act - stream_count conn\<rparr>,
                case upstream_handle of Some uh \<Rightarrow> [UpstreamClose uh] | None \<Rightarrow> []))"

text \<open>A loop over handles.\<close>

fun h2_for_each :: "(stream \<Rightarrow> http2_activator \<Rightarrow> h2_act_result) \<Rightarrow> stream list \<Rightarrow> http2_activator \<Rightarrow> h2_act_result" where
  "h2_for_each f [] act = (act, [])"
| "h2_for_each f (h # hs) act = then_do (f h act) (h2_for_each f hs)"

definition h2_backend_available :: "bool \<Rightarrow> http2_activator \<Rightarrow> h2_act_result" where
  "h2_backend_available available act =
     (let act = act\<lparr>ha_backend_available := available\<rparr>
      in if available
         then h2_for_each h2_connect (map fst (filter (\<lambda>(_, conn). h2_wants_upstream conn) (ha_connections act))) act
         else h2_need_after act
                (then_do (h2_for_each (\<lambda>h. h2_with_conn h on_upstream_closed) (map fst (ha_connections act)) act)
                   (\<lambda>act. (act\<lparr>ha_upstream_to_downstream := []\<rparr>,
                           map (\<lambda>(uh, _). UpstreamClose uh) (ha_upstream_to_downstream act)))))"

definition h2_upstream_connect_result :: "stream \<Rightarrow> bool \<Rightarrow> http2_activator \<Rightarrow> h2_act_result" where
  "h2_upstream_connect_result upstream_handle connected act =
     (case ha_pending_connects act of
        [] \<Rightarrow> (act, [UpstreamClose upstream_handle])
      | downstream_handle # pending \<Rightarrow>
          let act = act\<lparr>ha_pending_connects := pending\<rparr>
          in if connected
             then h2_with_conn downstream_handle on_upstream_connected
                    (act\<lparr>ha_upstream_to_downstream :=
                          AList.update upstream_handle downstream_handle (ha_upstream_to_downstream act)\<rparr>)
             else h2_need_after act (h2_with_conn downstream_handle on_upstream_failed act))"

definition h2_upstream_data :: "stream \<Rightarrow> u8 list \<Rightarrow> http2_activator \<Rightarrow> h2_act_result" where
  "h2_upstream_data upstream_handle data act =
     (case map_of (ha_upstream_to_downstream act) upstream_handle of
        None \<Rightarrow> (act, [])
      | Some downstream_handle \<Rightarrow>
          (case map_of (ha_connections act) downstream_handle of
             None \<Rightarrow> (act, [])
           | Some _ \<Rightarrow> h2_need_after act (h2_with_conn downstream_handle (on_upstream_data data) act)))"

definition h2_upstream_close :: "stream \<Rightarrow> http2_activator \<Rightarrow> h2_act_result" where
  "h2_upstream_close upstream_handle act =
     (case map_of (ha_upstream_to_downstream act) upstream_handle of
        None \<Rightarrow> (act, [])
      | Some downstream_handle \<Rightarrow>
          let act = act\<lparr>ha_upstream_to_downstream := AList.delete upstream_handle (ha_upstream_to_downstream act)\<rparr>
          in case map_of (ha_connections act) downstream_handle of
               None \<Rightarrow> (act, [])
             | Some _ \<Rightarrow> h2_need_after act (h2_with_conn downstream_handle on_upstream_closed act))"

definition h2_event :: "act_event \<Rightarrow> http2_activator \<Rightarrow> h2_act_result" where
  "h2_event ev act =
     (case ev of
        EvStreamOpen handle \<Rightarrow> h2_stream_open handle act
      | EvStreamData handle data \<Rightarrow> h2_stream_data handle data act
      | EvStreamClose handle \<Rightarrow> h2_stream_close handle act
      | EvBackendAvailable available \<Rightarrow> h2_backend_available available act
      | EvUpstreamConnectResult handle connected \<Rightarrow> h2_upstream_connect_result handle connected act
      | EvUpstreamData handle data \<Rightarrow> h2_upstream_data handle data act
      | EvUpstreamClose handle \<Rightarrow> h2_upstream_close handle act
      | EvTick \<Rightarrow> (act, [])
      | EvPacket _ \<Rightarrow> (act, []))"

definition h2_process_events :: "act_event list \<Rightarrow> http2_activator \<Rightarrow> h2_act_result" where
  "h2_process_events = run_events h2_event"

section \<open>Frames are read back\<close>

lemma frame_type_u8 [simp]: "frame_type_to_u8 (frame_type_from_u8 v) = v"
  by (simp add: frame_type_from_u8_def)

lemma bit_small: "n < 2 ^ k \<Longrightarrow> k \<le> i \<Longrightarrow> \<not> bit (n :: nat) i"
  by (metis bit_take_bit_iff leD take_bit_nat_eq_self)

lemma length_bytes_word:
  assumes "n < 2 ^ 24"
  shows "push_bit 16 (ucast (word_of_nat (drop_bit 16 n) :: u8)) OR push_bit 8 (ucast (word_of_nat (drop_bit 8 n) :: u8)) OR
    ucast (word_of_nat n :: u8) = (word_of_nat n :: u32)"
proof (rule bit_word_eqI)
  fix i assume "i < LENGTH(32)"
  then consider "i < 8" | "8 \<le> i" "i < 16" | "16 \<le> i" "i < 24" | "24 \<le> i" "i < 32" by fastforce
  then show "bit (push_bit 16 (ucast (word_of_nat (drop_bit 16 n) :: u8)) OR push_bit 8 (ucast (word_of_nat (drop_bit 8 n) :: u8)) OR
    ucast (word_of_nat n :: u8) :: u32) i = bit (word_of_nat n :: u32) i"
    by cases (auto simp add: bit_simps bit_small [OF assms])
qed

lemma length_bytes_unat:
  assumes "n < 2 ^ 24"
  shows "unat (push_bit 16 (ucast (word_of_nat (drop_bit 16 n) :: u8)) OR push_bit 8 (ucast (word_of_nat (drop_bit 8 n) :: u8)) OR
    ucast (word_of_nat n :: u8) :: u32) = n"
  unfolding length_bytes_word [OF assms] using assms by (simp add: unsigned_of_nat take_bit_nat_eq_self)

lemma unat_length_bytes:
  fixes a b c :: u8
  defines "n \<equiv> unat (push_bit 16 (ucast a) OR push_bit 8 (ucast b) OR ucast c :: u32)"
  shows "n < 2 ^ 24" "word_of_nat (drop_bit 16 n) = a" "word_of_nat (drop_bit 8 n) = b" "word_of_nat n = c"
proof -
  have bit: "bit n i \<longleftrightarrow> (if i < 8 then bit c i else if i < 16 then bit b (i - 8) else if i < 24 then bit a (i - 16) else False)" for i
    unfolding n_def using bit_imp_le_length [of a "i - 16"] by (auto simp: bit_simps)
  have "take_bit 24 n = n" by (rule bit_eqI) (auto simp: bit_take_bit_iff bit)
  then show "n < 2 ^ 24" by (simp add: take_bit_nat_eq_self_iff)
  show "word_of_nat (drop_bit 16 n) = a" "word_of_nat (drop_bit 8 n) = b" "word_of_nat n = c"
    by (auto intro!: bit_word_eqI simp: bit_simps bit)
qed

lemma mask_31: "(0x7fffffff :: u32) = mask 31"
  by (simp add: mask_eq_exp_minus_1)

lemma mask_7: "(0x7f :: u8) = mask 7"
  by (simp add: mask_eq_exp_minus_1)

lemma octets_masked: "octets (w AND 0x7fffffff) = [(octets w ! 0) AND 0x7f, octets w ! 1, octets w ! 2, octets w ! 3]"
  unfolding octets_def mask_31 mask_7 by (auto intro!: bit_word_eqI simp: bit_simps)

lemma length_serialize_frame [simp]: "length (serialize_frame ft flags sid payload) = FRAME_HEADER_LEN + length payload"
  by (simp add: serialize_frame_def FRAME_HEADER_LEN_def Let_def)

lemma parse_frame_Cons:
  "parse_frame (b0 # b1 # b2 # b3 # b4 # b5 # b6 # b7 # b8 # rest) =
     (let len = unat (push_bit 16 (ucast b0) OR push_bit 8 (ucast b1) OR ucast b2 :: u32)
      in if length rest < len then None
         else Some (\<lparr>hf_frame_type = frame_type_from_u8 b3, hf_flags = b4, hf_stream_id = be32 (b5 AND 0x7f) b6 b7 b8,
                     hf_payload = take len rest\<rparr>, 9 + len))"
  by (simp add: parse_frame_def FRAME_HEADER_LEN_def Let_def drop_take)

lemma parse_serialize:
  assumes "length payload < 2 ^ 24"
  shows "parse_frame (serialize_frame ft flags sid payload @ rest) =
    Some (\<lparr>hf_frame_type = frame_type_from_u8 (frame_type_to_u8 ft), hf_flags = flags, hf_stream_id = sid AND 0x7fffffff,
           hf_payload = payload\<rparr>, FRAME_HEADER_LEN + length payload)"
proof -
  let ?w = "sid AND 0x7fffffff"
  have m: "(ucast (drop_bit 24 ?w) :: u8) AND 0x7f = ucast (drop_bit 24 ?w)"
    unfolding mask_31 mask_7 by (auto intro!: bit_word_eqI simp: bit_simps)
  have "serialize_frame ft flags sid payload @ rest =
    word_of_nat (drop_bit 16 (length payload)) # word_of_nat (drop_bit 8 (length payload)) # word_of_nat (length payload) #
     frame_type_to_u8 ft # flags # ucast (drop_bit 24 ?w) # ucast (drop_bit 16 ?w) # ucast (drop_bit 8 ?w) # ucast ?w # payload @ rest"
    by (simp only: serialize_frame_def octets_def Let_def append.simps)
  then show ?thesis
    unfolding FRAME_HEADER_LEN_def
    by (simp only: parse_frame_Cons length_bytes_unat [OF assms] m ipv4_new_octets Let_def) simp
qed

lemma serialize_parse:
  assumes "parse_frame buf = Some (frame, n)"
  shows "FRAME_HEADER_LEN \<le> n" "n \<le> length buf" "length (hf_payload frame) < 2 ^ 24"
    "serialize_frame (hf_frame_type frame) (hf_flags frame) (hf_stream_id frame) (hf_payload frame) =
       (take n buf)[5 := buf ! 5 AND 0x7f]"
proof -
  have "9 \<le> length buf" using assms by (auto simp: parse_frame_def FRAME_HEADER_LEN_def split: if_splits)
  then obtain b0 b1 b2 b3 b4 b5 b6 b7 b8 rest where buf: "buf = b0 # b1 # b2 # b3 # b4 # b5 # b6 # b7 # b8 # rest"
    by (auto simp: Suc_le_length_iff numeral_eq_Suc)
  define len where "len = unat (push_bit 16 (ucast b0) OR push_bit 8 (ucast b1) OR ucast b2 :: u32)"
  note len = unat_length_bytes [of b0 b1 b2, folded len_def]
  have p: "len \<le> length rest" "n = 9 + len"
    "frame = \<lparr>hf_frame_type = frame_type_from_u8 b3, hf_flags = b4, hf_stream_id = be32 (b5 AND 0x7f) b6 b7 b8, hf_payload = take len rest\<rparr>"
    using assms unfolding buf parse_frame_Cons Let_def len_def [symmetric] by (auto split: if_splits)
  show "FRAME_HEADER_LEN \<le> n" "n \<le> length buf" "length (hf_payload frame) < 2 ^ 24"
    using p len(1) by (simp_all add: FRAME_HEADER_LEN_def buf)
  have t: "(take (9 + len) (b0 # b1 # b2 # b3 # b4 # b5 # b6 # b7 # b8 # rest))[5 := x] =
    b0 # b1 # b2 # b3 # b4 # x # b6 # b7 # b8 # take len rest" for x
    by (simp add: numeral_eq_Suc)
  show "serialize_frame (hf_frame_type frame) (hf_flags frame) (hf_stream_id frame) (hf_payload frame) =
    (take n buf)[5 := buf ! 5 AND 0x7f]"
    using p(1) unfolding p(2,3) buf t
    by (simp add: serialize_frame_def Let_def len octets_masked octets_def [symmetric] min_absorb2 and.assoc)
qed

section \<open>Receiving does not depend on the chunks\<close>

lemma parse_frame_append: "parse_frame buf = Some (frame, n) \<Longrightarrow> parse_frame (buf @ d) = Some (frame, n)"
  by (auto simp: parse_frame_def Let_def nth_append FRAME_HEADER_LEN_def split: if_splits)

lemma parse_frame_bounds: "parse_frame buf = Some (frame, n) \<Longrightarrow> 0 < n \<and> n \<le> length buf"
  by (auto simp: parse_frame_def Let_def FRAME_HEADER_LEN_def split: if_splits)

lemmas stream_defs =
  has_stream_def open_stream_def remove_stream_def set_client_end_stream_def set_backend_end_stream_def
  check_stream_closed_def end_client_stream_def end_backend_stream_def reset_stream_def
  buffer_or_forward_def flush_buffered_def upstream_ready_def check_handshake_complete_def then_do_def Let_def

text \<open>The handlers neither read nor write the receive buffers.\<close>

lemma handle_client_frame_buf:
  "handle_client_frame frame raw (c\<lparr>hc_recv_buf := b\<rparr>) = apfst (\<lambda>c. c\<lparr>hc_recv_buf := b\<rparr>) (handle_client_frame frame raw c)"
  by (cases "hf_frame_type frame") (simp_all add: handle_client_frame_def stream_defs)

lemma handle_upstream_frame_buf:
  "handle_upstream_frame frame raw (c\<lparr>hc_upstream_recv_buf := b\<rparr>) =
     apfst (\<lambda>c. c\<lparr>hc_upstream_recv_buf := b\<rparr>) (handle_upstream_frame frame raw c)"
  by (cases "hf_frame_type frame") (simp_all add: handle_upstream_frame_def stream_defs)

lemma handle_client_frame_recv_buf: "hc_recv_buf (fst (handle_client_frame frame raw c)) = hc_recv_buf c"
  by (cases "hf_frame_type frame") (simp_all add: handle_client_frame_def stream_defs)

lemma handle_upstream_frame_recv_buf: "hc_upstream_recv_buf (fst (handle_upstream_frame frame raw c)) = hc_upstream_recv_buf c"
  by (cases "hf_frame_type frame") (simp_all add: handle_upstream_frame_def stream_defs)

interpretation client: framing client_turn hc_recv_buf client_extend
proof unfold_locales
  fix s s' :: h2_connection and a :: "h2_conn_action list" and d e :: "u8 list"
  show "client_extend e (client_extend d s) = client_extend (d @ e) s" "hc_recv_buf (client_extend d s) = hc_recv_buf s @ d"
    by (simp_all add: client_extend_def)
  assume "client_turn s = Some (s', a)"
  then obtain frame n where p: "parse_frame (hc_recv_buf s) = Some (frame, n)"
    and r: "(s', a) = (let c = s\<lparr>hc_recv_buf := drop n (hc_recv_buf s)\<rparr>
      in if hc_phase c = H2Closing then (c, []) else handle_client_frame frame (take n (hc_recv_buf s)) c)"
    by (auto simp: client_turn_def Let_def split: option.splits)
  note n = parse_frame_bounds [OF p]
  have "hc_recv_buf s' = drop n (hc_recv_buf s)"
    using arg_cong [OF r, of fst] by (simp add: Let_def handle_client_frame_recv_buf split: if_splits)
  then show "length (hc_recv_buf s') < length (hc_recv_buf s)" using n by auto
  show "client_turn (client_extend d s) = Some (client_extend d s', a)"
    using n r parse_frame_append [OF p, of d] handle_client_frame_recv_buf [of frame "take n (hc_recv_buf s)" "s\<lparr>hc_recv_buf := drop n (hc_recv_buf s)\<rparr>"]
    by (cases "handle_client_frame frame (take n (hc_recv_buf s)) s")
      (simp add: client_turn_def Let_def client_extend_def handle_client_frame_buf split: if_splits)
qed

interpretation upstream: framing upstream_turn hc_upstream_recv_buf upstream_extend
proof unfold_locales
  fix s s' :: h2_connection and a :: "h2_conn_action list" and d e :: "u8 list"
  show "upstream_extend e (upstream_extend d s) = upstream_extend (d @ e) s"
    "hc_upstream_recv_buf (upstream_extend d s) = hc_upstream_recv_buf s @ d"
    by (simp_all add: upstream_extend_def)
  assume "upstream_turn s = Some (s', a)"
  then obtain frame n where p: "parse_frame (hc_upstream_recv_buf s) = Some (frame, n)"
    and r: "(s', a) = handle_upstream_frame frame (take n (hc_upstream_recv_buf s)) (s\<lparr>hc_upstream_recv_buf := drop n (hc_upstream_recv_buf s)\<rparr>)"
    by (auto simp: upstream_turn_def Let_def split: option.splits)
  note n = parse_frame_bounds [OF p]
  have b: "hc_upstream_recv_buf s' = drop n (hc_upstream_recv_buf s)"
    using arg_cong [OF r, of fst] by (simp add: handle_upstream_frame_recv_buf)
  then show "length (hc_upstream_recv_buf s') < length (hc_upstream_recv_buf s)" using n by auto
  show "upstream_turn (upstream_extend d s) = Some (upstream_extend d s', a)"
    using n r parse_frame_append [OF p, of d]
    by (cases "handle_upstream_frame frame (take n (hc_upstream_recv_buf s)) s")
      (simp add: upstream_turn_def Let_def upstream_extend_def handle_upstream_frame_buf)
qed

lemma upstream_chunks: "then_do (on_upstream_data d c) (on_upstream_data e) = on_upstream_data (d @ e) c"
  using upstream.drain_chunks [of "upstream_extend d c" "length (hc_upstream_recv_buf (upstream_extend d c))" e]
  by (simp add: on_upstream_data_def [abs_def] Let_def upstream.extend_extend)

lemma client_drain_chunks: "then_do (client_drain c) (\<lambda>c. client_drain (client_extend e c)) = client_drain (client_extend e c)"
  using client.drain_chunks [of c "length (hc_recv_buf c)" e] by (simp add: client_drain_def)

lemma handle_client_frame_phase:
  "hc_phase c \<noteq> H2AwaitingPreface \<Longrightarrow> hc_phase (fst (handle_client_frame frame raw c)) \<noteq> H2AwaitingPreface"
  by (cases "hf_frame_type frame") (simp_all add: handle_client_frame_def stream_defs)

lemma client_drain_phase:
  assumes "hc_phase c \<noteq> H2AwaitingPreface"
  shows "hc_phase (fst (client_drain c)) \<noteq> H2AwaitingPreface"
  unfolding client_drain_def
proof (rule drain_loop_invariant [where P = "\<lambda>c. hc_phase c \<noteq> H2AwaitingPreface"])
  fix s s' :: h2_connection and a
  assume "hc_phase s \<noteq> H2AwaitingPreface" "client_turn s = Some (s', a)"
  then show "hc_phase s' \<noteq> H2AwaitingPreface"
    using handle_client_frame_phase [of "s\<lparr>hc_recv_buf := b\<rparr>" for b]
    by (auto simp: client_turn_def Let_def split: option.splits if_splits) (metis fst_conv h2_connection.simps)
qed (fact assms)

lemma closing_drain:
  assumes "hc_phase c = H2Closing"
  shows "\<exists>b. drain_loop client_turn n c = (c\<lparr>hc_recv_buf := b\<rparr>, [])"
  using assms
proof (induction n arbitrary: c)
  case 0
  then show ?case by (intro exI [of _ "hc_recv_buf c"]) simp
next
  case (Suc n)
  show ?case
  proof (cases "parse_frame (hc_recv_buf c)")
    case None
    then show ?thesis by (intro exI [of _ "hc_recv_buf c"]) (simp add: client_turn_def)
  next
    case (Some r)
    obtain frame k where r: "r = (frame, k)" by (cases r)
    let ?c = "c\<lparr>hc_recv_buf := drop k (hc_recv_buf c)\<rparr>"
    from Suc.IH [of ?c] Suc.prems obtain b where "drain_loop client_turn n ?c = (?c\<lparr>hc_recv_buf := b\<rparr>, [])" by auto
    moreover have "client_turn c = Some (?c, [])" using Some r Suc.prems by (simp add: client_turn_def)
    ultimately show ?thesis by (intro exI [of _ b]) simp
  qed
qed

lemma closing_client_data:
  assumes "hc_phase c = H2Closing"
  obtains b where "on_client_data d c = (c\<lparr>hc_recv_buf := b\<rparr>, [])"
  using closing_drain [of "client_extend d c" "length (hc_recv_buf (client_extend d c))"] assms
  by (auto simp: on_client_data_def client_drain_def client_extend_def)

text \<open>Two connections agree, up to unread bytes when both are closing.\<close>

definition same_client :: "h2_connection \<Rightarrow> h2_connection \<Rightarrow> bool" where
  "same_client c c' \<longleftrightarrow> c = c' \<or> hc_phase c = H2Closing \<and> c\<lparr>hc_recv_buf := []\<rparr> = c'\<lparr>hc_recv_buf := []\<rparr>"

definition same_result :: "h2_result \<Rightarrow> h2_result \<Rightarrow> bool" where
  "same_result r r' \<longleftrightarrow> snd r = snd r' \<and> same_client (fst r) (fst r')"

lemma same_client_data:
  assumes "same_client c c'"
  shows "same_result (on_client_data d c) (on_client_data d c')"
proof (cases "c = c'")
  case False
  then have c: "hc_phase c = H2Closing" "c\<lparr>hc_recv_buf := []\<rparr> = c'\<lparr>hc_recv_buf := []\<rparr>"
    using assms by (auto simp: same_client_def)
  then have "hc_phase c' = H2Closing" by (metis h2_connection.select_convs(1) h2_connection.surjective h2_connection.update_convs(3))
  with c(1) obtain b b' where "on_client_data d c = (c\<lparr>hc_recv_buf := b\<rparr>, [])" "on_client_data d c' = (c'\<lparr>hc_recv_buf := b'\<rparr>, [])"
    by (metis closing_client_data)
  then show ?thesis using c by (simp add: same_result_def same_client_def)
qed (simp add: same_result_def same_client_def)

lemma client_chunks: "same_result (then_do (on_client_data d c) (on_client_data e)) (on_client_data (d @ e) c)"
proof (cases "hc_phase c = H2AwaitingPreface")
  case False
  have "on_client_data x c = client_drain (client_extend x c)" for x
    using False by (simp add: on_client_data_def client_extend_def)
  moreover have "hc_phase (fst (client_drain (client_extend d c))) \<noteq> H2AwaitingPreface"
    by (rule client_drain_phase) (use False in \<open>simp add: client_extend_def\<close>)
  ultimately have "then_do (on_client_data d c) (on_client_data e) =
    then_do (client_drain (client_extend d c)) (\<lambda>c. client_drain (client_extend e c))"
    by (simp add: then_do_def case_prod_beta) (simp add: on_client_data_def client_extend_def)
  then show ?thesis using client_drain_chunks [of "client_extend d c" e] \<open>\<And>x. on_client_data x c = _ x\<close>
    by (simp add: client.extend_extend same_result_def same_client_def)
next
  case True
  let ?p = "length CLIENT_PREFACE" and ?b = "hc_recv_buf c @ d"
  consider "length ?b < ?p" | "?p \<le> length ?b" "take ?p ?b \<noteq> CLIENT_PREFACE" | "?p \<le> length ?b" "take ?p ?b = CLIENT_PREFACE"
    by linarith
  then show ?thesis
  proof cases
    case 1
    then have "on_client_data d c = (client_extend d c, [])" using True by (simp add: on_client_data_def client_extend_def)
    then have "then_do (on_client_data d c) (on_client_data e) = on_client_data e (client_extend d c)" by simp
    also have "\<dots> = on_client_data (d @ e) c" by (simp add: on_client_data_def client.extend_extend)
    finally show ?thesis by (simp add: same_result_def same_client_def)
  next
    case 2
    let ?l = "[CaLog ''invalid H2 preface'', CaDownstreamClose]"
    have "on_client_data d c = (client_extend d c\<lparr>hc_phase := H2Closing\<rparr>, ?l)"
      "on_client_data (d @ e) c = (client_extend (d @ e) c\<lparr>hc_phase := H2Closing\<rparr>, ?l)"
      using 2 True by (simp_all add: on_client_data_def client_extend_def flip: append_assoc)
    moreover obtain b where "on_client_data e (client_extend d c\<lparr>hc_phase := H2Closing\<rparr>) =
      (client_extend d c\<lparr>hc_phase := H2Closing, hc_recv_buf := b\<rparr>, [])"
      by (rule closing_client_data [of "client_extend d c\<lparr>hc_phase := H2Closing\<rparr>" e]) simp_all
    ultimately show ?thesis by (simp add: same_result_def same_client_def client_extend_def)
  next
    case 3
    let ?c = "\<lambda>x. c\<lparr>hc_recv_buf := drop ?p (hc_recv_buf c @ x), hc_phase := H2Handshaking\<rparr>"
    let ?s = "[CaDownstreamSend our_settings]"
    have d: "on_client_data d c = then_do (?c d, ?s) client_drain"
      "on_client_data (d @ e) c = then_do (?c (d @ e), ?s) client_drain"
      using 3 True by (simp_all add: on_client_data_def client_extend_def flip: append_assoc)
    have "hc_phase (fst (client_drain (?c d))) \<noteq> H2AwaitingPreface" by (rule client_drain_phase) simp
    then have "on_client_data e (fst (client_drain (?c d))) = client_drain (client_extend e (fst (client_drain (?c d))))"
      by (simp add: on_client_data_def client_extend_def)
    moreover have "client_extend e (?c d) = ?c (d @ e)" using 3 by (simp add: client_extend_def)
    ultimately show ?thesis using client_drain_chunks [of "?c d" e] unfolding d
      by (simp add: same_result_def same_client_def then_do_def case_prod_beta prod_eq_iff)
  qed
qed

lemma client_chunk_list: "same_result (run_events on_client_data (d # ds) c) (on_client_data (concat (d # ds)) c)"
proof (induction ds arbitrary: d)
  case Nil
  then show ?case by (cases "on_client_data d c") (simp add: same_result_def same_client_def)
next
  case (Cons e ds)
  have run: "same_result (run_events on_client_data ds x) (run_events on_client_data ds y)" if "same_client x y" for x y
    using that
  proof (induction ds arbitrary: x y)
    case (Cons f ds)
    from same_client_data [OF Cons.prems, of f] Cons.IH
    show ?case by (auto simp: same_result_def then_do_def case_prod_beta)
  qed (simp add: same_result_def)
  have "same_result (run_events on_client_data (d # e # ds) c) (run_events on_client_data ((d @ e) # ds) c)"
    using client_chunks [of d c e] run by (auto simp: same_result_def then_do_def case_prod_beta)
  with Cons.IH [of "d @ e"] show ?case
    by (auto simp: same_result_def same_client_def)
qed

lemma upstream_chunk_list: "run_events on_upstream_data (d # ds) c = on_upstream_data (concat (d # ds)) c"
proof (induction ds arbitrary: d)
  case Nil
  then show ?case by (cases "on_upstream_data d c") simp
next
  case (Cons e ds)
  have "run_events on_upstream_data (d # e # ds) c = run_events on_upstream_data ((d @ e) # ds) c"
    unfolding run_events_Cons2 upstream_chunks by simp
  with Cons.IH [of "d @ e"] show ?case by simp
qed

end
