(* ===== verification/Http2_Props.thy ===== *)
theory Http2_Props
  imports Http2
begin

text \<open>
  What the HTTP/2 activator guarantees: chunk independence, order of the client frames across
  the handshake with the backend, and the need for a backend as a function of the open streams.
\<close>

unbundle bit_operations_syntax

section \<open>Order of the client frames\<close>

definition frame_turn :: "u8 list \<Rightarrow> (u8 list \<times> (h2_frame \<times> u8 list) list) option" where
  "frame_turn buf =
     (case parse_frame buf of None \<Rightarrow> None | Some (frame, n) \<Rightarrow> Some (drop n buf, [(frame, take n buf)]))"

text \<open>The complete frames at the front of a buffer, with their bytes.\<close>

definition complete_frames :: "u8 list \<Rightarrow> (h2_frame \<times> u8 list) list" where
  "complete_frames buf = snd (drain_loop frame_turn (length buf) buf)"

fun upto_goaway :: "(h2_frame \<times> u8 list) list \<Rightarrow> (h2_frame \<times> u8 list) list" where
  "upto_goaway [] = []"
| "upto_goaway (f # fs) = f # (if hf_frame_type (fst f) = FtGoaway then [] else upto_goaway fs)"

definition forwarded :: "h2_frame \<Rightarrow> bool" where
  "forwarded frame \<longleftrightarrow> hf_frame_type frame \<noteq> FtSettings \<and> hf_frame_type frame \<noteq> FtPing"

text \<open>The bytes of the frames that are meant for the backend.\<close>

definition for_backend :: "(h2_frame \<times> u8 list) list \<Rightarrow> u8 list list" where
  "for_backend fs = map snd (filter (forwarded \<circ> fst) (upto_goaway fs))"

fun upstream_sends :: "h2_conn_action list \<Rightarrow> u8 list list" where
  "upstream_sends [] = []"
| "upstream_sends (CaUpstreamSend b # as) = b # upstream_sends as"
| "upstream_sends (_ # as) = upstream_sends as"

lemma upstream_sends_append [simp]: "upstream_sends (xs @ ys) = upstream_sends xs @ upstream_sends ys"
  by (induction xs rule: upstream_sends.induct) simp_all

lemma upstream_sends_map [simp]: "upstream_sends (map CaUpstreamSend bs) = bs"
  by (induction bs) simp_all

lemma upto_goaway_append:
  "upto_goaway (xs @ ys) = upto_goaway xs @ (if list_ex (\<lambda>f. hf_frame_type (fst f) = FtGoaway) xs then [] else upto_goaway ys)"
  by (induction xs) auto

interpretation frames: framing frame_turn "\<lambda>b. b" "\<lambda>d b. b @ d"
proof unfold_locales
  fix s s' d e :: "u8 list" and a
  assume "frame_turn s = Some (s', a)"
  then obtain frame n where p: "parse_frame s = Some (frame, n)" "s' = drop n s" "a = [(frame, take n s)]"
    by (auto simp: frame_turn_def split: option.splits)
  note n = parse_frame_bounds [OF p(1)]
  show "length s' < length s" using n p(2) by auto
  show "frame_turn (s @ d) = Some (s' @ d, a)" using n p parse_frame_append [OF p(1), of d] by (simp add: frame_turn_def)
qed simp_all

text \<open>What handling one frame does to the stream of bytes to the backend.\<close>

definition passes_on :: "u8 list list \<Rightarrow> h2_connection \<Rightarrow> h2_result \<Rightarrow> bool" where
  "passes_on bs c r \<longleftrightarrow>
     hc_upstream_state (fst r) = hc_upstream_state c \<and>
     (if hc_upstream_state c = UpReady
      then upstream_sends (snd r) = bs \<and> hc_buffered_frames (fst r) = hc_buffered_frames c
      else upstream_sends (snd r) = [] \<and> hc_buffered_frames (fst r) = hc_buffered_frames c @ bs)"

lemma passes_on_cong:
  assumes "hc_upstream_state c = hc_upstream_state c'" "hc_buffered_frames c = hc_buffered_frames c'"
  shows "passes_on bs c r \<longleftrightarrow> passes_on bs c' r"
  unfolding passes_on_def assms ..

lemma client_turn_cases:
  assumes "client_turn s = Some (s', a)"
  obtains frame n where "parse_frame (hc_recv_buf s) = Some (frame, n)"
    "hc_phase s = H2Closing" "s' = s\<lparr>hc_recv_buf := drop n (hc_recv_buf s)\<rparr>" "a = []"
  | frame n where "parse_frame (hc_recv_buf s) = Some (frame, n)"
    "hc_phase s \<noteq> H2Closing"
    "handle_client_frame frame (take n (hc_recv_buf s)) (s\<lparr>hc_recv_buf := drop n (hc_recv_buf s)\<rparr>) = (s', a)"
  using assms by (auto simp: client_turn_def Let_def split: option.splits if_splits)

lemma passes_on_then:
  assumes "passes_on bs c r" "passes_on bs' (fst r) (f (fst r))"
  shows "passes_on (bs @ bs') c (then_do r f)"
  using assms by (auto simp: passes_on_def then_do_def case_prod_beta split: if_splits)

lemma window_updates_sends [simp]: "upstream_sends (window_updates CaDownstreamSend sid payload) = []"
  by (simp add: window_updates_def Let_def)

lemma handle_client_frame_passes:
  "passes_on (if forwarded frame then [raw] else []) c (handle_client_frame frame raw c)"
  by (cases "hf_frame_type frame")
    (simp_all add: handle_client_frame_def passes_on_def forwarded_def stream_defs)

lemma handle_client_frame_closing:
  "hc_phase c \<noteq> H2Closing \<Longrightarrow> hc_phase (fst (handle_client_frame frame raw c)) = H2Closing \<longleftrightarrow> hf_frame_type frame = FtGoaway"
  by (cases "hf_frame_type frame") (simp_all add: handle_client_frame_def stream_defs)

lemma client_drain_buf: "hc_recv_buf (fst (drain_loop client_turn n c)) = fst (drain_loop frame_turn n (hc_recv_buf c))"
proof (induction n arbitrary: c)
  case (Suc n)
  show ?case
  proof (cases "parse_frame (hc_recv_buf c)")
    case (Some r)
    obtain frame k where r: "r = (frame, k)" by (cases r)
    let ?c = "c\<lparr>hc_recv_buf := drop k (hc_recv_buf c)\<rparr>"
    obtain c1 a1 where h: "client_turn c = Some (c1, a1)" using Some r by (cases "client_turn c") (auto simp: client_turn_def Let_def)
    then have "hc_recv_buf c1 = drop k (hc_recv_buf c)"
      using Some r handle_client_frame_recv_buf [of frame "take k (hc_recv_buf c)" ?c]
      by (auto simp: client_turn_def Let_def split: if_splits)
    then show ?thesis using Suc.IH [of c1] Some r h by (simp add: frame_turn_def case_prod_beta)
  qed (simp add: client_turn_def frame_turn_def)
qed simp

lemma client_drain_passes:
  assumes "hc_phase c \<noteq> H2Closing"
  shows "passes_on (for_backend (snd (drain_loop frame_turn n (hc_recv_buf c)))) c (drain_loop client_turn n c) \<and>
    (hc_phase (fst (drain_loop client_turn n c)) = H2Closing \<longleftrightarrow>
      list_ex (\<lambda>f. hf_frame_type (fst f) = FtGoaway) (snd (drain_loop frame_turn n (hc_recv_buf c))))"
  using assms
proof (induction n arbitrary: c)
  case 0
  then show ?case by (simp add: passes_on_def for_backend_def)
next
  case (Suc n)
  show ?case
  proof (cases "parse_frame (hc_recv_buf c)")
    case None
    then show ?thesis using Suc.prems by (simp add: client_turn_def frame_turn_def passes_on_def for_backend_def)
  next
    case (Some r)
    obtain frame k where r: "r = (frame, k)" by (cases r)
    define raw where "raw = take k (hc_recv_buf c)"
    define c0 where "c0 = c\<lparr>hc_recv_buf := drop k (hc_recv_buf c)\<rparr>"
    obtain c1 a1 where h: "handle_client_frame frame raw c0 = (c1, a1)" by fastforce
    have turn: "client_turn c = Some (c1, a1)" "frame_turn (hc_recv_buf c) = Some (hc_recv_buf c0, [(frame, raw)])"
      using Some r h Suc.prems by (simp_all add: client_turn_def frame_turn_def c0_def raw_def)
    have c0: "hc_phase c0 \<noteq> H2Closing" using Suc.prems by (simp add: c0_def)
    have b1: "hc_recv_buf c1 = hc_recv_buf c0" using handle_client_frame_recv_buf [of frame raw c0] h by simp
    have "hc_upstream_state c0 = hc_upstream_state c" "hc_buffered_frames c0 = hc_buffered_frames c" by (simp_all add: c0_def)
    from passes_on_cong [OF this] have p1: "passes_on (if forwarded frame then [raw] else []) c (c1, a1)"
      using handle_client_frame_passes [of frame raw c0] unfolding h by blast
    have g: "hc_phase c1 = H2Closing \<longleftrightarrow> hf_frame_type frame = FtGoaway"
      using handle_client_frame_closing [OF c0, of frame raw] h by simp
    show ?thesis
    proof (cases "hf_frame_type frame = FtGoaway")
      case True
      with g have c1: "hc_phase c1 = H2Closing" by simp
      from closing_drain [OF this, of n] obtain b where d: "drain_loop client_turn n c1 = (c1\<lparr>hc_recv_buf := b\<rparr>, [])" by blast
      then show ?thesis using True p1 turn d c1 b1
        by (auto simp: passes_on_def for_backend_def case_prod_beta split: if_splits)
    next
      case False
      with g have "hc_phase c1 \<noteq> H2Closing" by simp
      from Suc.IH [OF this] have IH: "passes_on (for_backend (snd (drain_loop frame_turn n (hc_recv_buf c0)))) c1 (drain_loop client_turn n c1)"
        "hc_phase (fst (drain_loop client_turn n c1)) = H2Closing \<longleftrightarrow>
          list_ex (\<lambda>f. hf_frame_type (fst f) = FtGoaway) (snd (drain_loop frame_turn n (hc_recv_buf c0)))"
        by (simp_all add: b1)
      have "passes_on ((if forwarded frame then [raw] else []) @ for_backend (snd (drain_loop frame_turn n (hc_recv_buf c0)))) c
        (then_do (c1, a1) (drain_loop client_turn n))"
        by (rule passes_on_then [OF p1]) (simp add: IH)
      then show ?thesis using turn IH(2) False by (simp add: for_backend_def case_prod_beta split: if_splits)
    qed
  qed
qed

lemma client_data_passes:
  assumes "hc_phase c \<noteq> H2AwaitingPreface" "hc_phase c \<noteq> H2Closing"
  shows "passes_on (for_backend (complete_frames (hc_recv_buf c @ d))) c (on_client_data d c)"
    "hc_phase (fst (on_client_data d c)) = H2Closing \<longleftrightarrow>
       list_ex (\<lambda>f. hf_frame_type (fst f) = FtGoaway) (complete_frames (hc_recv_buf c @ d))"
    "hc_recv_buf (fst (on_client_data d c)) = fst (drain_loop frame_turn (length (hc_recv_buf c @ d)) (hc_recv_buf c @ d))"
proof -
  have d: "on_client_data d c = drain_loop client_turn (length (hc_recv_buf c @ d)) (client_extend d c)"
    using assms by (simp add: on_client_data_def client_drain_def client_extend_def)
  have e: "hc_phase (client_extend d c) \<noteq> H2Closing" "hc_recv_buf (client_extend d c) = hc_recv_buf c @ d"
    "hc_upstream_state (client_extend d c) = hc_upstream_state c" "hc_buffered_frames (client_extend d c) = hc_buffered_frames c"
    using assms by (simp_all add: client_extend_def)
  note p = client_drain_passes [OF e(1), of "length (hc_recv_buf c @ d)", unfolded e(2)]
  show "passes_on (for_backend (complete_frames (hc_recv_buf c @ d))) c (on_client_data d c)"
    using conjunct1 [OF p] unfolding d complete_frames_def passes_on_def e(3,4) .
  show "hc_phase (fst (on_client_data d c)) = H2Closing \<longleftrightarrow>
       list_ex (\<lambda>f. hf_frame_type (fst f) = FtGoaway) (complete_frames (hc_recv_buf c @ d))"
    using conjunct2 [OF p] unfolding d complete_frames_def .
  show "hc_recv_buf (fst (on_client_data d c)) = fst (drain_loop frame_turn (length (hc_recv_buf c @ d)) (hc_recv_buf c @ d))"
    unfolding d client_drain_buf e(2) ..
qed

lemma complete_frames_append:
  "complete_frames (b @ e) = complete_frames b @ complete_frames (fst (drain_loop frame_turn (length b) b) @ e)"
proof -
  have "snd (then_do (drain_loop frame_turn (length b) b) (\<lambda>b. drain_loop frame_turn (length (b @ e)) (b @ e))) = complete_frames (b @ e)"
    using frames.drain_chunks [of b "length b" e] by (simp add: complete_frames_def)
  then show ?thesis by (simp add: complete_frames_def then_do_def case_prod_beta)
qed

text \<open>A settings frame of the backend ends the handshake and sends what was kept.\<close>

lemma settings_flush:
  assumes "hc_upstream_recv_buf c = []" "hc_upstream_state c = UpHandshaking" "length payload < 2 ^ 24"
  shows "upstream_sends (snd (on_upstream_data (serialize_frame FtSettings flags 0 payload) c)) =
      (if flags AND FLAG_ACK \<noteq> 0 then [] else [build_settings_ack]) @ hc_buffered_frames c"
    "hc_buffered_frames (fst (on_upstream_data (serialize_frame FtSettings flags 0 payload) c)) = []"
    "hc_upstream_state (fst (on_upstream_data (serialize_frame FtSettings flags 0 payload) c)) = UpReady"
    "hc_phase (fst (on_upstream_data (serialize_frame FtSettings flags 0 payload) c)) = hc_phase c"
    "hc_recv_buf (fst (on_upstream_data (serialize_frame FtSettings flags 0 payload) c)) = hc_recv_buf c"
proof -
  let ?b = "serialize_frame FtSettings flags 0 payload"
  let ?f = "\<lparr>hf_frame_type = FtSettings, hf_flags = flags, hf_stream_id = 0, hf_payload = payload\<rparr>"
  obtain n where n: "length ?b = Suc n" by (cases "length ?b") (auto simp: FRAME_HEADER_LEN_def)
  let ?c = "upstream_extend ?b c"
  have "parse_frame (?b @ []) = Some (?f, length ?b)"
    unfolding parse_serialize [OF assms(3)] by (simp add: frame_type_from_u8_def)
  then have t: "upstream_turn ?c = Some (handle_upstream_frame ?f ?b c)"
    using assms(1) by (cases c) (simp add: upstream_turn_def upstream_extend_def)
  obtain c1 a1 where h: "handle_upstream_frame ?f ?b c = (c1, a1)" by fastforce
  have "hc_upstream_recv_buf c1 = []" using handle_upstream_frame_recv_buf [of ?f ?b c] h assms(1) by simp
  then have "upstream_turn c1 = None" by (simp add: upstream_turn_def parse_frame_def FRAME_HEADER_LEN_def)
  then have "drain_loop upstream_turn n c1 = (c1, [])" by (cases n) simp_all
  then have "on_upstream_data ?b c = handle_upstream_frame ?f ?b c"
    using t h n assms(1) by (simp add: on_upstream_data_def upstream_extend_def)
  then show "upstream_sends (snd (on_upstream_data ?b c)) = (if flags AND FLAG_ACK \<noteq> 0 then [] else [build_settings_ack]) @ hc_buffered_frames c"
    "hc_buffered_frames (fst (on_upstream_data ?b c)) = []" "hc_upstream_state (fst (on_upstream_data ?b c)) = UpReady"
    "hc_phase (fst (on_upstream_data ?b c)) = hc_phase c" "hc_recv_buf (fst (on_upstream_data ?b c)) = hc_recv_buf c"
    using assms(2) by (simp_all add: handle_upstream_frame_def upstream_ready_def flush_buffered_def)
qed

lemma handle_client_frame_upstream_buf: "hc_upstream_recv_buf (fst (handle_client_frame frame raw c)) = hc_upstream_recv_buf c"
  by (cases "hf_frame_type frame") (simp_all add: handle_client_frame_def stream_defs)

lemma client_data_upstream_buf: "hc_upstream_recv_buf (fst (on_client_data d c)) = hc_upstream_recv_buf c"
proof -
  have d: "hc_upstream_recv_buf (fst (client_drain x)) = hc_upstream_recv_buf c" if "hc_upstream_recv_buf x = hc_upstream_recv_buf c" for x
    unfolding client_drain_def
  proof (rule drain_loop_invariant [where P = "\<lambda>x. hc_upstream_recv_buf x = hc_upstream_recv_buf c", OF _ that])
    fix s s' a assume "hc_upstream_recv_buf s = hc_upstream_recv_buf c" "client_turn s = Some (s', a)"
    then show "hc_upstream_recv_buf s' = hc_upstream_recv_buf c"
      by (elim client_turn_cases) (use handle_client_frame_upstream_buf in \<open>force simp: prod_eq_iff\<close>)+
  qed
  show ?thesis by (simp add: on_client_data_def Let_def client_extend_def d)
qed

lemma closing_no_sends:
  assumes "hc_phase c = H2Closing"
  shows "upstream_sends (snd (on_client_data d c)) = []" "hc_buffered_frames (fst (on_client_data d c)) = hc_buffered_frames c"
proof -
  obtain b where "on_client_data d c = (c\<lparr>hc_recv_buf := b\<rparr>, [])" using closing_client_data [OF assms] .
  then show "upstream_sends (snd (on_client_data d c)) = []" "hc_buffered_frames (fst (on_client_data d c)) = hc_buffered_frames c"
    by simp_all
qed

section \<open>Counting the streams\<close>

text \<open>The number of streams after connection actions, when none is closed that is not open.\<close>

fun count_after :: "nat \<Rightarrow> h2_conn_action list \<Rightarrow> nat option" where
  "count_after n [] = Some n"
| "count_after n (CaStreamOpened # as) = count_after (Suc n) as"
| "count_after n (CaStreamClosed # as) = (case n of 0 \<Rightarrow> None | Suc m \<Rightarrow> count_after m as)"
| "count_after n (_ # as) = count_after n as"

lemma count_after_append [simp]: "count_after n (xs @ ys) = Option.bind (count_after n xs) (\<lambda>m. count_after m ys)"
  by (induction n xs rule: count_after.induct) (simp_all split: nat.split)

lemma count_after_sends [simp]:
  "count_after n (map CaUpstreamSend bs) = Some n"
  "count_after n (window_updates CaDownstreamSend sid payload) = Some n"
  "count_after n (window_updates CaUpstreamSend sid payload) = Some n"
  by (induction bs) (simp_all add: window_updates_def Let_def)

lemma count_after_closed [simp]: "count_after n (replicate n CaStreamClosed) = Some 0"
  by (induction n) simp_all

definition streams_ok :: "h2_connection \<Rightarrow> bool" where
  "streams_ok c \<longleftrightarrow> distinct (map fst (hc_streams c))"

text \<open>An operation counts the streams it opens and closes, and does not go back to a connection without upstream.\<close>

definition counts :: "(h2_connection \<Rightarrow> h2_result) \<Rightarrow> bool" where
  "counts f \<longleftrightarrow> (\<forall>c. streams_ok c \<longrightarrow> streams_ok (fst (f c)) \<and>
     count_after (stream_count c) (snd (f c)) = Some (stream_count (fst (f c)))) \<and>
     (\<forall>c. hc_upstream_state c \<noteq> UpNone \<longrightarrow> hc_upstream_state (fst (f c)) \<noteq> UpNone)"

lemma counts_then: "counts f \<Longrightarrow> (\<And>x. counts (g x)) \<Longrightarrow> counts (\<lambda>c. then_do (f c) (g c))"
  by (simp add: counts_def then_do_def case_prod_beta)

lemma counts_if: "counts f \<Longrightarrow> counts g \<Longrightarrow> counts (\<lambda>c. if P c then f c else g c)"
  by (simp add: counts_def)

lemma counts_same:
  assumes "\<And>c. hc_streams (u c) = hc_streams c" "\<And>c. hc_upstream_state c \<noteq> UpNone \<Longrightarrow> hc_upstream_state (u c) \<noteq> UpNone"
    "\<And>c n. count_after n (a c) = Some n"
  shows "counts (\<lambda>c. (u c, a c))"
  using assms by (simp add: counts_def streams_ok_def stream_count_def)

lemma map_fst_update_first [simp]: "map fst (update_first sid f ss) = map fst ss"
  by (induction ss) auto

lemma length_update_first [simp]: "length (update_first sid f ss) = length ss"
  by (induction ss) auto

lemma length_remove_stream:
  assumes "distinct (map fst ss)" "sid \<in> fst ` set ss"
  shows "Suc (length (filter (\<lambda>(i, _). i \<noteq> sid) ss)) = length ss"
  using assms
proof (induction ss)
  case (Cons x ss)
  show ?case
  proof (cases "fst x = sid")
    case True
    then have "filter (\<lambda>(i, _). i \<noteq> sid) ss = ss" using Cons.prems by (auto simp: filter_id_conv rev_image_eqI)
    then show ?thesis using True by (cases x) simp
  next
    case False
    then show ?thesis using Cons by (cases x) auto
  qed
qed simp

lemma counts_end_stream: "counts (end_client_stream flags sid)" "counts (end_backend_stream flags sid)"
proof -
  have *: "distinct (map fst (filter (\<lambda>(i, _). i \<noteq> sid) (update_first sid f ss)))"
    "list_ex (\<lambda>(i, s). i = sid \<and> hs_client_end_stream s \<and> hs_backend_end_stream s) (update_first sid f ss) \<Longrightarrow>
      count_after (length ss) [CaStreamClosed] = Some (length (filter (\<lambda>(i, _). i \<noteq> sid) (update_first sid f ss)))"
    if "distinct (map fst ss)" for f ss
  proof -
    have d: "distinct (map fst (update_first sid f ss))" and l: "length (update_first sid f ss) = length ss"
      using that by simp_all
    then show "distinct (map fst (filter (\<lambda>(i, _). i \<noteq> sid) (update_first sid f ss)))" by (simp add: distinct_map_filter)
    assume "list_ex (\<lambda>(i, s). i = sid \<and> hs_client_end_stream s \<and> hs_backend_end_stream s) (update_first sid f ss)"
    then have "sid \<in> fst ` set (update_first sid f ss)" by (force simp: list_ex_iff)
    from length_remove_stream [OF d this]
    show "count_after (length ss) [CaStreamClosed] = Some (length (filter (\<lambda>(i, _). i \<noteq> sid) (update_first sid f ss)))"
      by (auto simp: l split: nat.split)
  qed
  show "counts (end_client_stream flags sid)" "counts (end_backend_stream flags sid)"
    using * by (simp_all add: counts_def streams_ok_def stream_count_def end_client_stream_def end_backend_stream_def
        check_stream_closed_def set_client_end_stream_def set_backend_end_stream_def remove_stream_def Let_def)
qed

lemma counts_reset_stream: "counts (reset_stream sid)"
proof -
  have "count_after (length ss) [CaStreamClosed] = Some (length (filter (\<lambda>(i, _). i \<noteq> sid) ss))"
    if "distinct (map fst ss)" "list_ex (\<lambda>(i, _). i = sid) ss" for ss :: "(u32 \<times> h2_stream) list"
  proof -
    have "sid \<in> fst ` set ss" using that(2) by (force simp: list_ex_iff)
    from length_remove_stream [OF that(1) this] show ?thesis by (auto split: nat.split)
  qed
  then show ?thesis
    by (simp add: counts_def streams_ok_def stream_count_def reset_stream_def has_stream_def remove_stream_def distinct_map_filter)
qed

lemma counts_buffer: "counts (buffer_or_forward raw)"
  unfolding buffer_or_forward_def [abs_def] by (intro counts_if counts_same) simp_all

lemma counts_open:
  "counts (\<lambda>c. if 0 < sid \<and> \<not> has_stream sid c
     then let c = open_stream sid c
          in (if sid > hc_last_client_stream_id c then c\<lparr>hc_last_client_stream_id := sid\<rparr> else c, [CaStreamOpened])
     else (c, []))"
  by (auto simp: counts_def streams_ok_def stream_count_def has_stream_def open_stream_def Let_def list_ex_iff)

lemma counts_upstream_ready: "counts upstream_ready"
  unfolding upstream_ready_def [abs_def] flush_buffered_def [abs_def]
  by (intro counts_if counts_same) simp_all

lemma counts_close_streams: "counts close_streams"
  by (simp add: counts_def close_streams_def streams_ok_def stream_count_def)

lemma counts_update:
  assumes "counts f" "\<And>c. hc_streams (u c) = hc_streams c" "\<And>c. hc_upstream_state (u c) = hc_upstream_state c"
  shows "counts (\<lambda>c. f (u c))"
proof -
  have u: "streams_ok (u c) = streams_ok c" "stream_count (u c) = stream_count c" for c
    by (simp_all add: streams_ok_def stream_count_def assms)
  show ?thesis
    unfolding counts_def
  proof (intro conjI allI impI)
    fix c
    show "hc_upstream_state (fst (f (u c))) \<noteq> UpNone" if "hc_upstream_state c \<noteq> UpNone"
      using assms(1) that unfolding counts_def by (simp add: assms(3))
    assume "streams_ok c"
    then have "streams_ok (fst (f (u c))) \<and> count_after (stream_count (u c)) (snd (f (u c))) = Some (stream_count (fst (f (u c))))"
      using assms(1) u(1) unfolding counts_def by blast
    then show "streams_ok (fst (f (u c)))" "count_after (stream_count c) (snd (f (u c))) = Some (stream_count (fst (f (u c))))"
      by (simp_all add: u)
  qed
qed

lemma counts_Pair: "(\<And>n. count_after n a = Some n) \<Longrightarrow> counts (\<lambda>c. (c, a))"
  by (rule counts_same) simp_all

lemmas counts_intros =
  counts_if counts_then counts_end_stream counts_buffer counts_reset_stream counts_upstream_ready counts_Pair

lemma counts_handle_client_frame: "counts (handle_client_frame frame raw)"
proof -
  have settings: "counts (\<lambda>c. (check_handshake_complete (c\<lparr>hc_client_settings_acked := True\<rparr>), []))"
    by (rule counts_same) (simp_all add: check_handshake_complete_def)
  have goaway: "counts (\<lambda>c. buffer_or_forward raw (c\<lparr>hc_phase := H2Closing\<rparr>))"
    by (rule counts_update [OF counts_buffer]) simp_all
  show ?thesis
    unfolding handle_client_frame_def [abs_def] Let_def
    by (cases "hf_frame_type frame"; simp only: frame_type.case;
        intro settings goaway counts_open [unfolded Let_def] counts_intros; simp)
qed

lemma counts_handle_upstream_frame: "counts (handle_upstream_frame frame raw)"
proof -
  have settings: "counts (\<lambda>c. upstream_ready (c\<lparr>hc_upstream_settings_acked := True\<rparr>))"
    by (rule counts_update [OF counts_upstream_ready]) simp_all
  have goaway: "counts (\<lambda>c. (c\<lparr>hc_phase := H2Closing\<rparr>, [CaDownstreamSend raw]))"
    by (rule counts_same) simp_all
  show ?thesis
    unfolding handle_upstream_frame_def [abs_def] Let_def
    by (cases "hf_frame_type frame"; simp only: frame_type.case;
        intro settings goaway counts_intros; simp)
qed

lemma counts_drain:
  assumes "\<And>c. turn c = None \<or> (\<exists>f. counts f \<and> turn c = Some (f c))"
  shows "counts (drain_loop turn n)"
proof (induction n)
  case 0
  then show ?case by (simp add: counts_def)
next
  case (Suc n)
  have "drain_loop turn (Suc n) c = (c, []) \<or> (\<exists>f. counts f \<and> drain_loop turn (Suc n) c = then_do (f c) (drain_loop turn n))" for c
    using assms [of c] by (auto simp: then_do_def case_prod_beta)
  moreover have "counts (\<lambda>c. then_do (f c) (drain_loop turn n))" if "counts f" for f
    using counts_then [OF that, of "\<lambda>_. drain_loop turn n"] Suc by simp
  ultimately show ?case
    unfolding counts_def by (metis count_after.simps(1) fst_conv snd_conv)
qed

lemma counts_client_data: "counts (on_client_data d)"
proof -
  have turn: "client_turn c = None \<or> (\<exists>f. counts f \<and> client_turn c = Some (f c))" for c
  proof (cases "parse_frame (hc_recv_buf c)")
    case (Some r)
    obtain frame n where r: "r = (frame, n)" by (cases r)
    let ?u = "\<lambda>x. x\<lparr>hc_recv_buf := drop n (hc_recv_buf c)\<rparr>"
    have "counts (\<lambda>x. (?u x, []))" by (rule counts_same) simp_all
    moreover have "counts (\<lambda>x. handle_client_frame frame (take n (hc_recv_buf c)) (?u x))"
      by (rule counts_update [OF counts_handle_client_frame]) simp_all
    ultimately show ?thesis using Some r by (auto simp: client_turn_def Let_def)
  qed (simp add: client_turn_def)
  have drain: "counts client_drain"
    using counts_drain [of client_turn, OF turn] unfolding counts_def client_drain_def by auto
  have "counts (\<lambda>c. if hc_phase c = H2AwaitingPreface
    then if length (hc_recv_buf c) < length CLIENT_PREFACE then (c, [])
      else if take (length CLIENT_PREFACE) (hc_recv_buf c) \<noteq> CLIENT_PREFACE
      then (c\<lparr>hc_phase := H2Closing\<rparr>, [CaLog ''invalid H2 preface'', CaDownstreamClose])
      else then_do
         (c\<lparr>hc_recv_buf := drop (length CLIENT_PREFACE) (hc_recv_buf c), hc_phase := H2Handshaking\<rparr>, [CaDownstreamSend our_settings])
         client_drain
    else client_drain c)"
    by (intro counts_if counts_then drain counts_same) simp_all
  then have "counts (\<lambda>c. on_client_data d c)"
    unfolding on_client_data_def Let_def
    by (rule counts_update [where u = "client_extend d"]) (simp_all add: client_extend_def)
  then show ?thesis .
qed

lemma counts_upstream_data: "counts (on_upstream_data d)"
proof -
  have turn: "upstream_turn c = None \<or> (\<exists>f. counts f \<and> upstream_turn c = Some (f c))" for c
  proof (cases "parse_frame (hc_upstream_recv_buf c)")
    case (Some r)
    obtain frame n where r: "r = (frame, n)" by (cases r)
    have "counts (\<lambda>x. handle_upstream_frame frame (take n (hc_upstream_recv_buf c)) (x\<lparr>hc_upstream_recv_buf := drop n (hc_upstream_recv_buf c)\<rparr>))"
      by (rule counts_update [OF counts_handle_upstream_frame]) simp_all
    then show ?thesis using Some r by (auto simp: upstream_turn_def Let_def)
  qed (simp add: upstream_turn_def)
  have drain: "counts (\<lambda>c. drain_loop upstream_turn (length (hc_upstream_recv_buf c)) c)"
    using counts_drain [of upstream_turn, OF turn] unfolding counts_def by auto
  then have "counts (\<lambda>c. on_upstream_data d c)"
    unfolding on_upstream_data_def Let_def
    by (rule counts_update [where u = "upstream_extend d"]) (simp_all add: upstream_extend_def)
  then show ?thesis .
qed

lemma counts_upstream_connected: "counts on_upstream_connected"
  unfolding on_upstream_connected_def [abs_def] by (rule counts_same) simp_all

lemma counts_upstream_closed: "counts on_upstream_closed"
  unfolding on_upstream_closed_def [abs_def] Let_def by (intro counts_then counts_if counts_close_streams counts_same) simp_all

lemma counts_upstream_failed: "counts on_upstream_failed"
  unfolding on_upstream_failed_def [abs_def] by (intro counts_then counts_close_streams counts_same) simp_all

section \<open>The need for a backend\<close>

definition open_streams :: "(stream \<times> h2_connection) list \<Rightarrow> nat" where
  "open_streams conns = sum_list (map (stream_count \<circ> snd) conns)"

definition has_upstream :: "http2_activator \<Rightarrow> stream \<Rightarrow> bool" where
  "has_upstream act h \<longleftrightarrow> (\<exists>c. map_of (ha_connections act) h = Some c \<and> hc_upstream_state c \<noteq> UpNone)"

definition h2_ok :: "http2_activator \<Rightarrow> bool" where
  "h2_ok act \<longleftrightarrow>
     distinct (map fst (ha_connections act)) \<and>
     (\<forall>h c. map_of (ha_connections act) h = Some c \<longrightarrow> streams_ok c) \<and>
     ha_total_h2_streams act = open_streams (ha_connections act) \<and>
     distinct (map fst (ha_upstream_to_downstream act)) \<and>
     distinct (ha_pending_connects act @ map snd (ha_upstream_to_downstream act)) \<and>
     (\<forall>h \<in> set (ha_pending_connects act) \<union> snd ` set (ha_upstream_to_downstream act). has_upstream act h)"

definition h2_need :: "http2_activator \<Rightarrow> act_backend_need" where
  "h2_need act = (if 0 < ha_total_h2_streams act then NeedActive else NeedNone)"

fun h2_legal :: "act_event \<Rightarrow> http2_activator \<Rightarrow> bool" where
  "h2_legal (EvStreamOpen h) act = (map_of (ha_connections act) h = None)"
| "h2_legal _ act = True"

lemma open_streams_update:
  assumes "distinct (map fst conns)" "map_of conns h = Some c"
  shows "open_streams (AList.update h c' conns) + stream_count c = open_streams conns + stream_count c'"
  using assms by (induction conns) (auto simp: open_streams_def split: if_splits)

lemma open_streams_delete:
  assumes "distinct (map fst conns)" "map_of conns h = Some c"
  shows "open_streams (AList.delete h conns) + stream_count c = open_streams conns"
  using assms
proof (induction conns)
  case (Cons x conns)
  show ?case
  proof (cases "fst x = h")
    case True
    then have "AList.delete h conns = conns" using Cons.prems by (auto simp: AList.delete_eq filter_id_conv rev_image_eqI)
    then show ?thesis using True Cons.prems by (cases x) (auto simp: open_streams_def AList.delete_eq)
  next
    case False
    then show ?thesis using Cons by (cases x) (auto simp: open_streams_def AList.delete_eq)
  qed
qed simp

lemma open_streams_fresh: "map_of conns h = None \<Longrightarrow> open_streams (AList.update h c conns) = open_streams conns + stream_count c"
  by (induction conns) (auto simp: open_streams_def split: if_splits)

lemma process_conn_actions_count:
  assumes "count_after n cas = Some m" "ha_total_h2_streams act = k + n"
  shows "fst (h2_process_conn_actions h cas act) = act\<lparr>ha_total_h2_streams := k + m\<rparr> \<and>
    quiet (snd (h2_process_conn_actions h cas act))"
  using assms
proof (induction n cas arbitrary: act rule: count_after.induct)
  case (2 n as)
  from 2(1) [of "act\<lparr>ha_total_h2_streams := Suc (k + n)\<rparr>"] 2(2,3) show ?case
    by (simp add: h2_apply_conn_action_def)
next
  case (3 n as)
  then obtain j where n: "n = Suc j" by (cases n) auto
  from 3(1) [OF n, of "act\<lparr>ha_total_h2_streams := k + j\<rparr>"] 3(2,3) n show ?case
    by (simp add: h2_apply_conn_action_def)
qed (auto simp: h2_apply_conn_action_def split: option.splits)

lemma with_conn_ok:
  assumes "counts f" "h2_ok act"
  shows "h2_ok (fst (h2_with_conn h f act)) \<and> quiet (snd (h2_with_conn h f act)) \<and>
    map fst (ha_connections (fst (h2_with_conn h f act))) = map fst (ha_connections act)"
proof (cases "map_of (ha_connections act) h")
  case None
  then show ?thesis using assms by (simp add: h2_with_conn_def)
next
  case (Some c)
  obtain c' cas where f: "f c = (c', cas)" by fastforce
  have ok: "distinct (map fst (ha_connections act))" "streams_ok c" "ha_total_h2_streams act = open_streams (ha_connections act)"
    using assms(2) Some by (auto simp: h2_ok_def)
  have c': "streams_ok c'" "count_after (stream_count c) cas = Some (stream_count c')"
    "hc_upstream_state c \<noteq> UpNone \<Longrightarrow> hc_upstream_state c' \<noteq> UpNone"
    using assms(1) ok(2) f unfolding counts_def by (metis fst_conv snd_conv)+
  let ?conns = "AList.update h c' (ha_connections act)"
  note u = open_streams_update [OF ok(1) Some, of c']
  obtain k where k: "open_streams (ha_connections act) = k + stream_count c" "open_streams ?conns = k + stream_count c'"
  proof
    have "stream_count c \<le> open_streams (ha_connections act)"
      using open_streams_delete [OF ok(1) Some] by linarith
    then show "open_streams (ha_connections act) = (open_streams (ha_connections act) - stream_count c) + stream_count c"
      "open_streams ?conns = (open_streams (ha_connections act) - stream_count c) + stream_count c'"
      using u by linarith+
  qed
  from process_conn_actions_count [OF c'(2), of "act\<lparr>ha_connections := ?conns\<rparr>" k h] ok(3) k
  obtain as where r: "h2_with_conn h f act = (act\<lparr>ha_connections := ?conns, ha_total_h2_streams := k + stream_count c'\<rparr>, as)" "quiet as"
    using Some f by (cases "h2_process_conn_actions h cas (act\<lparr>ha_connections := ?conns\<rparr>)") (auto simp: h2_with_conn_def)
  have keys: "map fst ?conns = map fst (ha_connections act)"
  proof -
    have "h \<in> fst ` set (ha_connections act)" using Some by (metis map_of_SomeD fst_conv image_eqI)
    then show ?thesis by (simp add: update_keys)
  qed
  let ?act = "act\<lparr>ha_connections := ?conns, ha_total_h2_streams := k + stream_count c'\<rparr>"
  have up: "has_upstream ?act x" if "has_upstream act x" for x
    using that Some c'(3) by (cases "x = h") (auto simp: has_upstream_def update_conv')
  have str: "streams_ok y" if "map_of ?conns x = Some y" for x y
    using that c'(1) assms(2) unfolding h2_ok_def by (cases "x = h") (auto simp: update_conv')
  have "h2_ok ?act"
    using assms(2) up str keys k(2) unfolding h2_ok_def by simp
  then show ?thesis using r keys by simp
qed

lemma h2_ok_new: "h2_ok http2_activator_new"
  by (simp add: h2_ok_def http2_activator_new_def open_streams_def)

lemma need_after:
  assumes "quiet (snd r)"
  shows "last_need (h2_need old) (snd (h2_need_after old r)) = h2_need (fst (h2_need_after old r))"
    "fst (h2_need_after old r) = fst r"
  using assms by (cases r; simp add: h2_need_after_def h2_need_def check_backend_need_transition_def quiet_def)+

lemma connect_ok:
  assumes "h2_ok act" "map_of (ha_connections act) h = Some c" "hc_upstream_state c = UpNone"
  shows "h2_ok (fst (h2_connect h act))" "quiet (snd (h2_connect h act))"
    "ha_total_h2_streams (fst (h2_connect h act)) = ha_total_h2_streams act"
    "map_of (ha_connections (fst (h2_connect h act))) x =
       (if x = h then Some (c\<lparr>hc_upstream_state := UpConnecting\<rparr>) else map_of (ha_connections act) x)"
proof -
  let ?c = "c\<lparr>hc_upstream_state := UpConnecting\<rparr>"
  let ?act = "act\<lparr>ha_connections := AList.update h ?c (ha_connections act), ha_pending_connects := ha_pending_connects act @ [h]\<rparr>"
  have r: "h2_connect h act = (?act, [UpstreamConnect 80])" using assms(2) by (simp add: h2_connect_def)
  have d: "distinct (map fst (ha_connections act))" using assms(1) by (simp add: h2_ok_def)
  have s: "open_streams (ha_connections ?act) = open_streams (ha_connections act)"
    using open_streams_update [OF d assms(2), of ?c] by (simp add: stream_count_def)
  have new: "h \<notin> set (ha_pending_connects act) \<union> snd ` set (ha_upstream_to_downstream act)"
  proof
    assume "h \<in> set (ha_pending_connects act) \<union> snd ` set (ha_upstream_to_downstream act)"
    then have "has_upstream act h" using assms(1) unfolding h2_ok_def by blast
    then show False using assms(2,3) by (simp add: has_upstream_def)
  qed
  have up: "has_upstream ?act x" if "has_upstream act x \<or> x = h" for x
    using that by (cases "x = h") (auto simp: has_upstream_def update_conv')
  have str: "streams_ok y" if "map_of (ha_connections ?act) x = Some y" for x y
    using that assms(1,2) unfolding h2_ok_def by (cases "x = h") (auto simp: update_conv' streams_ok_def)
  have "h2_ok ?act"
    using assms(1) s new up str unfolding h2_ok_def by (simp add: distinct_update)
  then show "h2_ok (fst (h2_connect h act))" "quiet (snd (h2_connect h act))"
    "ha_total_h2_streams (fst (h2_connect h act)) = ha_total_h2_streams act"
    "map_of (ha_connections (fst (h2_connect h act))) x =
       (if x = h then Some (c\<lparr>hc_upstream_state := UpConnecting\<rparr>) else map_of (ha_connections act) x)"
    unfolding r by (simp_all add: update_conv')
qed

lemma connect_all_ok:
  assumes "h2_ok act" "distinct hs" "\<And>h. h \<in> set hs \<Longrightarrow> \<exists>c. map_of (ha_connections act) h = Some c \<and> hc_upstream_state c = UpNone"
  shows "h2_ok (fst (h2_for_each h2_connect hs act)) \<and> quiet (snd (h2_for_each h2_connect hs act)) \<and>
    ha_total_h2_streams (fst (h2_for_each h2_connect hs act)) = ha_total_h2_streams act"
  using assms
proof (induction hs arbitrary: act)
  case (Cons h hs)
  obtain c where c: "map_of (ha_connections act) h = Some c" "hc_upstream_state c = UpNone" using Cons.prems(3) [of h] by auto
  note k = connect_ok [OF Cons.prems(1) c]
  obtain act' as where r: "h2_connect h act = (act', as)" by fastforce
  have "\<exists>c. map_of (ha_connections act') x = Some c \<and> hc_upstream_state c = UpNone" if "x \<in> set hs" for x
    using Cons.prems(2,3) that k(4) [of x] r by auto
  from Cons.IH [OF _ _ this] k(1-3) r Cons.prems(2) show ?case by (auto intro: quiet_append)
qed simp

lemma for_each_closed_ok:
  assumes "h2_ok act"
  shows "h2_ok (fst (h2_for_each (\<lambda>h. h2_with_conn h on_upstream_closed) hs act)) \<and>
    quiet (snd (h2_for_each (\<lambda>h. h2_with_conn h on_upstream_closed) hs act))"
  using assms
proof (induction hs arbitrary: act)
  case (Cons h hs)
  obtain act' as where r: "h2_with_conn h on_upstream_closed act = (act', as)" by fastforce
  from with_conn_ok [OF counts_upstream_closed Cons.prems, of h] r Cons.IH [of act'] show ?case
    by (auto intro: quiet_append)
qed simp

lemma distinct_snd_update: "distinct (map snd m) \<Longrightarrow> v \<notin> snd ` set m \<Longrightarrow> distinct (map snd (AList.update k v m))"
  and set_snd_update: "snd ` set (AList.update k v m) \<subseteq> insert v (snd ` set m)"
  by (induction m) auto

lemma connect_result_ok:
  assumes "h2_ok act" "ha_pending_connects act = h # hs"
  shows "h2_ok (act\<lparr>ha_pending_connects := hs\<rparr>)"
    "h2_ok (act\<lparr>ha_pending_connects := hs, ha_upstream_to_downstream := AList.update uh h (ha_upstream_to_downstream act)\<rparr>)"
proof -
  have up: "has_upstream (act\<lparr>ha_pending_connects := hs\<rparr>) x = has_upstream act x"
    "has_upstream (act\<lparr>ha_pending_connects := hs, ha_upstream_to_downstream := m\<rparr>) x = has_upstream act x" for x m
    by (simp_all add: has_upstream_def)
  show "h2_ok (act\<lparr>ha_pending_connects := hs\<rparr>)" using assms up unfolding h2_ok_def by simp
  let ?m = "AList.update uh h (ha_upstream_to_downstream act)"
  have d: "distinct (map snd ?m)" "distinct (map fst ?m)" "h \<notin> set hs" "distinct hs"
    "set hs \<inter> snd ` set (ha_upstream_to_downstream act) = {}"
    using assms distinct_snd_update [of "ha_upstream_to_downstream act" h uh] unfolding h2_ok_def by (auto simp: distinct_update)
  have s: "x \<in> insert h (snd ` set (ha_upstream_to_downstream act))" if "x \<in> snd ` set ?m" for x
    using set_snd_update [of uh h "ha_upstream_to_downstream act"] that by blast
  have "\<forall>x\<in>insert h (set hs) \<union> snd ` set (ha_upstream_to_downstream act). has_upstream act x"
    using assms unfolding h2_ok_def by simp
  then have "has_upstream act x" if "x \<in> set hs \<union> snd ` set ?m" for x using that s by blast
  moreover have "set hs \<inter> snd ` set ?m = {}" using s d(3,5) by blast
  ultimately show "h2_ok (act\<lparr>ha_pending_connects := hs, ha_upstream_to_downstream := ?m\<rparr>)"
    using assms(1) d up(2) unfolding h2_ok_def by simp
qed

lemma upstream_subset_ok:
  assumes "h2_ok act" "distinct (map fst m)" "distinct (map snd m)" "set m \<subseteq> set (ha_upstream_to_downstream act)"
  shows "h2_ok (act\<lparr>ha_upstream_to_downstream := m\<rparr>)"
proof -
  have "has_upstream (act\<lparr>ha_upstream_to_downstream := m\<rparr>) x = has_upstream act x" for x by (simp add: has_upstream_def)
  moreover have s: "snd ` set m \<subseteq> snd ` set (ha_upstream_to_downstream act)" using assms(4) by (rule image_mono)
  have i: "set (ha_pending_connects act) \<inter> snd ` set (ha_upstream_to_downstream act) = {}"
    and u: "\<forall>x\<in>set (ha_pending_connects act) \<union> snd ` set (ha_upstream_to_downstream act). has_upstream act x"
    using assms(1) unfolding h2_ok_def by simp_all
  moreover have "set (ha_pending_connects act) \<inter> snd ` set m = {}" using s i by auto
  moreover have "\<forall>x\<in>set (ha_pending_connects act) \<union> snd ` set m. has_upstream act x" 
    using Un_mono [OF subset_refl [of "set (ha_pending_connects act)"] s] u by (meson subsetD)
  ultimately show ?thesis using assms(1-3) unfolding h2_ok_def by simp
qed

lemma upstream_delete_ok:
  assumes "h2_ok act"
  shows "h2_ok (act\<lparr>ha_upstream_to_downstream := AList.delete uh (ha_upstream_to_downstream act)\<rparr>)"
  using assms by (intro upstream_subset_ok) (auto simp: h2_ok_def AList.delete_eq distinct_map_filter)

lemma stream_close_ok:
  assumes "h2_ok act" "map_of (ha_connections act) h = Some c"
  defines "uh \<equiv> find_upstream h (ha_upstream_to_downstream act)"
  defines "m \<equiv> (case uh of Some uh \<Rightarrow> AList.delete uh (ha_upstream_to_downstream act) | None \<Rightarrow> ha_upstream_to_downstream act)"
  shows "h2_ok (act\<lparr>ha_connections := AList.delete h (ha_connections act), ha_upstream_to_downstream := m,
    ha_pending_connects := filter (\<lambda>x. x \<noteq> h) (ha_pending_connects act),
    ha_total_h2_streams := ha_total_h2_streams act - stream_count c\<rparr>)"
    (is "h2_ok ?act")
proof -
  let ?up = "ha_upstream_to_downstream act"
  have ok: "distinct (map fst (ha_connections act))" "distinct (map fst ?up)" "distinct (map snd ?up)"
    "ha_total_h2_streams act = open_streams (ha_connections act)"
    "distinct (ha_pending_connects act)" "set (ha_pending_connects act) \<inter> snd ` set ?up = {}"
    "\<And>x. x \<in> set (ha_pending_connects act) \<union> snd ` set ?up \<Longrightarrow> has_upstream act x"
    using assms(1) by (auto simp: h2_ok_def)
  have m: "set m \<subseteq> set ?up" "h \<notin> snd ` set m" "distinct (map fst m)" "distinct (map snd m)"
  proof -
    show "set m \<subseteq> set ?up" "distinct (map fst m)" "distinct (map snd m)"
      using ok(2,3) by (auto simp: m_def AList.delete_eq distinct_map_filter split: option.split)
    show "h \<notin> snd ` set m"
    proof
      assume "h \<in> snd ` set m"
      then obtain u where u: "(u, h) \<in> set m" by auto
      then have "(u, h) \<in> set ?up" using \<open>set m \<subseteq> set ?up\<close> by auto
      from find_upstream_unique [OF ok(3) this] have "uh = Some u" by (simp add: uh_def)
      then show False using u by (simp add: m_def AList.delete_eq)
    qed
  qed
  have up: "has_upstream ?act x" if "has_upstream act x" "x \<noteq> h" for x
    using that by (simp add: has_upstream_def delete_conv')
  have str: "streams_ok y" if "map_of (ha_connections ?act) x = Some y" for x y
    using that assms(1) unfolding h2_ok_def by (cases "x = h") (auto simp: delete_conv')
  have t: "ha_total_h2_streams ?act = open_streams (ha_connections ?act)"
    using open_streams_delete [OF ok(1) assms(2)] ok(4) by simp
  have "has_upstream ?act x" if "x \<in> set (ha_pending_connects ?act) \<union> snd ` set m" for x
    using that m(1,2) ok(7) [of x] up [of x] by auto
  then show ?thesis
    using ok(1,5,6) m t str unfolding h2_ok_def by (auto simp: distinct_delete)
qed

lemma stream_open_ok:
  assumes "h2_ok act" "map_of (ha_connections act) h = None"
  shows "h2_ok (act\<lparr>ha_connections := AList.update h h2_connection_new (ha_connections act)\<rparr>)" (is "h2_ok ?act")
proof -
  have up: "has_upstream ?act x" if "has_upstream act x" for x
    using that assms(2) by (cases "x = h") (auto simp: has_upstream_def update_conv')
  have str: "streams_ok y" if "map_of (ha_connections ?act) x = Some y" for x y
    using that assms(1) unfolding h2_ok_def by (cases "x = h") (auto simp: update_conv' streams_ok_def h2_connection_new_def)
  have "open_streams (ha_connections ?act) = open_streams (ha_connections act)"
    using open_streams_fresh [OF assms(2), of h2_connection_new] by (simp add: stream_count_def h2_connection_new_def)
  then show ?thesis using assms(1) up str unfolding h2_ok_def by (simp add: distinct_update)
qed

text \<open>Every handler keeps the invariant and reports the changes of the need.\<close>

definition tracks :: "http2_activator \<Rightarrow> h2_act_result \<Rightarrow> bool" where
  "tracks act r \<longleftrightarrow> h2_ok (fst r) \<and> last_need (h2_need act) (snd r) = h2_need (fst r)"

lemma tracks_need_after: "h2_ok (fst r) \<Longrightarrow> quiet (snd r) \<Longrightarrow> h2_need old = h2_need old' \<Longrightarrow> tracks old (h2_need_after old' r)"
  using need_after [of r old'] by (simp add: tracks_def)

lemma tracks_quiet:
  "h2_ok (fst r) \<Longrightarrow> quiet (snd r) \<Longrightarrow> ha_total_h2_streams (fst r) = ha_total_h2_streams act \<Longrightarrow> tracks act r"
  by (simp add: tracks_def quiet_def h2_need_def)

lemma stream_data_tracks:
  assumes "h2_ok act"
  shows "tracks act (h2_stream_data h d act)"
proof (cases "map_of (ha_connections act) h")
  case None
  then show ?thesis using assms by (simp add: h2_stream_data_def tracks_quiet)
next
  case (Some c)
  obtain act' as where r: "h2_with_conn h (on_client_data d) act = (act', as)" by fastforce
  with with_conn_ok [OF counts_client_data assms, of h d] have w: "h2_ok act'" "quiet as" by simp_all
  let ?k = "if ha_backend_available act' \<and>
      (case map_of (ha_connections act') h of Some conn \<Rightarrow> h2_wants_upstream conn | None \<Rightarrow> False)
    then h2_connect h act' else (act', [])"
  have "h2_ok (fst ?k) \<and> quiet (snd ?k)"
    using w connect_ok(1,2) [OF w(1), of h] by (auto simp: h2_wants_upstream_def split: option.splits)
  then have "tracks act (h2_need_after act (then_do (act', as) (\<lambda>act. if ha_backend_available act \<and>
      (case map_of (ha_connections act) h of Some conn \<Rightarrow> h2_wants_upstream conn | None \<Rightarrow> False)
    then h2_connect h act else (act, []))))"
    using w by (intro tracks_need_after) (auto intro: quiet_append)
  then show ?thesis using Some r by (simp add: h2_stream_data_def)
qed

lemma stream_close_tracks:
  assumes "h2_ok act"
  shows "tracks act (h2_stream_close h act)"
proof (cases "map_of (ha_connections act) h")
  case None
  then show ?thesis using assms unfolding h2_stream_close_def by (simp add: tracks_need_after)
next
  case (Some c)
  from stream_close_ok [OF assms this] show ?thesis
    unfolding h2_stream_close_def Some Let_def option.case
    by (intro tracks_need_after) (simp_all split: option.split)
qed

lemma backend_available_tracks:
  assumes "h2_ok act"
  shows "tracks act (h2_backend_available available act)"
proof -
  let ?act = "act\<lparr>ha_backend_available := available\<rparr>"
  have "has_upstream ?act x = has_upstream act x" for x by (simp add: has_upstream_def)
  then have ok: "h2_ok ?act" using assms unfolding h2_ok_def by simp
  show ?thesis
  proof (cases available)
    case True
    let ?w = "filter (\<lambda>(_, conn). h2_wants_upstream conn) (ha_connections ?act)"
    have d: "distinct (map fst (ha_connections ?act))" using ok by (simp add: h2_ok_def)
    have "\<exists>c. map_of (ha_connections ?act) h = Some c \<and> hc_upstream_state c = UpNone" if "h \<in> set (map fst ?w)" for h
      using that d by (auto simp: h2_wants_upstream_def)
    from connect_all_ok [OF ok _ this, of "map fst ?w"] d have
      "h2_ok (fst (h2_for_each h2_connect (map fst ?w) ?act))" "quiet (snd (h2_for_each h2_connect (map fst ?w) ?act))"
      "ha_total_h2_streams (fst (h2_for_each h2_connect (map fst ?w) ?act)) = ha_total_h2_streams act"
      by (simp_all add: distinct_map_filter)
    then show ?thesis using True by (simp add: h2_backend_available_def tracks_quiet)
  next
    case False
    obtain act' as where r: "h2_for_each (\<lambda>h. h2_with_conn h on_upstream_closed) (map fst (ha_connections ?act)) ?act = (act', as)"
      by fastforce
    with for_each_closed_ok [OF ok, of "map fst (ha_connections ?act)"] have w: "h2_ok act'" "quiet as" by simp_all
    have "h2_ok (act'\<lparr>ha_upstream_to_downstream := []\<rparr>)" using upstream_subset_ok [OF w(1), of "[]"] by simp
    then have "tracks act (h2_need_after ?act (then_do (act', as)
      (\<lambda>act. (act\<lparr>ha_upstream_to_downstream := []\<rparr>, map (\<lambda>(uh, _). UpstreamClose uh) (ha_upstream_to_downstream act)))))"
      using w by (intro tracks_need_after) (auto intro: quiet_append quiet_closes simp: h2_need_def)
    then show ?thesis using False r by (simp add: h2_backend_available_def del: then_do_Pair)
  qed
qed

lemma connect_result_tracks:
  assumes "h2_ok act"
  shows "tracks act (h2_upstream_connect_result uh connected act)"
proof (cases "ha_pending_connects act")
  case Nil
  then show ?thesis using assms by (simp add: h2_upstream_connect_result_def tracks_quiet)
next
  case (Cons h hs)
  note ok = connect_result_ok [OF assms Cons]
  show ?thesis
  proof (cases connected)
    case True
    let ?act = "act\<lparr>ha_pending_connects := hs, ha_upstream_to_downstream := AList.update uh h (ha_upstream_to_downstream act)\<rparr>"
    have "ha_total_h2_streams (fst (h2_with_conn h on_upstream_connected ?act)) = ha_total_h2_streams act"
      by (simp add: h2_with_conn_def on_upstream_connected_def h2_apply_conn_action_def split: option.split)
    then show ?thesis using with_conn_ok [OF counts_upstream_connected ok(2) [of uh], of h] Cons True
      by (auto simp: h2_upstream_connect_result_def intro!: tracks_quiet)
  next
    case False
    then show ?thesis using with_conn_ok [OF counts_upstream_failed ok(1), of h] Cons
      by (auto simp: h2_upstream_connect_result_def h2_need_def Let_def intro!: tracks_need_after)
  qed
qed

lemma upstream_data_tracks:
  assumes "h2_ok act"
  shows "tracks act (h2_upstream_data uh d act)"
  using assms with_conn_ok [OF counts_upstream_data assms]
  by (auto simp: h2_upstream_data_def intro!: tracks_quiet tracks_need_after split: option.split)

lemma upstream_close_tracks:
  assumes "h2_ok act"
  shows "tracks act (h2_upstream_close uh act)"
  using assms upstream_delete_ok [OF assms, of uh] with_conn_ok [OF counts_upstream_closed upstream_delete_ok [OF assms, of uh]]
  by (auto simp: h2_upstream_close_def Let_def h2_need_def intro!: tracks_quiet tracks_need_after split: option.split)

lemma h2_event_tracks:
  assumes "h2_ok act" "h2_legal ev act"
  shows "tracks act (h2_event ev act)"
  using assms stream_open_ok [OF assms(1)]
  by (cases ev) (auto simp: h2_event_def h2_stream_open_def
      intro: stream_data_tracks stream_close_tracks backend_available_tracks connect_result_tracks upstream_data_tracks
        upstream_close_tracks tracks_quiet)

interpretation h2: need_contract h2_event h2_legal h2_ok h2_need
  using h2_event_tracks by unfold_locales (auto simp: tracks_def)

section \<open>Properties\<close>

text \<open>
  C24. A frame that was serialised is parsed back, with the reserved bit of the stream
  identifier cleared, and the rest of the buffer is left; and whatever is parsed serialises to the
  bytes it was parsed from, up to this bit.
\<close>

theorem h2_frame_roundtrip:
  assumes "length payload < 2 ^ 24"
  shows "parse_frame (serialize_frame (frame_type_from_u8 v) flags sid payload @ rest) =
      Some (\<lparr>hf_frame_type = frame_type_from_u8 v, hf_flags = flags, hf_stream_id = sid AND 0x7fffffff, hf_payload = payload\<rparr>,
            FRAME_HEADER_LEN + length payload) \<and>
    (\<forall>buf frame n. parse_frame buf = Some (frame, n) \<longrightarrow>
      n \<le> length buf \<and>
      serialize_frame (hf_frame_type frame) (hf_flags frame) (hf_stream_id frame) (hf_payload frame) =
        (take n buf)[5 := buf ! 5 AND 0x7f])"
  using parse_serialize [OF assms] serialize_parse by simp

theorem h2_frame_roundtrip_witness:
  "length [7, 8 :: u8] < 2 ^ 24 \<and>
   parse_frame (serialize_frame (frame_type_from_u8 0) 1 5 [7, 8] @ [9]) =
     Some (\<lparr>hf_frame_type = FtData, hf_flags = 1, hf_stream_id = 5, hf_payload = [7, 8]\<rparr>, 11) \<and>
   serialize_frame FtData 1 5 [7, 8] = [0, 0, 2, 0, 1, 0x80 AND 0x7f, 0, 0, 5, 7, 8]"
proof -
  have p: "parse_frame [0, 0, 2, 0, 1, 0x80, 0, 0, 5, 7, 8] =
    Some (\<lparr>hf_frame_type = FtData, hf_flags = 1, hf_stream_id = 5, hf_payload = [7, 8]\<rparr>, 11)"
    by code_simp
  show ?thesis
    using h2_frame_roundtrip [of "[7, 8]" 0 1 5 "[9]"] conjunct2 [OF h2_frame_roundtrip [of "[]" 0 1 5 "[]"], rule_format, OF _ p]
    by (simp add: frame_type_from_u8_def FRAME_HEADER_LEN_def)
qed

text \<open>
  C17. How the bytes of a connection are cut into chunks does not matter.  Data of the
  backend gives the same state and the same actions; so does data of the client, except that a
  closing connection may hold different unread bytes.
\<close>

theorem h2_chunk_equivalence:
  "run_events on_upstream_data (d # ds) c = on_upstream_data (concat (d # ds)) c \<and>
   snd (run_events on_client_data (d # ds) c) = snd (on_client_data (concat (d # ds)) c) \<and>
   same_client (fst (run_events on_client_data (d # ds) c)) (fst (on_client_data (concat (d # ds)) c))"
  using upstream_chunk_list client_chunk_list [of d ds c] unfolding same_result_def by blast

text \<open>
  C23. The frames of the client meant for the backend reach it exactly once and in order
  across the handshake.  With client data before and after the backend's settings frame, the
  backend gets the acknowledgement when one is due, the frames kept before, and then all frames of
  the client in the order of its bytes, up to its GOAWAY; nothing is kept back.
\<close>

theorem h2_frames_in_order:
  assumes "hc_phase c = H2Handshaking \<or> hc_phase c = H2Active" "hc_upstream_state c = UpHandshaking"
    "hc_upstream_recv_buf c = []" "length payload < 2 ^ 24"
    and "on_client_data d c = (c1, a1)"
    and "on_upstream_data (serialize_frame FtSettings flags 0 payload) c1 = (c2, a2)"
    and "on_client_data e c2 = (c3, a3)"
  shows "upstream_sends (a1 @ a2 @ a3) =
      (if flags AND FLAG_ACK \<noteq> 0 then [] else [build_settings_ack]) @
      hc_buffered_frames c @ for_backend (complete_frames (hc_recv_buf c @ d @ e)) \<and>
    hc_buffered_frames c3 = []"
proof -
  have ph: "hc_phase c \<noteq> H2AwaitingPreface" "hc_phase c \<noteq> H2Closing" using assms(1) by auto
  note p = client_data_passes [OF ph, of d, unfolded assms(5) fst_conv]
  have u: "hc_upstream_recv_buf c1 = []" using client_data_upstream_buf [of d c] assms(3,5) by simp
  have c1: "hc_upstream_state c1 = UpHandshaking" "upstream_sends a1 = []"
    "hc_buffered_frames c1 = hc_buffered_frames c @ for_backend (complete_frames (hc_recv_buf c @ d))"
    using p(1) assms(2) by (simp_all add: passes_on_def)
  note f = settings_flush [OF u c1(1) assms(4), of flags, unfolded assms(6) fst_conv snd_conv]
  let ?rest = "fst (drain_loop frame_turn (length (hc_recv_buf c @ d)) (hc_recv_buf c @ d))"
  have fr: "complete_frames (hc_recv_buf c @ d @ e) = complete_frames (hc_recv_buf c @ d) @ complete_frames (?rest @ e)"
    using complete_frames_append [of "hc_recv_buf c @ d" e] by simp
  show ?thesis
  proof (cases "hc_phase c1 = H2Closing")
    case True
    then have "upstream_sends a3 = []" "hc_buffered_frames c3 = []"
      using closing_no_sends [of c2 e] f(2,4) assms(7) by simp_all
    moreover have "for_backend (complete_frames (hc_recv_buf c @ d @ e)) = for_backend (complete_frames (hc_recv_buf c @ d))"
      using True p(2) unfolding fr by (simp add: for_backend_def upto_goaway_append)
    ultimately show ?thesis using c1 f(1) by simp
  next
    case False
    have "hc_phase c1 \<noteq> H2AwaitingPreface"
      using client_drain_phase [of "client_extend d c"] ph assms(5) by (simp add: on_client_data_def client_extend_def)
    then have "passes_on (for_backend (complete_frames (?rest @ e))) c2 (c3, a3)"
      using client_data_passes(1) [of c2 e] False f(4,5) p(3) assms(7) by simp
    then have "upstream_sends a3 = for_backend (complete_frames (?rest @ e))" "hc_buffered_frames c3 = []"
      using f(2,3) by (simp_all add: passes_on_def)
    moreover have "for_backend (complete_frames (hc_recv_buf c @ d @ e)) =
      for_backend (complete_frames (hc_recv_buf c @ d)) @ for_backend (complete_frames (?rest @ e))"
      using False p(2) unfolding fr by (simp add: for_backend_def upto_goaway_append)
    ultimately show ?thesis using c1 f(1) by simp
  qed
qed

definition example_conn :: h2_connection where
  "example_conn = h2_connection_new\<lparr>hc_phase := H2Active, hc_upstream_state := UpHandshaking, hc_buffered_frames := [[1]]\<rparr>"

theorem h2_frames_in_order_witness:
  "\<exists>c1 a1 c2 a2 c3 a3.
     on_client_data [0, 0, 0, 2, 0, 0, 0, 0, 1, 0, 0] example_conn = (c1, a1) \<and>
     on_upstream_data (serialize_frame FtSettings 0 0 []) c1 = (c2, a2) \<and>
     on_client_data [0, 9, 4, 0, 0, 0, 1] c2 = (c3, a3) \<and>
     upstream_sends (a1 @ a2 @ a3) = [build_settings_ack, [1], [0, 0, 0, 2, 0, 0, 0, 0, 1], [0, 0, 0, 9, 4, 0, 0, 0, 1]] \<and>
     hc_buffered_frames c3 = []"
proof -
  let ?d = "[0, 0, 0, 2, 0, 0, 0, 0, 1, 0, 0]" and ?e = "[0, 9, 4, 0, 0, 0, 1]"
  obtain c1 a1 where 1: "on_client_data ?d example_conn = (c1, a1)" by fastforce
  obtain c2 a2 where 2: "on_upstream_data (serialize_frame FtSettings 0 0 []) c1 = (c2, a2)" by fastforce
  obtain c3 a3 where 3: "on_client_data ?e c2 = (c3, a3)" by fastforce
  have f: "for_backend (complete_frames (hc_recv_buf example_conn @ ?d @ ?e)) = [[0, 0, 0, 2, 0, 0, 0, 0, 1], [0, 0, 0, 9, 4, 0, 0, 0, 1]]"
    by code_simp
  have "hc_phase example_conn = H2Handshaking \<or> hc_phase example_conn = H2Active" "hc_upstream_state example_conn = UpHandshaking"
    "hc_upstream_recv_buf example_conn = []" "hc_buffered_frames example_conn = [[1]]" "length ([] :: u8 list) < 2 ^ 24"
    by (simp_all add: example_conn_def h2_connection_new_def)
  then show ?thesis
    using h2_frames_in_order [OF _ _ _ _ 1 2 3] 1 2 3 unfolding f by fastforce
qed

text \<open>
  C18. After any events in which the host opens streams under fresh handles, the count of
  HTTP/2 streams is the number of open streams of all connections, and the last need reported is
  Active exactly when this number is positive.  Every backend stream belongs to one open client,
  and no client has two.
\<close>

theorem h2_need_follows_streams:
  assumes "legal_events h2_event h2_legal evs http2_activator_new"
    and "h2_process_events evs http2_activator_new = (act, acts)"
  shows "ha_total_h2_streams act = open_streams (ha_connections act) \<and>
    last_need NeedNone acts = (if 0 < open_streams (ha_connections act) then NeedActive else NeedNone) \<and>
    (\<forall>uh h. (uh, h) \<in> set (ha_upstream_to_downstream act) \<longrightarrow>
      map_of (ha_connections act) h \<noteq> None \<and> find_upstream h (ha_upstream_to_downstream act) = Some uh)"
proof (intro conjI allI impI)
  have new: "h2_need http2_activator_new = NeedNone" by (simp add: h2_need_def http2_activator_new_def)
  have "h2_ok act" "last_need NeedNone acts = h2_need act"
    using h2.run_events_need [OF h2_ok_new assms(1)] assms(2) by (simp_all add: h2_process_events_def new)
  then show "ha_total_h2_streams act = open_streams (ha_connections act)"
    "last_need NeedNone acts = (if 0 < open_streams (ha_connections act) then NeedActive else NeedNone)"
    by (simp_all add: h2_ok_def h2_need_def)
  fix uh h
  assume m: "(uh, h) \<in> set (ha_upstream_to_downstream act)"
  then have "has_upstream act h" "distinct (map snd (ha_upstream_to_downstream act))"
    using \<open>h2_ok act\<close> rev_image_eqI [OF m, of h snd] unfolding h2_ok_def by simp_all
  then show "map_of (ha_connections act) h \<noteq> None" "find_upstream h (ha_upstream_to_downstream act) = Some uh"
    using find_upstream_unique [OF _ m] by (auto simp: has_upstream_def)
qed

definition example_headers :: "u8 list" where
  "example_headers = [0, 0, 0, 1, 4, 0, 0, 0, 1]"

definition example_events :: "act_event list" where
  "example_events = [EvStreamOpen 1, EvStreamData 1 (CLIENT_PREFACE @ example_headers), EvBackendAvailable True,
     EvUpstreamConnectResult 7 True]"

lemma preface_data:
  "on_client_data (CLIENT_PREFACE @ b) h2_connection_new =
     then_do (h2_connection_new\<lparr>hc_recv_buf := b, hc_phase := H2Handshaking\<rparr>, [CaDownstreamSend our_settings]) client_drain"
  by (simp add: on_client_data_def client_extend_def h2_connection_new_def)

lemma example_drain:
  "client_drain (h2_connection_new\<lparr>hc_recv_buf := example_headers, hc_phase := H2Handshaking\<rparr>) =
     (h2_connection_new\<lparr>hc_phase := H2Handshaking, hc_last_client_stream_id := 1, hc_buffered_frames := [example_headers],
        hc_streams := [(1, \<lparr>hs_client_end_stream = False, hs_backend_end_stream = False\<rparr>)]\<rparr>, [CaStreamOpened])"
  by code_simp

lemma example_run:
  "h2_process_events example_events http2_activator_new =
     (\<lparr>ha_connections = [(1, h2_connection_new\<lparr>hc_phase := H2Handshaking, hc_last_client_stream_id := 1,
          hc_buffered_frames := [example_headers], hc_upstream_state := UpHandshaking,
          hc_streams := [(1, \<lparr>hs_client_end_stream = False, hs_backend_end_stream = False\<rparr>)]\<rparr>)],
       ha_upstream_to_downstream = [(7, 1)], ha_pending_connects = [], ha_backend_available = True, ha_total_h2_streams = 1\<rparr>,
      [DownstreamSend 1 our_settings, SetBackendNeed NeedActive, UpstreamConnect 80, UpstreamSend 7 (CLIENT_PREFACE @ our_settings)])"
  unfolding h2_process_events_def example_events_def http2_activator_new_def
  by (simp add: h2_event_def h2_stream_open_def h2_stream_data_def h2_with_conn_def preface_data [unfolded h2_connection_new_def, simplified]
      example_drain [unfolded h2_connection_new_def, simplified] h2_apply_conn_action_def h2_need_after_def check_backend_need_transition_def h2_backend_available_def
      h2_wants_upstream_def has_buffered_frames_def h2_connect_def h2_upstream_connect_result_def
      on_upstream_connected_def find_upstream_def h2_connection_new_def)

theorem h2_need_follows_streams_witness:
  "\<exists>act acts. legal_events h2_event h2_legal example_events http2_activator_new \<and>
     h2_process_events example_events http2_activator_new = (act, acts) \<and>
     ha_total_h2_streams act = 1 \<and> last_need NeedNone acts = NeedActive \<and>
     find_upstream 1 (ha_upstream_to_downstream act) = Some 7"
proof -
  have l: "legal_events h2_event h2_legal example_events http2_activator_new"
    by (simp add: example_events_def http2_activator_new_def)
  show ?thesis using h2_need_follows_streams [OF l example_run] l example_run
    by (simp add: open_streams_def stream_count_def)
qed

end
