(* ===== verification/Utf8.thy ===== *)
theory Utf8
  imports Prelude
begin

text \<open>
  Strings of the Rust standard library as lists of code points: decoding of UTF-8, white space and
  ASCII case.  The PostgreSQL activator and the DNS forwarder read strings from the wire with them.
\<close>

unbundle bit_operations_syntax

text \<open>\<open>str::from_utf8\<close>: shortest forms, no surrogates, nothing above U+10FFFF.\<close>

definition is_cont :: "u8 \<Rightarrow> bool" where
  "is_cont b \<longleftrightarrow> 0x80 \<le> b \<and> b \<le> 0xBF"

definition cont_bits :: "u8 \<Rightarrow> nat" where
  "cont_bits b = unat (b AND 0x3F)"

fun from_utf8 :: "u8 list \<Rightarrow> nat list option" where
  "from_utf8 [] = Some []"
| "from_utf8 (a # rest) =
     (if a < 0x80 then map_option ((#) (unat a)) (from_utf8 rest)
      else case rest of
        [] \<Rightarrow> None
      | b # rest \<Rightarrow>
          if 0xC2 \<le> a \<and> a \<le> 0xDF
          then if is_cont b then map_option ((#) (unat (a AND 0x1F) * 64 + cont_bits b)) (from_utf8 rest) else None
          else case rest of
            [] \<Rightarrow> None
          | c # rest \<Rightarrow>
              if 0xE0 \<le> a \<and> a \<le> 0xEF
              then if is_cont b \<and> is_cont c \<and> (a = 0xE0 \<longrightarrow> 0xA0 \<le> b) \<and> (a = 0xED \<longrightarrow> b \<le> 0x9F)
                   then map_option ((#) (unat (a AND 0x0F) * 4096 + cont_bits b * 64 + cont_bits c)) (from_utf8 rest)
                   else None
              else case rest of
                [] \<Rightarrow> None
              | d # rest \<Rightarrow>
                  if 0xF0 \<le> a \<and> a \<le> 0xF4 \<and> is_cont b \<and> is_cont c \<and> is_cont d \<and>
                     (a = 0xF0 \<longrightarrow> 0x90 \<le> b) \<and> (a = 0xF4 \<longrightarrow> b \<le> 0x8F)
                  then map_option ((#) (unat (a AND 0x07) * 262144 + cont_bits b * 4096 + cont_bits c * 64 + cont_bits d))
                         (from_utf8 rest)
                  else None)"

text \<open>\<open>char::is_whitespace\<close>: the Unicode property White_Space.\<close>

definition is_whitespace :: "nat \<Rightarrow> bool" where
  "is_whitespace c \<longleftrightarrow> (9 \<le> c \<and> c \<le> 13) \<or> c = 0x20 \<or> c = 0x85 \<or> c = 0xA0 \<or> c = 0x1680 \<or>
     (0x2000 \<le> c \<and> c \<le> 0x200A) \<or> c = 0x2028 \<or> c = 0x2029 \<or> c = 0x202F \<or> c = 0x205F \<or> c = 0x3000"

definition trim_end_by :: "(nat \<Rightarrow> bool) \<Rightarrow> nat list \<Rightarrow> nat list" where
  "trim_end_by p s = rev (dropWhile p (rev s))"

definition trim :: "nat list \<Rightarrow> nat list" where
  "trim s = trim_end_by is_whitespace (dropWhile is_whitespace s)"

definition to_ascii_lowercase :: "nat \<Rightarrow> nat" where
  "to_ascii_lowercase c = (if 65 \<le> c \<and> c \<le> 90 then c + 32 else c)"

definition eq_ignore_ascii_case :: "nat list \<Rightarrow> nat list \<Rightarrow> bool" where
  "eq_ignore_ascii_case s t \<longleftrightarrow> map to_ascii_lowercase s = map to_ascii_lowercase t"

definition code_points :: "string \<Rightarrow> nat list" where
  "code_points s = map (\<lambda>c. of_char c) s"

text \<open>ASCII text is decoded byte by byte.\<close>

lemma from_utf8_ascii:
  "list_all (\<lambda>b. b < 0x80) bs \<Longrightarrow> from_utf8 bs = Some (map unat bs)"
  by (induction bs) simp_all

end
