(* ===== verification/Postgres.thy ===== *)
theory Postgres
  imports Activator_Lib Utf8
begin

text \<open>
  The PostgreSQL activator (\<open>activators/postgres\<close>): the message format, the state of one client
  connection, and the activator that owns the connections and reports the need for a backend.
  A string is the list of its code points.
\<close>

unbundle bit_operations_syntax

section \<open>Messages\<close>

definition SSL_REQUEST_CODE :: u32 where
  "SSL_REQUEST_CODE = 80877103"

text \<open>The tags \<open>b'Z'\<close> and \<open>b'Q'\<close>.\<close>

definition MSG_READY_FOR_QUERY :: u8 where
  "MSG_READY_FOR_QUERY = 90"

definition MSG_QUERY :: u8 where
  "MSG_QUERY = 81"

datatype transaction_status = TxnIdle | TxnInTransaction | TxnFailed

definition transaction_status_from_byte :: "u8 \<Rightarrow> transaction_status option" where
  "transaction_status_from_byte b =
     (if b = 73 then Some TxnIdle
      else if b = 84 then Some TxnInTransaction
      else if b = 69 then Some TxnFailed
      else None)"

datatype startup_message = SslRequest | StartupRaw "u8 list"

definition parse_startup_message :: "u8 list \<Rightarrow> (startup_message \<times> nat) option" where
  "parse_startup_message buf =
     (if length buf < 4 then None
      else let len = unat (be32 (buf ! 0) (buf ! 1) (buf ! 2) (buf ! 3))
           in if len < 8 then None
              else if length buf < len then None
              else let code = be32 (buf ! 4) (buf ! 5) (buf ! 6) (buf ! 7)
                   in if code = SSL_REQUEST_CODE then Some (SslRequest, len)
                      else Some (StartupRaw (take len buf), len))"

definition parse_tagged_message :: "u8 list \<Rightarrow> (u8 \<times> nat) option" where
  "parse_tagged_message buf =
     (if length buf < 5 then None
      else let tag = buf ! 0;
               len = unat (be32 (buf ! 1) (buf ! 2) (buf ! 3) (buf ! 4));
               msg_len = 1 + len
           in if length buf < msg_len then None else Some (tag, msg_len))"

definition parse_ready_for_query_status :: "u8 list \<Rightarrow> transaction_status option" where
  "parse_ready_for_query_status msg =
     (if length msg < 6 then None
      else if msg ! 0 \<noteq> MSG_READY_FOR_QUERY then None
      else transaction_status_from_byte (msg ! 5))"

definition extract_simple_query :: "u8 list \<Rightarrow> nat list option" where
  "extract_simple_query msg =
     (if length msg < 6 then None
      else if msg ! 0 \<noteq> MSG_QUERY then None
      else let payload = drop 5 msg
           in if last payload = 0 then from_utf8 (butlast payload) else None)"

definition is_health_check_query :: "nat list \<Rightarrow> bool" where
  "is_health_check_query query =
     (let trimmed = trim query;
          trimmed = trim (trim_end_by (\<lambda>c. c = 59) trimmed)
      in eq_ignore_ascii_case trimmed (code_points ''SELECT 1''))"

definition build_select_1_response :: "u8 list" where
  "build_select_1_response =
     bytes ''T'' @ to_be32 33 @ to_be16 1 @ bytes ''?column?'' @ [0] @ to_be32 0 @ to_be16 0 @ to_be32 23 @ to_be16 4 @
       to_be32 (-1) @ to_be16 0 @
     bytes ''D'' @ to_be32 11 @ to_be16 1 @ to_be32 1 @ bytes ''1'' @
     bytes ''C'' @ to_be32 13 @ bytes ''SELECT 1'' @ [0] @
     bytes ''Z'' @ to_be32 5 @ bytes ''I''"

section \<open>Connections\<close>

datatype pg_phase = PgAwaitingStartup | PgSslNegotiation | PgStartup | PgProxying | PgClosing

datatype pg_conn_action =
    PaDownstreamSend "u8 list"
  | PaUpstreamSend "u8 list"
  | PaDownstreamClose
  | PaUpstreamClose
  | PaLog string

record pg_connection =
  pc_phase :: pg_phase
  pc_recv_buf :: "u8 list"
  pc_upstream_recv_buf :: "u8 list"
  pc_buffered_data :: "u8 list"
  pc_last_txn_status :: "transaction_status option"
  pc_auth_complete :: bool

type_synonym pg_result = "pg_connection \<times> pg_conn_action list"

definition pg_connection_new :: pg_connection where
  "pg_connection_new =
     \<lparr>pc_phase = PgAwaitingStartup, pc_recv_buf = [], pc_upstream_recv_buf = [], pc_buffered_data = [],
      pc_last_txn_status = None, pc_auth_complete = False\<rparr>"

definition is_idle :: "pg_connection \<Rightarrow> bool" where
  "is_idle c \<longleftrightarrow> pc_auth_complete c \<and> pc_last_txn_status c = Some TxnIdle"

definition has_buffered_startup :: "pg_connection \<Rightarrow> bool" where
  "has_buffered_startup c \<longleftrightarrow> pc_phase c = PgStartup \<and> pc_buffered_data c \<noteq> []"

text \<open>The fuel of the loops is the length of the buffer they drain.\<close>

fun try_parse_startup :: "nat \<Rightarrow> pg_connection \<Rightarrow> pg_result" where
  "try_parse_startup 0 c = (c, [])"
| "try_parse_startup (Suc n) c =
     (case parse_startup_message (pc_recv_buf c) of
        None \<Rightarrow> (c, [])
      | Some (SslRequest, consumed) \<Rightarrow>
          then_do
            (c\<lparr>pc_recv_buf := drop consumed (pc_recv_buf c), pc_phase := PgSslNegotiation\<rparr>, [PaDownstreamSend (bytes ''N'')])
            (try_parse_startup n)
      | Some (StartupRaw raw, consumed) \<Rightarrow>
          (c\<lparr>pc_recv_buf := [], pc_buffered_data := pc_buffered_data c @ raw @ drop consumed (pc_recv_buf c),
             pc_phase := PgStartup\<rparr>, []))"

definition is_interceptable :: "u8 \<Rightarrow> u8 list \<Rightarrow> bool" where
  "is_interceptable tag msg \<longleftrightarrow>
     tag = MSG_QUERY \<and> (case extract_simple_query msg of Some query \<Rightarrow> is_health_check_query query | None \<Rightarrow> False)"

fun drain_client_proxying :: "nat \<Rightarrow> pg_connection \<Rightarrow> pg_result" where
  "drain_client_proxying 0 c = (c, [])"
| "drain_client_proxying (Suc n) c =
     (if pc_recv_buf c = [] then (c, [])
      else case parse_tagged_message (pc_recv_buf c) of
        None \<Rightarrow> (c, [])
      | Some (tag, msg_len) \<Rightarrow>
          if is_idle c \<and> is_interceptable tag (take msg_len (pc_recv_buf c))
          then then_do
                 (c\<lparr>pc_recv_buf := drop msg_len (pc_recv_buf c)\<rparr>, [PaDownstreamSend build_select_1_response])
                 (drain_client_proxying n)
          else (c\<lparr>pc_recv_buf := []\<rparr>, [PaUpstreamSend (pc_recv_buf c)]))"

definition scan_turn :: "pg_connection \<Rightarrow> pg_result option" where
  "scan_turn c =
     (case parse_tagged_message (pc_upstream_recv_buf c) of
        None \<Rightarrow> None
      | Some (tag, msg_len) \<Rightarrow>
          let c' = (if tag = MSG_READY_FOR_QUERY
                    then case parse_ready_for_query_status (take msg_len (pc_upstream_recv_buf c)) of
                           Some status \<Rightarrow> c\<lparr>pc_last_txn_status := Some status, pc_auth_complete := True\<rparr>
                         | None \<Rightarrow> c
                    else c)
          in Some (c'\<lparr>pc_upstream_recv_buf := drop msg_len (pc_upstream_recv_buf c)\<rparr>, []))"

definition scan_extend :: "u8 list \<Rightarrow> pg_connection \<Rightarrow> pg_connection" where
  "scan_extend data c = c\<lparr>pc_upstream_recv_buf := pc_upstream_recv_buf c @ data\<rparr>"

definition scan_upstream_for_ready :: "u8 list \<Rightarrow> pg_connection \<Rightarrow> pg_result" where
  "scan_upstream_for_ready data c =
     (let c = scan_extend data c in drain_loop scan_turn (length (pc_upstream_recv_buf c)) c)"

definition pg_on_client_data :: "u8 list \<Rightarrow> pg_connection \<Rightarrow> pg_result" where
  "pg_on_client_data data c =
     (if pc_phase c = PgAwaitingStartup \<or> pc_phase c = PgSslNegotiation
      then let c = c\<lparr>pc_recv_buf := pc_recv_buf c @ data\<rparr> in try_parse_startup (length (pc_recv_buf c)) c
      else if pc_phase c = PgStartup then (c\<lparr>pc_buffered_data := pc_buffered_data c @ data\<rparr>, [])
      else if pc_phase c = PgProxying
      then if is_idle c
           then let c = c\<lparr>pc_recv_buf := pc_recv_buf c @ data\<rparr> in drain_client_proxying (length (pc_recv_buf c)) c
           else (c, [PaUpstreamSend data])
      else (c, []))"

definition pg_on_upstream_connected :: "pg_connection \<Rightarrow> pg_result" where
  "pg_on_upstream_connected c =
     (if pc_phase c \<noteq> PgStartup then (c, [])
      else let c = c\<lparr>pc_phase := PgProxying\<rparr>
           in if pc_buffered_data c \<noteq> []
              then (c\<lparr>pc_buffered_data := []\<rparr>, [PaUpstreamSend (pc_buffered_data c)])
              else (c, []))"

definition pg_on_upstream_data :: "u8 list \<Rightarrow> pg_connection \<Rightarrow> pg_result" where
  "pg_on_upstream_data data c =
     (if pc_phase c = PgClosing then (c, [])
      else then_do (c, [PaDownstreamSend data]) (scan_upstream_for_ready data))"

definition pg_on_upstream_closed :: "pg_connection \<Rightarrow> pg_result" where
  "pg_on_upstream_closed c =
     (if pc_phase c \<noteq> PgClosing then (c\<lparr>pc_phase := PgClosing\<rparr>, [PaDownstreamClose]) else (c, []))"

definition pg_on_upstream_failed :: "pg_connection \<Rightarrow> pg_result" where
  "pg_on_upstream_failed c =
     (if pc_phase c \<noteq> PgClosing then (c\<lparr>pc_phase := PgClosing\<rparr>, [PaDownstreamClose]) else (c, []))"

section \<open>The activator\<close>

record postgres_activator =
  pa_connections :: "(stream \<times> pg_connection) list"
  pa_upstream_to_downstream :: "(stream \<times> stream) list"
  pa_pending_connects :: "stream list"
  pa_backend_available :: bool

definition postgres_activator_new :: postgres_activator where
  "postgres_activator_new =
     \<lparr>pa_connections = [], pa_upstream_to_downstream = [], pa_pending_connects = [], pa_backend_available = False\<rparr>"

type_synonym pg_act_result = "postgres_activator \<times> action list"

definition compute_backend_need :: "postgres_activator \<Rightarrow> act_backend_need" where
  "compute_backend_need act =
     (if pa_connections act = [] then NeedNone
      else let meaningful = filter (\<lambda>c. pc_phase c \<noteq> PgAwaitingStartup \<and> pc_phase c \<noteq> PgSslNegotiation)
                 (map snd (pa_connections act))
           in if meaningful = [] then NeedNone
              else if list_all is_idle meaningful then NeedNone
              else NeedActive)"

definition update_backend_need :: "act_backend_need \<Rightarrow> pg_act_result \<Rightarrow> pg_act_result" where
  "update_backend_need old_need r =
     then_do r (\<lambda>act. (act, let new_need = compute_backend_need act
                            in if old_need \<noteq> new_need then [SetBackendNeed new_need] else []))"

definition pg_apply_conn_action :: "stream \<Rightarrow> postgres_activator \<Rightarrow> pg_conn_action \<Rightarrow> action list" where
  "pg_apply_conn_action downstream_handle act ca =
     (case ca of
        PaDownstreamSend data \<Rightarrow> [DownstreamSend downstream_handle data]
      | PaUpstreamSend data \<Rightarrow>
          (case find_upstream downstream_handle (pa_upstream_to_downstream act) of
             Some uh \<Rightarrow> [UpstreamSend uh data] | None \<Rightarrow> [])
      | PaDownstreamClose \<Rightarrow> [DownstreamClose downstream_handle]
      | PaUpstreamClose \<Rightarrow>
          (case find_upstream downstream_handle (pa_upstream_to_downstream act) of
             Some uh \<Rightarrow> [UpstreamClose uh] | None \<Rightarrow> [])
      | PaLog msg \<Rightarrow> [Log \<lparr>la_level = LevelInfo, la_message = msg\<rparr>])"

definition pg_process_conn_actions :: "stream \<Rightarrow> pg_conn_action list \<Rightarrow> postgres_activator \<Rightarrow> pg_act_result" where
  "pg_process_conn_actions handle cas act = (act, concat (map (pg_apply_conn_action handle act) cas))"

definition pg_with_conn :: "stream \<Rightarrow> (pg_connection \<Rightarrow> pg_result) \<Rightarrow> postgres_activator \<Rightarrow> pg_act_result" where
  "pg_with_conn handle f act =
     (case map_of (pa_connections act) handle of
        None \<Rightarrow> (act, [])
      | Some conn \<Rightarrow>
          let (conn, conn_actions) = f conn
          in pg_process_conn_actions handle conn_actions
               (act\<lparr>pa_connections := AList.update handle conn (pa_connections act)\<rparr>))"

definition pg_connect :: "stream \<Rightarrow> postgres_activator \<Rightarrow> pg_act_result" where
  "pg_connect handle act =
     (act\<lparr>pa_pending_connects := pa_pending_connects act @ [handle]\<rparr>, [UpstreamConnect 5432])"

definition pg_stream_open :: "stream \<Rightarrow> postgres_activator \<Rightarrow> pg_act_result" where
  "pg_stream_open handle act =
     (act\<lparr>pa_connections := AList.update handle pg_connection_new (pa_connections act)\<rparr>, [])"

definition pg_stream_data :: "stream \<Rightarrow> u8 list \<Rightarrow> postgres_activator \<Rightarrow> pg_act_result" where
  "pg_stream_data handle data act =
     (case map_of (pa_connections act) handle of
        None \<Rightarrow> (act, [])
      | Some _ \<Rightarrow>
          update_backend_need (compute_backend_need act)
            (then_do (pg_with_conn handle (pg_on_client_data data) act)
               (\<lambda>act. if pa_backend_available act \<and>
                         (case map_of (pa_connections act) handle of Some conn \<Rightarrow> has_buffered_startup conn | None \<Rightarrow> False)
                      then pg_connect handle act else (act, []))))"

definition pg_stream_close :: "stream \<Rightarrow> postgres_activator \<Rightarrow> pg_act_result" where
  "pg_stream_close handle act =
     update_backend_need (compute_backend_need act)
       (case map_of (pa_connections act) handle of
          None \<Rightarrow> (act, [])
        | Some _ \<Rightarrow>
            let upstream_handle = find_upstream handle (pa_upstream_to_downstream act)
            in (act\<lparr>pa_connections := AList.delete handle (pa_connections act),
                    pa_upstream_to_downstream :=
                      (case upstream_handle of Some uh \<Rightarrow> AList.delete uh (pa_upstream_to_downstream act)
                       | None \<Rightarrow> pa_upstream_to_downstream act),
                    pa_pending_connects := filter (\<lambda>h. h \<noteq> handle) (pa_pending_connects act)\<rparr>,
                case upstream_handle of Some uh \<Rightarrow> [UpstreamClose uh] | None \<Rightarrow> []))"

fun pg_for_each :: "(stream \<Rightarrow> postgres_activator \<Rightarrow> pg_act_result) \<Rightarrow> stream list \<Rightarrow> postgres_activator \<Rightarrow> pg_act_result" where
  "pg_for_each f [] act = (act, [])"
| "pg_for_each f (h # hs) act = then_do (f h act) (pg_for_each f hs)"

definition pg_backend_available :: "bool \<Rightarrow> postgres_activator \<Rightarrow> pg_act_result" where
  "pg_backend_available available act =
     update_backend_need (compute_backend_need act)
       (let act = act\<lparr>pa_backend_available := available\<rparr>
        in if available
           then pg_for_each pg_connect (map fst (filter (\<lambda>(_, conn). has_buffered_startup conn) (pa_connections act))) act
           else then_do (pg_for_each (\<lambda>h. pg_with_conn h pg_on_upstream_closed) (map fst (pa_connections act)) act)
                  (\<lambda>act. (act\<lparr>pa_upstream_to_downstream := []\<rparr>,
                          map (\<lambda>(uh, _). UpstreamClose uh) (pa_upstream_to_downstream act))))"

definition pg_upstream_connect_result :: "stream \<Rightarrow> bool \<Rightarrow> postgres_activator \<Rightarrow> pg_act_result" where
  "pg_upstream_connect_result upstream_handle connected act =
     (case pa_pending_connects act of
        [] \<Rightarrow> (act, [UpstreamClose upstream_handle])
      | downstream_handle # pending \<Rightarrow>
          update_backend_need (compute_backend_need act)
            (let act = act\<lparr>pa_pending_connects := pending\<rparr>
             in if connected
                then pg_with_conn downstream_handle pg_on_upstream_connected
                       (act\<lparr>pa_upstream_to_downstream :=
                             AList.update upstream_handle downstream_handle (pa_upstream_to_downstream act)\<rparr>)
                else pg_with_conn downstream_handle pg_on_upstream_failed act))"

definition pg_upstream_data :: "stream \<Rightarrow> u8 list \<Rightarrow> postgres_activator \<Rightarrow> pg_act_result" where
  "pg_upstream_data upstream_handle data act =
     (case map_of (pa_upstream_to_downstream act) upstream_handle of
        None \<Rightarrow> (act, [])
      | Some downstream_handle \<Rightarrow>
          (case map_of (pa_connections act) downstream_handle of
             None \<Rightarrow> (act, [])
           | Some _ \<Rightarrow>
               update_backend_need (compute_backend_need act) (pg_with_conn downstream_handle (pg_on_upstream_data data) act)))"

definition pg_upstream_close :: "stream \<Rightarrow> postgres_activator \<Rightarrow> pg_act_result" where
  "pg_upstream_close upstream_handle act =
     (case map_of (pa_upstream_to_downstream act) upstream_handle of
        None \<Rightarrow> (act, [])
      | Some downstream_handle \<Rightarrow>
          let old_need = compute_backend_need act;
              act = act\<lparr>pa_upstream_to_downstream := AList.delete upstream_handle (pa_upstream_to_downstream act)\<rparr>
          in case map_of (pa_connections act) downstream_handle of
               None \<Rightarrow> (act, [])
             | Some _ \<Rightarrow> update_backend_need old_need (pg_with_conn downstream_handle pg_on_upstream_closed act))"

definition pg_event :: "act_event \<Rightarrow> postgres_activator \<Rightarrow> pg_act_result" where
  "pg_event ev act =
     (case ev of
        EvStreamOpen handle \<Rightarrow> pg_stream_open handle act
      | EvStreamData handle data \<Rightarrow> pg_stream_data handle data act
      | EvStreamClose handle \<Rightarrow> pg_stream_close handle act
      | EvBackendAvailable available \<Rightarrow> pg_backend_available available act
      | EvUpstreamConnectResult handle connected \<Rightarrow> pg_upstream_connect_result handle connected act
      | EvUpstreamData handle data \<Rightarrow> pg_upstream_data handle data act
      | EvUpstreamClose handle \<Rightarrow> pg_upstream_close handle act
      | EvTick \<Rightarrow> (act, [])
      | EvPacket _ \<Rightarrow> (act, []))"

definition pg_process_events :: "act_event list \<Rightarrow> postgres_activator \<Rightarrow> pg_act_result" where
  "pg_process_events = run_events pg_event"

end
