(* ===== verification/Postgres_Props.thy ===== *)
theory Postgres_Props
  imports Postgres
begin

text \<open>
  What the PostgreSQL activator guarantees: the bytes of the startup phase reach the backend,
  health checks of an idle client are answered without it, the transaction status is the one the
  backend reported last however its bytes are cut, and the reported need follows the state of the
  connections.  The last section records three ways in which the code falls short of its comments.
\<close>

unbundle bit_operations_syntax

section \<open>Messages\<close>

lemma parse_tagged_append: "parse_tagged_message buf = Some (tag, n) \<Longrightarrow> parse_tagged_message (buf @ d) = Some (tag, n)"
  by (auto simp: parse_tagged_message_def Let_def nth_append split: if_splits)

lemma parse_tagged_bounds: "parse_tagged_message buf = Some (tag, n) \<Longrightarrow> 0 < n \<and> n \<le> length buf"
  by (auto simp: parse_tagged_message_def Let_def split: if_splits)

lemma parse_startup_take:
  assumes "parse_startup_message buf = Some (m, n)"
  shows "8 \<le> n" "n \<le> length buf" "parse_startup_message (take n buf) = Some (m, n)" "m = SslRequest \<or> m = StartupRaw (take n buf)"
  using assms by (auto simp: parse_startup_message_def Let_def min_def split: if_splits)

section \<open>The startup phase\<close>

definition is_ssl_request :: "u8 list \<Rightarrow> bool" where
  "is_ssl_request s \<longleftrightarrow> parse_startup_message s = Some (SslRequest, length s)"

definition ssl_refusal :: pg_conn_action where
  "ssl_refusal = PaDownstreamSend (bytes ''N'')"

text \<open>
  The bytes received so far are SSL requests, each refused, then the bytes kept for the backend and
  the bytes not read yet.
\<close>

definition startup_bytes :: "u8 list \<Rightarrow> pg_connection \<Rightarrow> pg_conn_action list \<Rightarrow> bool" where
  "startup_bytes received c acts \<longleftrightarrow>
     (\<exists>ssl. received = concat ssl @ pc_buffered_data c @ pc_recv_buf c \<and> list_all is_ssl_request ssl \<and>
        acts = replicate (length ssl) ssl_refusal)"

definition startup_phase :: "pg_connection \<Rightarrow> bool" where
  "startup_phase c \<longleftrightarrow>
     (if pc_phase c = PgStartup then pc_recv_buf c = [] \<and> pc_buffered_data c \<noteq> []
      else (pc_phase c = PgAwaitingStartup \<or> pc_phase c = PgSslNegotiation) \<and> pc_buffered_data c = [])"

lemma startup_bytes_ssl:
  assumes "startup_bytes received c acts" "pc_buffered_data c = []" "parse_startup_message (pc_recv_buf c) = Some (SslRequest, n)"
  shows "startup_bytes received (c\<lparr>pc_recv_buf := drop n (pc_recv_buf c), pc_phase := PgSslNegotiation\<rparr>) (acts @ [ssl_refusal])"
proof -
  obtain ssl where s: "received = concat ssl @ pc_recv_buf c" "list_all is_ssl_request ssl" "acts = replicate (length ssl) ssl_refusal"
    using assms(1,2) by (auto simp: startup_bytes_def)
  have "is_ssl_request (take n (pc_recv_buf c))"
    using parse_startup_take [OF assms(3)] by (simp add: is_ssl_request_def min_def)
  with s assms(2) show ?thesis
    by (auto simp: startup_bytes_def replicate_append_same intro!: exI [of _ "ssl @ [take n (pc_recv_buf c)]"])
qed

lemma try_parse_startup_bytes:
  assumes "startup_bytes received c acts" "pc_phase c = PgAwaitingStartup \<or> pc_phase c = PgSslNegotiation" "pc_buffered_data c = []"
    "length (pc_recv_buf c) \<le> n"
  shows "startup_bytes received (fst (try_parse_startup n c)) (acts @ snd (try_parse_startup n c)) \<and>
    startup_phase (fst (try_parse_startup n c)) \<and>
    (pc_phase (fst (try_parse_startup n c)) \<noteq> PgStartup \<longrightarrow> parse_startup_message (pc_recv_buf (fst (try_parse_startup n c))) = None)"
  using assms
proof (induction n arbitrary: c acts)
  case 0
  then show ?case by (auto simp: startup_phase_def parse_startup_message_def)
next
  case (Suc n)
  show ?case
  proof (cases "parse_startup_message (pc_recv_buf c)")
    case None
    then show ?thesis using Suc.prems by (auto simp: startup_phase_def)
  next
    case (Some r)
    obtain m k where r: "r = (m, k)" by (cases r)
    note p = parse_startup_take [OF Some [unfolded r]]
    show ?thesis
    proof (cases m)
      case SslRequest
      let ?c = "c\<lparr>pc_recv_buf := drop k (pc_recv_buf c), pc_phase := PgSslNegotiation\<rparr>"
      have b: "startup_bytes received ?c (acts @ [ssl_refusal])"
        using startup_bytes_ssl [OF Suc.prems(1,3)] Some r SslRequest by simp
      have "length (pc_recv_buf ?c) \<le> n" using p(1,2) Suc.prems(4) by simp
      from Suc.IH [OF b _ _ this] Suc.prems(3) Some r SslRequest show ?thesis by (simp add: ssl_refusal_def)
    next
      case (StartupRaw raw)
      then have "raw = take k (pc_recv_buf c)" using p(4) by simp
      then show ?thesis using Some r StartupRaw Suc.prems p(1,2)
        by (auto simp: startup_bytes_def startup_phase_def)
    qed
  qed
qed

lemma client_data_startup:
  assumes "startup_bytes received c acts" "startup_phase c"
  shows "startup_bytes (received @ d) (fst (pg_on_client_data d c)) (acts @ snd (pg_on_client_data d c)) \<and>
    startup_phase (fst (pg_on_client_data d c)) \<and>
    (pc_phase (fst (pg_on_client_data d c)) \<noteq> PgStartup \<longrightarrow>
       parse_startup_message (pc_recv_buf (fst (pg_on_client_data d c))) = None)"
proof (cases "pc_phase c = PgStartup")
  case True
  then show ?thesis using assms by (auto simp: pg_on_client_data_def startup_bytes_def startup_phase_def)
next
  case False
  let ?c = "c\<lparr>pc_recv_buf := pc_recv_buf c @ d\<rparr>"
  have ph: "pc_phase c = PgAwaitingStartup \<or> pc_phase c = PgSslNegotiation" "pc_buffered_data c = []"
    using assms(2) False by (auto simp: startup_phase_def)
  have b: "startup_bytes (received @ d) ?c acts" using assms(1) ph(2) by (auto simp: startup_bytes_def)
  have "pg_on_client_data d c = try_parse_startup (length (pc_recv_buf ?c)) ?c"
    using ph by (simp add: pg_on_client_data_def)
  then show ?thesis using try_parse_startup_bytes [OF b, of "length (pc_recv_buf ?c)"] ph by simp
qed

lemma run_startup:
  assumes "startup_bytes received c acts" "startup_phase c"
    "pc_phase c \<noteq> PgStartup \<Longrightarrow> parse_startup_message (pc_recv_buf c) = None"
  shows "startup_bytes (received @ concat ds) (fst (run_events pg_on_client_data ds c)) (acts @ snd (run_events pg_on_client_data ds c)) \<and>
    startup_phase (fst (run_events pg_on_client_data ds c)) \<and>
    (pc_phase (fst (run_events pg_on_client_data ds c)) \<noteq> PgStartup \<longrightarrow>
       parse_startup_message (pc_recv_buf (fst (run_events pg_on_client_data ds c))) = None)"
  using assms
proof (induction ds arbitrary: received c acts)
  case (Cons d ds)
  obtain c' a where r: "pg_on_client_data d c = (c', a)" by fastforce
  from client_data_startup [OF Cons.prems(1,2), of d] r Cons.IH [of "received @ d" c' "acts @ a"] show ?case by simp
qed simp


definition example_startup :: "u8 list list" where
  "example_startup = [[0, 0, 0, 8, 4], [210, 22, 47, 0, 0, 0], [9, 0, 3, 0, 0, 7, 1]]"


section \<open>Health checks\<close>

lemma drain_health_checks:
  assumes "is_idle c" "\<forall>m\<in>set ms. parse_tagged_message m = Some (MSG_QUERY, length m) \<and> is_interceptable MSG_QUERY m"
    "length (pc_recv_buf c) \<le> n" "pc_recv_buf c = concat ms @ rest"
    "\<And>tag k. parse_tagged_message rest = Some (tag, k) \<Longrightarrow> \<not> is_interceptable tag (take k rest)"
  shows "drain_client_proxying n c =
    (case parse_tagged_message rest of
       None \<Rightarrow> (c\<lparr>pc_recv_buf := rest\<rparr>, replicate (length ms) (PaDownstreamSend build_select_1_response))
     | Some _ \<Rightarrow> (c\<lparr>pc_recv_buf := []\<rparr>, replicate (length ms) (PaDownstreamSend build_select_1_response) @ [PaUpstreamSend rest]))"
  using assms
proof (induction ms arbitrary: c n)
  case Nil
  have e: "parse_tagged_message [] = None" by (simp add: parse_tagged_message_def)
  show ?case
  proof (cases "parse_tagged_message rest")
    case None
    have "drain_client_proxying n c = (c, [])" using Nil None by (cases n) simp_all
    then show ?thesis using None Nil.prems(4) by simp
  next
    case (Some r)
    obtain tag k where r: "r = (tag, k)" by (cases r)
    then have "rest \<noteq> []" using Some e by auto
    then obtain j where "n = Suc j" using Nil.prems(3,4) by (cases n) simp_all
    then show ?thesis using Some r Nil.prems \<open>rest \<noteq> []\<close> by simp
  qed
next
  case (Cons m ms)
  have m: "parse_tagged_message m = Some (MSG_QUERY, length m)" "is_interceptable MSG_QUERY m" using Cons.prems(2) by simp_all
  note b = parse_tagged_bounds [OF m(1)]
  have p: "parse_tagged_message (pc_recv_buf c) = Some (MSG_QUERY, length m)"
    using parse_tagged_append [OF m(1), of "concat ms @ rest"] Cons.prems(4) by simp
  obtain j where n: "n = Suc j" using Cons.prems(3,4) b by (cases n) auto
  let ?c = "c\<lparr>pc_recv_buf := concat ms @ rest\<rparr>"
  have "is_idle ?c" using Cons.prems(1) by (simp add: is_idle_def)
  moreover have "length (pc_recv_buf ?c) \<le> j" using Cons.prems(3,4) b n by (cases m) simp_all
  ultimately have IH: "drain_client_proxying j ?c =
    (case parse_tagged_message rest of
       None \<Rightarrow> (?c\<lparr>pc_recv_buf := rest\<rparr>, replicate (length ms) (PaDownstreamSend build_select_1_response))
     | Some _ \<Rightarrow> (?c\<lparr>pc_recv_buf := []\<rparr>, replicate (length ms) (PaDownstreamSend build_select_1_response) @ [PaUpstreamSend rest]))"
    using Cons.prems(2,5) by (intro Cons.IH) simp_all
  have "pc_recv_buf c \<noteq> []" using Cons.prems(4) b by auto
  then show ?case using n p m Cons.prems(1,4) IH by (simp split: option.split)
qed


definition example_idle :: pg_connection where
  "example_idle = pg_connection_new\<lparr>pc_phase := PgProxying, pc_last_txn_status := Some TxnIdle, pc_auth_complete := True\<rparr>"

definition query_message :: "string \<Rightarrow> u8 list" where
  "query_message q = MSG_QUERY # to_be32 (word_of_nat (length q + 5)) @ bytes q @ [0]"

lemma example_queries:
  "parse_tagged_message (query_message '' select 1 ;'') = Some (MSG_QUERY, length (query_message '' select 1 ;''))"
  "is_interceptable MSG_QUERY (query_message '' select 1 ;'')"
  "parse_tagged_message (query_message ''SELECT 2'') = Some (MSG_QUERY, length (query_message ''SELECT 2''))"
  "\<not> is_interceptable MSG_QUERY (query_message ''SELECT 2'')"
proof -
  have "extract_simple_query (query_message '' select 1 ;'') = Some (code_points '' select 1 ;'')"
    "extract_simple_query (query_message ''SELECT 2'') = Some (code_points ''SELECT 2'')"
    by code_simp+
  moreover have "is_health_check_query (code_points '' select 1 ;'')" "\<not> is_health_check_query (code_points ''SELECT 2'')"
    by (simp_all add: is_health_check_query_def trim_def trim_end_by_def code_points_def is_whitespace_def
        eq_ignore_ascii_case_def to_ascii_lowercase_def)
  ultimately show "is_interceptable MSG_QUERY (query_message '' select 1 ;'')" "\<not> is_interceptable MSG_QUERY (query_message ''SELECT 2'')"
    by (simp_all add: is_interceptable_def)
  show "parse_tagged_message (query_message '' select 1 ;'') = Some (MSG_QUERY, length (query_message '' select 1 ;''))"
    "parse_tagged_message (query_message ''SELECT 2'') = Some (MSG_QUERY, length (query_message ''SELECT 2''))"
    by code_simp+
qed


section \<open>The transaction status\<close>

definition message_turn :: "u8 list \<Rightarrow> (u8 list \<times> (u8 \<times> u8 list) list) option" where
  "message_turn buf =
     (case parse_tagged_message buf of None \<Rightarrow> None | Some (tag, n) \<Rightarrow> Some (drop n buf, [(tag, take n buf)]))"

text \<open>The complete messages at the front of a buffer, and the statuses they report.\<close>

definition messages_of :: "u8 list \<Rightarrow> (u8 \<times> u8 list) list" where
  "messages_of buf = snd (drain_loop message_turn (length buf) buf)"

definition status_of :: "u8 \<times> u8 list \<Rightarrow> transaction_status option" where
  "status_of m = (if fst m = MSG_READY_FOR_QUERY then parse_ready_for_query_status (snd m) else None)"

text \<open>The last status reported, or the one known before.\<close>

definition last_status :: "transaction_status option \<Rightarrow> (u8 \<times> u8 list) list \<Rightarrow> transaction_status option" where
  "last_status old ms = fold (\<lambda>m st. case status_of m of Some s \<Rightarrow> Some s | None \<Rightarrow> st) ms old"

interpretation scan: framing scan_turn pc_upstream_recv_buf scan_extend
proof unfold_locales
  fix s s' :: pg_connection and a :: "pg_conn_action list" and d e :: "u8 list"
  show "scan_extend e (scan_extend d s) = scan_extend (d @ e) s" "pc_upstream_recv_buf (scan_extend d s) = pc_upstream_recv_buf s @ d"
    by (simp_all add: scan_extend_def)
  assume t: "scan_turn s = Some (s', a)"
  then obtain tag n where p: "parse_tagged_message (pc_upstream_recv_buf s) = Some (tag, n)"
    by (auto simp: scan_turn_def split: option.splits)
  note n = parse_tagged_bounds [OF p]
  have "pc_upstream_recv_buf s' = drop n (pc_upstream_recv_buf s)" using t p by (auto simp: scan_turn_def Let_def)
  then show "length (pc_upstream_recv_buf s') < length (pc_upstream_recv_buf s)" using n by auto
  show "scan_turn (scan_extend d s) = Some (scan_extend d s', a)"
    using n t p parse_tagged_append [OF p, of d] by (auto simp: scan_turn_def Let_def scan_extend_def split: option.splits if_splits)
qed

lemma scan_status:
  "snd (drain_loop scan_turn n c) = [] \<and>
   pc_last_txn_status (fst (drain_loop scan_turn n c)) =
     last_status (pc_last_txn_status c) (snd (drain_loop message_turn n (pc_upstream_recv_buf c))) \<and>
   pc_phase (fst (drain_loop scan_turn n c)) = pc_phase c"
proof (induction n arbitrary: c)
  case 0
  then show ?case by (simp add: last_status_def)
next
  case (Suc n)
  show ?case
  proof (cases "parse_tagged_message (pc_upstream_recv_buf c)")
    case None
    then show ?thesis by (simp add: scan_turn_def message_turn_def last_status_def)
  next
    case (Some r)
    obtain tag k where r: "r = (tag, k)" by (cases r)
    obtain c' where t: "scan_turn c = Some (c', [])" "pc_upstream_recv_buf c' = drop k (pc_upstream_recv_buf c)" "pc_phase c' = pc_phase c"
      "pc_last_txn_status c' = (case status_of (tag, take k (pc_upstream_recv_buf c)) of Some s \<Rightarrow> Some s | None \<Rightarrow> pc_last_txn_status c)"
      using Some r by (auto simp: scan_turn_def Let_def status_of_def split: option.splits)
    have "message_turn (pc_upstream_recv_buf c) = Some (drop k (pc_upstream_recv_buf c), [(tag, take k (pc_upstream_recv_buf c))])"
      using Some r by (simp add: message_turn_def)
    then show ?thesis using t Suc.IH [of c'] by (simp add: last_status_def case_prod_beta)
  qed
qed

lemma upstream_data_scan:
  assumes "pc_phase c \<noteq> PgClosing"
  shows "snd (pg_on_upstream_data d c) = [PaDownstreamSend d]"
    "fst (pg_on_upstream_data d c) = fst (scan_upstream_for_ready d c)"
    "pc_phase (fst (pg_on_upstream_data d c)) = pc_phase c"
  using assms scan_status [of "length (pc_upstream_recv_buf (scan_extend d c))" "scan_extend d c"]
  by (simp_all add: pg_on_upstream_data_def scan_upstream_for_ready_def Let_def, simp_all add: scan_extend_def)

lemma scan_chunks: "fst (scan_upstream_for_ready e (fst (scan_upstream_for_ready d c))) = fst (scan_upstream_for_ready (d @ e) c)"
  using scan.drain_chunks [of "scan_extend d c" "length (pc_upstream_recv_buf (scan_extend d c))" e]
  by (simp add: scan_upstream_for_ready_def Let_def scan.extend_extend then_do_def case_prod_beta prod_eq_iff)

lemma upstream_chunks_scan:
  assumes "pc_phase c \<noteq> PgClosing"
  shows "snd (run_events pg_on_upstream_data (d # ds) c) = map PaDownstreamSend (d # ds) \<and>
    fst (run_events pg_on_upstream_data (d # ds) c) = fst (scan_upstream_for_ready (concat (d # ds)) c)"
  using assms
proof (induction ds arbitrary: c d)
  case Nil
  then show ?case using upstream_data_scan [of c d] by (simp add: then_do_def case_prod_beta)
next
  case (Cons e ds)
  note u = upstream_data_scan [OF Cons.prems, of d]
  from Cons.IH [of "fst (pg_on_upstream_data d c)" e] Cons.prems u
  have "snd (run_events pg_on_upstream_data (d # e # ds) c) = map PaDownstreamSend (d # e # ds)"
    "fst (run_events pg_on_upstream_data (d # e # ds) c) =
      fst (scan_upstream_for_ready (concat (e # ds)) (fst (scan_upstream_for_ready d c)))"
    by (simp_all add: then_do_def case_prod_beta)
  then show ?case using scan_chunks [of "concat (e # ds)" d c] by simp
qed

text \<open>
  Data of the backend is passed to the client byte for byte, and the transaction status
  is the one of the last complete ReadyForQuery message in all bytes received, however they were
  cut into chunks.
\<close>

theorem pg_tracks_transactions:
  assumes "pc_phase c \<noteq> PgClosing" "run_events pg_on_upstream_data (d # ds) c = (c', acts)"
  shows "acts = map PaDownstreamSend (d # ds) \<and> pc_phase c' = pc_phase c \<and>
    pc_last_txn_status c' = last_status (pc_last_txn_status c) (messages_of (pc_upstream_recv_buf c @ concat (d # ds)))"
  using upstream_chunks_scan [OF assms(1), of d ds] assms(2)
    scan_status [of "length (pc_upstream_recv_buf (scan_extend (concat (d # ds)) c))" "scan_extend (concat (d # ds)) c"]
  by (simp add: scan_upstream_for_ready_def Let_def messages_of_def) (simp add: scan_extend_def)

theorem pg_tracks_transactions_witness:
  "\<exists>c' acts. run_events pg_on_upstream_data [[82, 0, 0, 0, 8, 0, 0, 0], [0, 90, 0, 0], [0, 5, 73, 67]]
       (pg_connection_new\<lparr>pc_phase := PgProxying\<rparr>) = (c', acts) \<and>
     pc_last_txn_status c' = Some TxnIdle \<and> length acts = 3"
proof -
  let ?ds = "[[82, 0, 0, 0, 8, 0, 0, 0], [0, 90, 0, 0], [0, 5, 73, 67]] :: u8 list list" and ?c = "pg_connection_new\<lparr>pc_phase := PgProxying\<rparr>"
  obtain c' acts where r: "run_events pg_on_upstream_data ?ds ?c = (c', acts)" by fastforce
  have s: "last_status (pc_last_txn_status ?c) (messages_of (pc_upstream_recv_buf ?c @ concat ?ds)) = Some TxnIdle"
    by code_simp
  have "pc_phase ?c \<noteq> PgClosing" by simp
  from pg_tracks_transactions [OF this r] s r show ?thesis by simp
qed

section \<open>The need for a backend\<close>

definition pg_ok :: "postgres_activator \<Rightarrow> bool" where
  "pg_ok act \<longleftrightarrow> distinct (map fst (pa_connections act))"

fun pg_legal :: "act_event \<Rightarrow> postgres_activator \<Rightarrow> bool" where
  "pg_legal (EvStreamOpen h) act = (map_of (pa_connections act) h = None)"
| "pg_legal _ act = True"

definition pg_tracks :: "postgres_activator \<Rightarrow> pg_act_result \<Rightarrow> bool" where
  "pg_tracks act r \<longleftrightarrow> pg_ok (fst r) \<and> last_need (compute_backend_need act) (snd r) = compute_backend_need (fst r)"

lemma pg_tracks_update:
  "pg_ok (fst r) \<Longrightarrow> quiet (snd r) \<Longrightarrow> pg_tracks act (update_backend_need (compute_backend_need act) r)"
  by (cases r) (simp add: pg_tracks_def update_backend_need_def quiet_def Let_def)

lemma pg_tracks_same:
  "pg_ok (fst r) \<Longrightarrow> quiet (snd r) \<Longrightarrow> pa_connections (fst r) = pa_connections act \<Longrightarrow> pg_tracks act r"
  by (simp add: pg_tracks_def quiet_def compute_backend_need_def)

lemma quiet_conn_actions: "quiet (concat (map (pg_apply_conn_action h act) cas))"
  by (induction cas) (auto simp: pg_apply_conn_action_def split: pg_conn_action.split option.split intro!: quiet_append)

lemma pg_with_conn_ok: "pg_ok act \<Longrightarrow> pg_ok (fst (pg_with_conn h f act)) \<and> quiet (snd (pg_with_conn h f act))"
  by (auto simp: pg_with_conn_def pg_process_conn_actions_def pg_ok_def quiet_conn_actions distinct_update case_prod_beta split: option.split)

lemma pg_for_each_ok:
  assumes "\<And>h act. pg_ok act \<Longrightarrow> pg_ok (fst (f h act)) \<and> quiet (snd (f h act))" "pg_ok act"
  shows "pg_ok (fst (pg_for_each f hs act)) \<and> quiet (snd (pg_for_each f hs act))"
  using assms(2)
proof (induction hs arbitrary: act)
  case (Cons h hs)
  then show ?case using assms(1) [of act h] Cons.IH [of "fst (f h act)"]
    by (auto simp: then_do_def case_prod_beta intro: quiet_append)
qed simp

lemma pg_connect_ok: "pg_ok act \<Longrightarrow> pg_ok (fst (pg_connect h act)) \<and> quiet (snd (pg_connect h act))"
  by (simp add: pg_connect_def pg_ok_def)

lemma update_fresh: "map_of m k = None \<Longrightarrow> AList.update k v m = m @ [(k, v)]"
  by (induction m) (auto split: if_splits)

definition needs_backend :: "pg_connection \<Rightarrow> bool" where
  "needs_backend c \<longleftrightarrow> pc_phase c \<noteq> PgAwaitingStartup \<and> pc_phase c \<noteq> PgSslNegotiation \<and> \<not> is_idle c"

lemma compute_backend_need_iff:
  "compute_backend_need act = (if list_ex needs_backend (map snd (pa_connections act)) then NeedActive else NeedNone)"
proof -
  have "list_ex needs_backend cs \<longleftrightarrow>
    \<not> list_all is_idle (filter (\<lambda>c. pc_phase c \<noteq> PgAwaitingStartup \<and> pc_phase c \<noteq> PgSslNegotiation) cs)" for cs
    by (induction cs) (auto simp: needs_backend_def)
  from this [of "map snd (pa_connections act)"] show ?thesis
    by (auto simp: compute_backend_need_def Let_def)
qed

lemma stream_open_need:
  assumes "map_of (pa_connections act) h = None"
  shows "compute_backend_need (act\<lparr>pa_connections := AList.update h pg_connection_new (pa_connections act)\<rparr>) = compute_backend_need act"
  unfolding compute_backend_need_iff
  by (simp add: update_fresh [OF assms] needs_backend_def pg_connection_new_def)

lemma pg_stream_data_tracks: "pg_ok act \<Longrightarrow> pg_tracks act (pg_stream_data h d act)"
proof (cases "map_of (pa_connections act) h")
  case (Some c)
  assume ok: "pg_ok act"
  obtain act' as where r: "pg_with_conn h (pg_on_client_data d) act = (act', as)" by fastforce
  with pg_with_conn_ok [OF ok, of h "pg_on_client_data d"] have "pg_ok act'" "quiet as" by simp_all
  then show ?thesis using Some r pg_connect_ok [of act' h]
    by (auto simp: pg_stream_data_def intro!: pg_tracks_update quiet_append split: option.split)
qed (simp add: pg_stream_data_def pg_tracks_same)

lemma pg_stream_close_tracks: "pg_ok act \<Longrightarrow> pg_tracks act (pg_stream_close h act)"
  unfolding pg_stream_close_def
  by (intro pg_tracks_update) (auto simp: pg_ok_def distinct_delete Let_def split: option.split)

lemma pg_backend_available_tracks:
  assumes "pg_ok act"
  shows "pg_tracks act (pg_backend_available available act)"
proof -
  let ?act = "act\<lparr>pa_backend_available := available\<rparr>"
  have ok: "pg_ok ?act" using assms by (simp add: pg_ok_def)
  show ?thesis
  proof (cases available)
    case True
    then show ?thesis using pg_for_each_ok [OF pg_connect_ok ok]
      by (simp add: pg_backend_available_def pg_tracks_update)
  next
    case False
    obtain act' as where r: "pg_for_each (\<lambda>h. pg_with_conn h pg_on_upstream_closed) (map fst (pa_connections ?act)) ?act = (act', as)" by fastforce
    with pg_for_each_ok [where f = "\<lambda>h. pg_with_conn h pg_on_upstream_closed" and hs = "map fst (pa_connections ?act)", OF pg_with_conn_ok ok]
    have "pg_ok act'" "quiet as" by simp_all
    then have "pg_tracks act (update_backend_need (compute_backend_need act) (then_do (act', as)
      (\<lambda>act. (act\<lparr>pa_upstream_to_downstream := []\<rparr>, map (\<lambda>(uh, _). UpstreamClose uh) (pa_upstream_to_downstream act)))))"
      by (intro pg_tracks_update) (auto simp: pg_ok_def intro: quiet_append quiet_closes)
    then show ?thesis using False r by (simp add: pg_backend_available_def del: then_do_Pair)
  qed
qed

lemma pg_connect_result_tracks:
  assumes "pg_ok act"
  shows "pg_tracks act (pg_upstream_connect_result uh connected act)"
proof (cases "pa_pending_connects act")
  case Nil
  then show ?thesis using assms by (simp add: pg_upstream_connect_result_def pg_tracks_same)
next
  case (Cons h hs)
  have ok: "pg_ok (act\<lparr>pa_pending_connects := hs\<rparr>)" "pg_ok (act\<lparr>pa_pending_connects := hs, pa_upstream_to_downstream := m\<rparr>)" for m
    using assms by (simp_all add: pg_ok_def)
  show ?thesis using Cons pg_with_conn_ok [OF ok(1)] pg_with_conn_ok [OF ok(2)]
    by (auto simp: pg_upstream_connect_result_def Let_def intro!: pg_tracks_update)
qed

lemma pg_upstream_data_tracks: "pg_ok act \<Longrightarrow> pg_tracks act (pg_upstream_data uh d act)"
  using pg_with_conn_ok by (auto simp: pg_upstream_data_def intro!: pg_tracks_same pg_tracks_update split: option.split)

lemma pg_upstream_close_tracks:
  assumes "pg_ok act"
  shows "pg_tracks act (pg_upstream_close uh act)"
proof -
  let ?act = "act\<lparr>pa_upstream_to_downstream := AList.delete uh (pa_upstream_to_downstream act)\<rparr>"
  have "pg_ok ?act" using assms by (simp add: pg_ok_def)
  then show ?thesis using assms pg_with_conn_ok [of ?act]
    by (auto simp: pg_upstream_close_def Let_def intro!: pg_tracks_same pg_tracks_update split: option.split)
qed

lemma pg_event_tracks:
  assumes "pg_ok act" "pg_legal ev act"
  shows "pg_tracks act (pg_event ev act)"
proof (cases ev)
  case (EvStreamOpen h)
  then show ?thesis using assms stream_open_need [of act h]
    by (simp add: pg_event_def pg_stream_open_def pg_tracks_def pg_ok_def distinct_update)
qed (use assms(1) in \<open>auto simp: pg_event_def intro: pg_stream_data_tracks pg_stream_close_tracks pg_backend_available_tracks
  pg_connect_result_tracks pg_upstream_data_tracks pg_upstream_close_tracks pg_tracks_same\<close>)

interpretation pg: need_contract pg_event pg_legal pg_ok compute_backend_need
  using pg_event_tracks by unfold_locales (auto simp: pg_tracks_def)


definition example_pg_events :: "act_event list" where
  "example_pg_events = [EvStreamOpen 1, EvStreamData 1 [0, 0, 0, 9, 0, 3, 0, 0, 7]]"


section \<open>Where the code differs from its comments\<close>

text \<open>
  A client stays idle after its query was sent to the backend: nothing resets the status, although
  the code says that the client is no longer idle then.  So no backend is needed while it works.
\<close>

lemma idle_client_message:
  assumes "pc_phase c = PgProxying" "is_idle c" "pc_recv_buf c = []"
  shows "parse_tagged_message msg = Some (tag, n) \<Longrightarrow> \<not> is_interceptable tag (take n msg) \<Longrightarrow>
      pg_on_client_data msg c = (c\<lparr>pc_recv_buf := []\<rparr>, [PaUpstreamSend msg])"
    "parse_tagged_message msg = None \<Longrightarrow> pg_on_client_data msg c = (c\<lparr>pc_recv_buf := msg\<rparr>, [])"
proof -
  let ?c = "c\<lparr>pc_recv_buf := msg\<rparr>"
  have "is_idle ?c" using assms(2) by (simp add: is_idle_def)
  note d = drain_health_checks [OF this, of "[]" "length msg" msg]
  show "pg_on_client_data msg c = (c\<lparr>pc_recv_buf := []\<rparr>, [PaUpstreamSend msg])"
    if "parse_tagged_message msg = Some (tag, n)" "\<not> is_interceptable tag (take n msg)"
    using d that assms by (simp add: pg_on_client_data_def)
  show "pg_on_client_data msg c = (c\<lparr>pc_recv_buf := msg\<rparr>, [])" if "parse_tagged_message msg = None"
    using d that assms by (simp add: pg_on_client_data_def)
qed

lemma idle_while_query_runs:
  assumes "pc_phase c = PgProxying" "is_idle c" "pc_recv_buf c = []"
    "parse_tagged_message msg = Some (tag, n)" "\<not> is_interceptable tag (take n msg)"
  shows "pg_on_client_data msg c = (c, [PaUpstreamSend msg]) \<and>
    compute_backend_need (act\<lparr>pa_connections := [(h, fst (pg_on_client_data msg c))]\<rparr>) = NeedNone"
proof -
  have "pg_on_client_data msg c = (c\<lparr>pc_recv_buf := []\<rparr>, [PaUpstreamSend msg])"
    using idle_client_message(1) [OF assms] .
  moreover have "c\<lparr>pc_recv_buf := []\<rparr> = c" using assms(3) by (cases c) simp
  ultimately have e: "pg_on_client_data msg c = (c, [PaUpstreamSend msg])" by (simp only:)
  show ?thesis unfolding e by (simp add: compute_backend_need_def assms(2))
qed

text \<open>
  The second half of a message whose first half followed another query is read as a message of its
  own: the bytes stay in the receive buffer.
\<close>

lemma split_message_stuck:
  "\<exists>c. pg_on_client_data (query_message ''SELECT 2'' @ take 6 (query_message ''SELECT 3'')) example_idle =
       (c, [PaUpstreamSend (query_message ''SELECT 2'' @ take 6 (query_message ''SELECT 3''))]) \<and>
     pg_on_client_data (drop 6 (query_message ''SELECT 3'')) c =
       (c\<lparr>pc_recv_buf := drop 6 (query_message ''SELECT 3'')\<rparr>, [])"
proof -
  have "drop 6 (query_message ''SELECT 3'') = [69, 76, 69, 67, 84, 32, 51, 0]" "be32 76 69 67 84 = 0x4C454354" by code_simp+
  then have n: "parse_tagged_message (drop 6 (query_message ''SELECT 3'')) = None" by (simp add: parse_tagged_message_def)
  have c: "pc_phase example_idle = PgProxying" "is_idle example_idle" "pc_recv_buf example_idle = []"
    "example_idle\<lparr>pc_recv_buf := []\<rparr> = example_idle"
    by (simp_all add: example_idle_def pg_connection_new_def is_idle_def)
  let ?d = "query_message ''SELECT 2'' @ take 6 (query_message ''SELECT 3'')"
  have "parse_tagged_message ?d = Some (MSG_QUERY, length (query_message ''SELECT 2''))"
    by (rule parse_tagged_append [OF example_queries(3)])
  then show ?thesis using idle_client_message [OF c(1-3)] example_queries(4) n c(4) by (intro exI [of _ example_idle]) simp
qed

text \<open>Two packets of startup data with a backend available ask for two backend connections for one client.\<close>

lemma two_upstreams:
  "snd (pg_process_events [EvBackendAvailable True, EvStreamOpen 1, EvStreamData 1 [0, 0, 0, 8, 0, 3, 0, 0], EvStreamData 1 [7]]
     postgres_activator_new) = [UpstreamConnect 5432, SetBackendNeed NeedActive, UpstreamConnect 5432]"
proof -
  have "pg_on_client_data [0, 0, 0, 8, 0, 3, 0, 0] pg_connection_new =
    (pg_connection_new\<lparr>pc_phase := PgStartup, pc_buffered_data := [0, 0, 0, 8, 0, 3, 0, 0]\<rparr>, [])"
    by code_simp
  moreover have "pg_on_client_data [7] (pg_connection_new\<lparr>pc_phase := PgStartup, pc_buffered_data := b\<rparr>) =
    (pg_connection_new\<lparr>pc_phase := PgStartup, pc_buffered_data := b @ [7]\<rparr>, [])" for b
    by (simp add: pg_on_client_data_def)
  moreover have "pc_phase pg_connection_new = PgAwaitingStartup" "pc_last_txn_status pg_connection_new = None"
    by (simp_all add: pg_connection_new_def)
  ultimately show ?thesis
    unfolding pg_process_events_def postgres_activator_new_def
    by (simp add: pg_event_def pg_backend_available_def pg_stream_open_def pg_stream_data_def pg_with_conn_def
        pg_process_conn_actions_def update_backend_need_def compute_backend_need_iff needs_backend_def is_idle_def
        has_buffered_startup_def pg_connect_def)
qed

end
