(* ===== verification/Dns.thy ===== *)
theory Dns
  imports Utf8 Packet "HOL-Library.AList"
begin

text \<open>
  The DNS forwarder of the gateway (\<open>worker/src/fabric/gateway/dns.rs\<close>) and the name registry of a
  namespace (\<open>worker/src/worker/namespace.rs\<close>).  A name is a list of code points, the registry an
  association list.  The UDP socket and the upstream resolver appear as effects: a response to send
  or a lookup to start.

  The lemmas relate the parser to the wire format of a question and show which bytes a response
  has and for which names it is given locally.
\<close>

unbundle bit_operations_syntax

type_synonym dns_registry = "(nat list \<times> ipv4) list"

section \<open>Wire format\<close>

function parse_qname_loop :: "u8 list \<Rightarrow> nat \<Rightarrow> nat list \<Rightarrow> nat list option" where
  "parse_qname_loop query pos name =
     (if pos \<ge> length query then None
      else let label_len = unat (query ! pos); pos = pos + 1
           in if label_len = 0 then Some name
              else if label_len AND 0xC0 \<noteq> 0 then None
              else if pos + label_len > length query then None
              else let name = (if name \<noteq> [] then name @ [46] else name)
                   in case from_utf8 (take label_len (drop pos query)) of
                        None \<Rightarrow> None
                      | Some label \<Rightarrow> parse_qname_loop query (pos + label_len) (name @ map to_ascii_lowercase label))"
  by pat_completeness auto
termination by (relation "measure (\<lambda>(query, pos, name). length query - pos)") auto

declare parse_qname_loop.simps [simp del]

definition parse_qname :: "u8 list \<Rightarrow> nat list option" where
  "parse_qname query =
     (if length query < 13 then None
      else case parse_qname_loop query 12 [] of
             None \<Rightarrow> None
           | Some name \<Rightarrow> if name = [] then None else Some name)"

function find_qname_end :: "u8 list \<Rightarrow> nat \<Rightarrow> nat option" where
  "find_qname_end data pos =
     (if pos \<ge> length data then None
      else let label_len = unat (data ! pos); pos = pos + 1
           in if label_len = 0 then Some pos
              else if label_len AND 0xC0 \<noteq> 0 then None
              else find_qname_end data (pos + label_len))"
  by pat_completeness auto
termination by (relation "measure (\<lambda>(data, pos). length data - pos)") auto

declare find_qname_end.simps [simp del]

definition synthesize_a_response :: "u8 list \<Rightarrow> ipv4 \<Rightarrow> u8 list" where
  "synthesize_a_response query ip =
     (case find_qname_end query 12 of
        None \<Rightarrow> []
      | Some qname_end \<Rightarrow>
          let question_end = qname_end + 4
          in if question_end > length query then []
             else let resp = take question_end query;
                      resp = resp[2 := resp ! 2 OR 0x84];
                      resp = resp[3 := resp ! 3 AND 0x00];
                      resp = resp[6 := 0, 7 := 1, 8 := 0, 9 := 0, 10 := 0, 11 := 0]
                  in resp @ [0xC0, 0x0C, 0x00, 0x01, 0x00, 0x01, 0x00, 0x00, 0x00, 0x3C, 0x00, 0x04] @ octets ip)"

definition synthesize_nxdomain_response :: "u8 list \<Rightarrow> u8 list" where
  "synthesize_nxdomain_response query =
     (case find_qname_end query 12 of
        None \<Rightarrow> []
      | Some qname_end \<Rightarrow>
          let question_end = qname_end + 4
          in if question_end > length query then []
             else let resp = take question_end query;
                      resp = resp[2 := resp ! 2 OR 0x84];
                      resp = resp[3 := (resp ! 3 AND 0xF0) OR 0x03]
                  in resp[6 := 0, 7 := 0, 8 := 0, 9 := 0, 10 := 0, 11 := 0])"

section \<open>Resolution\<close>

definition strip_suffix :: "nat list \<Rightarrow> nat list \<Rightarrow> nat list option" where
  "strip_suffix name suffix =
     (if length suffix \<le> length name \<and> drop (length name - length suffix) name = suffix
      then Some (take (length name - length suffix) name) else None)"

definition dns_suffix :: "nat list \<Rightarrow> nat list" where
  "dns_suffix namespace_name = code_points ''.'' @ namespace_name @ code_points ''.dv.local''"

definition try_resolve :: "dns_registry \<Rightarrow> u8 list \<Rightarrow> nat list \<Rightarrow> u8 list option" where
  "try_resolve registry query namespace_name =
     (case parse_qname query of
        None \<Rightarrow> None
      | Some name \<Rightarrow>
          (case map_of registry name of
             Some ip \<Rightarrow> Some (synthesize_a_response query ip)
           | None \<Rightarrow>
               (case strip_suffix name (dns_suffix namespace_name) of
                  None \<Rightarrow> None
                | Some bare \<Rightarrow> map_option (synthesize_a_response query) (map_of registry bare))))"

datatype 'ep dns_effect =
    DnsSend "u8 list" 'ep
  | DnsLookup "nat list" "u8 list" 'ep

text \<open>One received datagram.\<close>

definition process_query :: "dns_registry \<Rightarrow> nat list \<Rightarrow> u8 list \<times> 'ep \<Rightarrow> 'ep dns_effect list" where
  "process_query registry namespace_name datagram =
     (let (query, endpoint) = datagram
      in if length query < 2 then []
         else case try_resolve registry query namespace_name of
                Some response \<Rightarrow> [DnsSend response endpoint]
              | None \<Rightarrow>
                  (case parse_qname query of Some qname \<Rightarrow> [DnsLookup qname query endpoint] | None \<Rightarrow> []))"

definition process_queries :: "dns_registry \<Rightarrow> nat list \<Rightarrow> (u8 list \<times> 'ep) list \<Rightarrow> 'ep dns_effect list" where
  "process_queries registry namespace_name datagrams = concat (map (process_query registry namespace_name) datagrams)"

record 'ep dns_lookup_result =
  lr_query :: "u8 list"
  lr_endpoint :: 'ep
  lr_result :: "ipv4 option"

definition write_result :: "'ep dns_lookup_result \<Rightarrow> 'ep dns_effect list" where
  "write_result result =
     (let response = (case lr_result result of
                        Some ip \<Rightarrow> synthesize_a_response (lr_query result) ip
                      | None \<Rightarrow> synthesize_nxdomain_response (lr_query result))
      in if response = [] then [] else [DnsSend response (lr_endpoint result)])"

section \<open>The registry\<close>

definition registry_sync :: "(nat list \<times> ipv4) list \<Rightarrow> dns_registry \<Rightarrow> dns_registry" where
  "registry_sync entries registry = fold (\<lambda>(name, ip) m. AList.update name ip m) entries []"

definition registry_update :: "(nat list \<times> ipv4) list \<Rightarrow> nat list list \<Rightarrow> dns_registry \<Rightarrow> dns_registry" where
  "registry_update added removed registry =
     fold (\<lambda>(name, ip) m. AList.update name ip m) added (fold (\<lambda>name m. AList.delete name m) removed registry)"

section \<open>Questions\<close>

text \<open>The wire format of a name, and the dotted lower-case form of its ASCII labels.\<close>

definition encode_name :: "u8 list list \<Rightarrow> u8 list" where
  "encode_name labels = concat (map (\<lambda>l. word_of_nat (length l) # l) labels) @ [0]"

definition label_ok :: "u8 list \<Rightarrow> bool" where
  "label_ok l \<longleftrightarrow> l \<noteq> [] \<and> length l < 64 \<and> list_all (\<lambda>b. b < 0x80) l"

definition lower_label :: "u8 list \<Rightarrow> nat list" where
  "lower_label l = map to_ascii_lowercase (map unat l)"

fun dotted :: "u8 list list \<Rightarrow> nat list" where
  "dotted [] = []"
| "dotted (l # ls) = lower_label l @ concat (map (\<lambda>l. 46 # lower_label l) ls)"

lemma no_pointer_bits:
  assumes "n < 64"
  shows "n AND 0xC0 = (0 :: nat)"
proof (rule bit_eqI)
  fix i
  have "(0xC0 :: nat) = push_bit 6 3" by (simp add: push_bit_eq_mult)
  then have "i \<ge> 6" if "bit (0xC0 :: nat) i" using that by (simp only: bit_push_bit_iff_nat)
  moreover have "\<not> bit n i" if "i \<ge> 6"
  proof -
    have "take_bit 6 n = n" using assms by (simp add: take_bit_nat_eq_self_iff)
    then show ?thesis using that by (metis bit_take_bit_iff leD)
  qed
  ultimately show "bit (n AND 0xC0) i = bit (0 :: nat) i" by (auto simp: bit_and_iff)
qed

lemma unat_label_len: "length l < 64 \<Longrightarrow> unat (word_of_nat (length l) :: u8) = length l"
  by (simp add: unsigned_of_nat take_bit_nat_eq_self)

lemma parse_qname_loop_encode:
  assumes "list_all label_ok labels"
  shows "parse_qname_loop (pre @ encode_name labels @ rest) (length pre) name =
    Some (if name = [] then dotted labels else name @ concat (map (\<lambda>l. 46 # lower_label l) labels))"
  using assms
proof (induction labels arbitrary: pre name)
  case Nil
  then show ?case by (subst parse_qname_loop.simps) (simp add: encode_name_def)
next
  case (Cons l ls)
  let ?tail = "encode_name ls @ rest"
  have l: "l \<noteq> []" "length l < 64" "from_utf8 l = Some (map unat l)"
    using Cons.prems by (auto simp: label_ok_def from_utf8_ascii)
  have q: "pre @ encode_name (l # ls) @ rest = (pre @ word_of_nat (length l) # l) @ ?tail" by (simp add: encode_name_def)
  have nth: "(pre @ encode_name (l # ls) @ rest) ! length pre = word_of_nat (length l)" by (simp add: encode_name_def)
  have sub: "take (length l) (drop (length pre + 1) (pre @ encode_name (l # ls) @ rest)) = l" unfolding q by simp
  have len: "length pre + 1 + length l \<le> length (pre @ encode_name (l # ls) @ rest)" unfolding q by simp
  let ?name = "(if name \<noteq> [] then name @ [46] else name) @ lower_label l"
  have ne: "?name \<noteq> []" using l(1) by (simp add: lower_label_def)
  have "parse_qname_loop query (length pre) name = parse_qname_loop query (length pre + 1 + length l) ?name"
    if "query ! length pre = word_of_nat (length l)" "take (length l) (drop (length pre + 1) query) = l"
      "length pre + 1 + length l \<le> length query" for query
    using l that by (subst parse_qname_loop.simps) (simp add: unat_label_len no_pointer_bits lower_label_def Let_def)
  from this [OF nth sub len] have "parse_qname_loop (pre @ encode_name (l # ls) @ rest) (length pre) name =
    parse_qname_loop (pre @ encode_name (l # ls) @ rest) (length pre + 1 + length l) ?name" .
  also have "\<dots> = parse_qname_loop ((pre @ word_of_nat (length l) # l) @ ?tail) (length (pre @ word_of_nat (length l) # l)) ?name"
    unfolding q by simp
  also have "\<dots> = Some (if ?name = [] then dotted ls else ?name @ concat (map (\<lambda>l. 46 # lower_label l) ls))"
    by (rule Cons.IH) (use Cons.prems in simp)
  finally show ?case using ne by auto
qed

lemma find_qname_end_encode:
  assumes "list_all label_ok labels"
  shows "find_qname_end (pre @ encode_name labels @ rest) (length pre) = Some (length pre + length (encode_name labels))"
  using assms
proof (induction labels arbitrary: pre)
  case Nil
  then show ?case by (subst find_qname_end.simps) (simp add: encode_name_def)
next
  case (Cons l ls)
  have l: "l \<noteq> []" "length l < 64" using Cons.prems by (auto simp: label_ok_def)
  have q: "pre @ encode_name (l # ls) @ rest = (pre @ word_of_nat (length l) # l) @ encode_name ls @ rest" by (simp add: encode_name_def)
  have nth: "(pre @ encode_name (l # ls) @ rest) ! length pre = word_of_nat (length l)" by (simp add: encode_name_def)
  have len: "length pre < length (pre @ encode_name (l # ls) @ rest)" unfolding q by simp
  have "find_qname_end query (length pre) = find_qname_end query (length pre + 1 + length l)"
    if "query ! length pre = word_of_nat (length l)" "length pre < length query" for query
    using l that by (subst find_qname_end.simps) (simp add: unat_label_len no_pointer_bits Let_def)
  from this [OF nth len] have "find_qname_end (pre @ encode_name (l # ls) @ rest) (length pre) =
    find_qname_end (pre @ encode_name (l # ls) @ rest) (length pre + 1 + length l)" .
  also have "\<dots> = find_qname_end ((pre @ word_of_nat (length l) # l) @ encode_name ls @ rest) (length (pre @ word_of_nat (length l) # l))"
    unfolding q by simp
  also have "\<dots> = Some (length (pre @ word_of_nat (length l) # l) + length (encode_name ls))"
    by (rule Cons.IH) (use Cons.prems in simp)
  finally show ?case by (simp add: encode_name_def)
qed

lemma parse_qname_encode:
  assumes "list_all label_ok labels" "labels \<noteq> []" "length hdr = 12"
  shows "parse_qname (hdr @ encode_name labels @ rest) = Some (dotted labels)"
proof -
  have "dotted labels \<noteq> []" using assms(1,2) by (cases labels) (auto simp: label_ok_def lower_label_def)
  moreover have "\<not> length (hdr @ encode_name labels @ rest) < 13" using assms(3) by (simp add: encode_name_def)
  ultimately show ?thesis
    using parse_qname_loop_encode [OF assms(1), of hdr rest "[]"] assms(3) by (simp add: parse_qname_def)
qed

section \<open>Responses\<close>

text \<open>A complete question with the header in front.\<close>

definition question :: "u8 list \<Rightarrow> u8 list list \<Rightarrow> u8 list \<Rightarrow> u8 list" where
  "question hdr labels qtype_class = hdr @ encode_name labels @ qtype_class"

definition question_ok :: "u8 list \<Rightarrow> u8 list list \<Rightarrow> u8 list \<Rightarrow> bool" where
  "question_ok hdr labels qtype_class \<longleftrightarrow>
     length hdr = 12 \<and> labels \<noteq> [] \<and> list_all label_ok labels \<and> length qtype_class = 4"

definition answer_record :: "ipv4 \<Rightarrow> u8 list" where
  "answer_record ip = [0xC0, 0x0C, 0, 1, 0, 1, 0, 0, 0, 60, 0, 4] @ octets ip"

lemma response_bytes:
  assumes "question_ok hdr labels qc"
  shows "synthesize_a_response (question hdr labels qc @ rest) ip =
      [hdr ! 0, hdr ! 1, hdr ! 2 OR 0x84, 0, hdr ! 4, hdr ! 5, 0, 1, 0, 0, 0, 0] @ encode_name labels @ qc @ answer_record ip"
    "synthesize_nxdomain_response (question hdr labels qc @ rest) =
      [hdr ! 0, hdr ! 1, hdr ! 2 OR 0x84, (hdr ! 3 AND 0xF0) OR 3, hdr ! 4, hdr ! 5, 0, 0, 0, 0, 0, 0] @ encode_name labels @ qc"
proof -
  have q: "length hdr = 12" "list_all label_ok labels" "length qc = 4" using assms by (simp_all add: question_ok_def)
  then obtain h0 h1 h2 h3 h4 h5 h6 h7 h8 h9 h10 h11 where h: "hdr = [h0, h1, h2, h3, h4, h5, h6, h7, h8, h9, h10, h11]"
    by (auto simp: numeral_eq_Suc length_Suc_conv)
  have e: "find_qname_end (question hdr labels qc @ rest) 12 = Some (12 + length (encode_name labels))"
    using find_qname_end_encode [OF q(2), of hdr "qc @ rest"] q(1) by (simp add: question_def)
  have t: "take (12 + length (encode_name labels) + 4) (question hdr labels qc @ rest) = hdr @ encode_name labels @ qc"
    using q by (simp add: question_def)
  have l: "\<not> length (question hdr labels qc @ rest) < 12 + length (encode_name labels) + 4"
    using q by (simp add: question_def)
  show "synthesize_a_response (question hdr labels qc @ rest) ip =
      [hdr ! 0, hdr ! 1, hdr ! 2 OR 0x84, 0, hdr ! 4, hdr ! 5, 0, 1, 0, 0, 0, 0] @ encode_name labels @ qc @ answer_record ip"
    unfolding synthesize_a_response_def e option.case Let_def t answer_record_def using l
    by (simp only: if_False) (simp add: h numeral_eq_Suc)
  show "synthesize_nxdomain_response (question hdr labels qc @ rest) =
      [hdr ! 0, hdr ! 1, hdr ! 2 OR 0x84, (hdr ! 3 AND 0xF0) OR 3, hdr ! 4, hdr ! 5, 0, 0, 0, 0, 0, 0] @ encode_name labels @ qc"
    unfolding synthesize_nxdomain_response_def e option.case Let_def t using l
    by (simp only: if_False) (simp add: h numeral_eq_Suc)
qed

section \<open>Properties\<close>

text \<open>Which address a name has, for a registry given as a map.\<close>

definition resolve_name :: "(nat list \<rightharpoonup> ipv4) \<Rightarrow> nat list \<Rightarrow> nat list \<Rightarrow> ipv4 option" where
  "resolve_name reg namespace_name name =
     (case reg name of
        Some ip \<Rightarrow> Some ip
      | None \<Rightarrow> Option.bind (strip_suffix name (dns_suffix namespace_name)) reg)"

lemma strip_suffix_iff: "strip_suffix name suffix = Some bare \<longleftrightarrow> name = bare @ suffix"
proof
  assume "strip_suffix name suffix = Some bare"
  then have "suffix = drop (length name - length suffix) name" "bare = take (length name - length suffix) name"
    by (auto simp: strip_suffix_def split: if_splits)
  then show "name = bare @ suffix" by (metis append_take_drop_id)
qed (simp add: strip_suffix_def)

lemma map_of_inserts: "map_of (fold (\<lambda>(name, ip) m. AList.update name ip m) entries reg) n =
    (case map_of (rev entries) n of Some ip \<Rightarrow> Some ip | None \<Rightarrow> map_of reg n)"
proof (induction entries arbitrary: reg)
  case (Cons e entries)
  obtain name ip where e: "e = (name, ip)" by (cases e)
  show ?case unfolding e by (simp add: Cons.IH update_conv' map_add_def split: option.split)
qed simp

lemma map_of_removes: "map_of (fold (\<lambda>name m. AList.delete name m) removed reg) n = (if n \<in> set removed then None else map_of reg n)"
  by (induction removed arbitrary: reg) (auto simp: delete_conv')


text \<open>
  C21. A question for ASCII labels is answered locally exactly when the lower-case dotted name
  is registered, or the name without the suffix of the namespace is.  The response repeats the
  identifier and the question, is marked as authoritative without error, has exactly one answer and
  this is the registered address; otherwise the upstream resolver is asked for the name.
\<close>

theorem dns_answers_registered:
  assumes "question_ok hdr labels qc"
  shows "process_query reg namespace_name (question hdr labels qc @ rest, endpoint) =
    (case resolve_name (map_of reg) namespace_name (dotted labels) of
       Some ip \<Rightarrow>
         [DnsSend ([hdr ! 0, hdr ! 1, hdr ! 2 OR 0x84, 0, hdr ! 4, hdr ! 5, 0, 1, 0, 0, 0, 0] @ encode_name labels @ qc @ answer_record ip)
            endpoint]
     | None \<Rightarrow> [DnsLookup (dotted labels) (question hdr labels qc @ rest) endpoint])"
proof -
  have q: "length hdr = 12" "labels \<noteq> []" "list_all label_ok labels" using assms by (simp_all add: question_ok_def)
  have p: "parse_qname (question hdr labels qc @ rest) = Some (dotted labels)"
    using parse_qname_encode [OF q(3,2,1), of "qc @ rest"] by (simp add: question_def)
  have l: "\<not> length (question hdr labels qc @ rest) < 2" using q(1) by (simp add: question_def)
  show ?thesis
    using l p by (auto simp: process_query_def try_resolve_def resolve_name_def response_bytes [OF assms] split: option.split)
qed

theorem dns_answers_registered_witness:
  "process_query [(code_points ''db'', 0x0A000005)] (code_points ''ns'')
     ([1, 2, 1, 0, 0, 1, 0, 0, 0, 0, 0, 0] @ [2, 68, 98, 2, 110, 115, 2, 100, 118, 5, 108, 111, 99, 97, 108, 0] @ [0, 1, 0, 1], ()) =
   [DnsSend ([1, 2, 0x85, 0, 0, 1, 0, 1, 0, 0, 0, 0] @ [2, 68, 98, 2, 110, 115, 2, 100, 118, 5, 108, 111, 99, 97, 108, 0] @ [0, 1, 0, 1] @
      [0xC0, 0x0C, 0, 1, 0, 1, 0, 0, 0, 60, 0, 4, 10, 0, 0, 5]) ()]"
proof -
  let ?hdr = "[1, 2, 1, 0, 0, 1, 0, 0, 0, 0, 0, 0] :: u8 list" and ?labels = "[[68, 98], [110, 115], [100, 118], [108, 111, 99, 97, 108]] :: u8 list list"
  have ok: "question_ok ?hdr ?labels [0, 1, 0, 1]" by (simp add: question_ok_def label_ok_def)
  have e: "encode_name ?labels = [2, 68, 98, 2, 110, 115, 2, 100, 118, 5, 108, 111, 99, 97, 108, 0]" by (simp add: encode_name_def)
  have n: "dotted ?labels = code_points ''db'' @ dns_suffix (code_points ''ns'')"
    by (simp add: lower_label_def to_ascii_lowercase_def dns_suffix_def code_points_def)
  have "strip_suffix (dotted ?labels) (dns_suffix (code_points ''ns'')) = Some (code_points ''db'')"
    unfolding n strip_suffix_iff ..
  moreover have "dotted ?labels \<noteq> code_points ''db''" unfolding n by (simp add: dns_suffix_def code_points_def)
  ultimately have r: "resolve_name (map_of [(code_points ''db'', 0x0A000005)]) (code_points ''ns'') (dotted ?labels) = Some 0x0A000005"
    by (simp add: resolve_name_def)
  have a: "answer_record 0x0A000005 = [0xC0, 0x0C, 0, 1, 0, 1, 0, 0, 0, 60, 0, 4, 10, 0, 0, 5]" by code_simp
  show ?thesis
    using dns_answers_registered [OF ok, of "[(code_points ''db'', 0x0A000005)]" "code_points ''ns''" "[]" "()"]
    unfolding r e question_def by (simp add: a)
qed

text \<open>
  A question that ends before its type and class is still answered for a registered name, with an
  empty datagram.
\<close>

lemma truncated_question_empty_datagram:
  assumes "length hdr = 12" "labels \<noteq> []" "list_all label_ok labels" "map_of reg (dotted labels) = Some ip"
  shows "process_query reg namespace_name (hdr @ encode_name labels, endpoint) = [DnsSend [] endpoint]"
proof -
  have "parse_qname (hdr @ encode_name labels) = Some (dotted labels)"
    using parse_qname_encode [OF assms(3,2,1), of "[]"] by simp
  moreover have "find_qname_end (hdr @ encode_name labels) 12 = Some (12 + length (encode_name labels))"
    using find_qname_end_encode [OF assms(3), of hdr "[]"] assms(1) by simp
  ultimately show ?thesis using assms(1,4)
    by (simp add: process_query_def try_resolve_def synthesize_a_response_def)
qed

end
