(* ===== verification/Guest_Memory.thy ===== *)
theory Guest_Memory
  imports Prelude
begin

text \<open>
  The memory manager of the guest (\<open>guest-init/src/memory/manager.rs\<close>): it asks the host to shrink
  the balloon under pressure, raises the limits of the containers when the host has released the
  pages, and gives memory back when little is used.  The files of the control group are arguments:
  what a read returns and whether a write succeeds.  Times are natural numbers of nanoseconds.

  Amounts are natural numbers.  Saturating and wrapping arithmetic is written out at the width of the
  source.  The comparison of the \<open>f64\<close> quotient with 0.75 is the exact one: for limits up to
  $2^{51}$ bytes the quotient is at least $2^{-53}$ away from 0.75 when it is not equal, more than
  half a unit in the last place, so that rounding does not change the outcome.  The readings of the
  clock within one call are one argument.
\<close>

section \<open>Constants and state\<close>

definition MIB :: nat where
  "MIB = 1024 * 1024"

definition U64_MAX :: nat where
  "U64_MAX = 2 ^ 64 - 1"

definition INITIAL_STEP_MIB :: nat where
  "INITIAL_STEP_MIB = 32"

definition MAX_STEP_MIB :: nat where
  "MAX_STEP_MIB = 256"

definition KERNEL_BUFFER_MIB :: nat where
  "KERNEL_BUFFER_MIB = 64"

definition HIGH_TO_MAX_GAP_MIB :: nat where
  "HIGH_TO_MAX_GAP_MIB = 4"

definition INFLATION_STEP_MIB :: nat where
  "INFLATION_STEP_MIB = 16"

definition INFLATION_HEADROOM_BYTES :: nat where
  "INFLATION_HEADROOM_BYTES = 8 * 1024 * 1024"

definition INFLATION_COOLDOWN :: duration where
  "INFLATION_COOLDOWN = from_secs 60"

definition INFLATION_STREAK_REQUIRED :: nat where
  "INFLATION_STREAK_REQUIRED = 4"

definition DEFLATION_STALL_DEADLINE :: duration where
  "DEFLATION_STALL_DEADLINE = from_millis 1000"

definition VIRTIO_BALLOON_PAGES_PER_MIB :: nat where
  "VIRTIO_BALLOON_PAGES_PER_MIB = (1024 * 1024) div 4096"

definition saturating_add_u64 :: "nat \<Rightarrow> nat \<Rightarrow> nat" where
  "saturating_add_u64 a b = min (a + b) U64_MAX"

definition wrap_u32 :: "nat \<Rightarrow> nat" where
  "wrap_u32 n = n mod 2 ^ 32"

datatype constraint_reason = BalloonExhausted | DeflationStalled

datatype guest_event =
    ContainerExited string int nat
  | BalloonSet nat
  | TaskError string string
  | MemoryConstrained constraint_reason
  | MemoryConstraintCleared
  | OomKill nat

datatype constraint_state =
    CsNormal
  | CsWaitingForDeflation nat
  | CsConstrained constraint_reason

record memory_manager =
  mm_balloon_amount_mib :: nat
  mm_step_size_mib :: nat
  mm_vm_mem_mib :: nat
  mm_pending_deflation_mib :: nat
  mm_current_cgroup_high :: nat
  mm_current_cgroup_max :: nat
  mm_low_usage_streak :: nat
  mm_inflation_suppressed_until :: "nat option"
  mm_constraint_state :: constraint_state

text \<open>
  The control group during one call: the results of the two reads of \<open>is_pressure_resolved\<close>, of
  the reads of \<open>tick_inflation\<close>, and whether \<open>set_memory_limits\<close> succeeds.
\<close>

record cgroup =
  cg_resolved_current :: "nat option"
  cg_resolved_high :: "nat option"
  cg_current :: "nat option"
  cg_high :: "nat option"
  cg_set_ok :: bool

type_synonym mm_result = "memory_manager \<times> guest_event list"

definition memory_manager_new :: "nat \<Rightarrow> nat \<Rightarrow> memory_manager" where
  "memory_manager_new balloon_mib vm_mem_mib =
     \<lparr>mm_balloon_amount_mib = balloon_mib, mm_step_size_mib = INITIAL_STEP_MIB, mm_vm_mem_mib = vm_mem_mib,
      mm_pending_deflation_mib = 0, mm_current_cgroup_high = 0, mm_current_cgroup_max = 0,
      mm_low_usage_streak = 0, mm_inflation_suppressed_until = None, mm_constraint_state = CsNormal\<rparr>"

section \<open>Operations\<close>

definition initial_limits :: "memory_manager \<Rightarrow> memory_manager \<times> nat \<times> nat" where
  "initial_limits mm =
     (let available_mib = mm_vm_mem_mib mm - mm_balloon_amount_mib mm - KERNEL_BUFFER_MIB;
          max_bytes = available_mib * MIB;
          high_bytes = max_bytes - HIGH_TO_MAX_GAP_MIB * MIB
      in (mm\<lparr>mm_current_cgroup_high := high_bytes, mm_current_cgroup_max := max_bytes\<rparr>, high_bytes, max_bytes))"

definition handle_pressure :: "nat \<Rightarrow> memory_manager \<Rightarrow> mm_result" where
  "handle_pressure now mm =
     (let mm = mm\<lparr>mm_low_usage_streak := 0, mm_inflation_suppressed_until := Some (now + INFLATION_COOLDOWN)\<rparr>
      in if mm_balloon_amount_mib mm = 0
         then if mm_constraint_state mm \<noteq> CsConstrained BalloonExhausted
              then (mm\<lparr>mm_constraint_state := CsConstrained BalloonExhausted\<rparr>, [MemoryConstrained BalloonExhausted])
              else (mm, [])
         else if mm_pending_deflation_mib mm \<ge> mm_step_size_mib mm then (mm, [])
         else let mm = mm\<lparr>mm_step_size_mib :=
                         (if mm_pending_deflation_mib mm > 0
                          then min (wrap_u32 (mm_step_size_mib mm * 2)) MAX_STEP_MIB
                          else INITIAL_STEP_MIB)\<rparr>;
                  step = min (mm_step_size_mib mm) (mm_balloon_amount_mib mm);
                  mm = mm\<lparr>mm_balloon_amount_mib := mm_balloon_amount_mib mm - step,
                          mm_pending_deflation_mib := wrap_u32 (mm_pending_deflation_mib mm + step),
                          mm_constraint_state := CsWaitingForDeflation now\<rparr>
              in (mm, [BalloonSet (mm_balloon_amount_mib mm)]))"

definition is_pressure_resolved :: "cgroup \<Rightarrow> bool" where
  "is_pressure_resolved cg \<longleftrightarrow> unwrap_or (cg_resolved_current cg) U64_MAX < unwrap_or (cg_resolved_high cg) 0"

definition check_constraint_cleared :: "cgroup \<Rightarrow> memory_manager \<Rightarrow> mm_result" where
  "check_constraint_cleared cg mm =
     (case mm_constraint_state mm of
        CsConstrained _ \<Rightarrow>
          if is_pressure_resolved cg then (mm\<lparr>mm_constraint_state := CsNormal\<rparr>, [MemoryConstraintCleared]) else (mm, [])
      | CsWaitingForDeflation _ \<Rightarrow>
          if is_pressure_resolved cg then (mm\<lparr>mm_constraint_state := CsNormal\<rparr>, []) else (mm, [])
      | CsNormal \<Rightarrow> (mm, []))"

definition on_balloon_pages_changed :: "nat \<Rightarrow> nat \<Rightarrow> cgroup \<Rightarrow> memory_manager \<Rightarrow> mm_result" where
  "on_balloon_pages_changed old_pages new_pages cg mm =
     (let old_mib = old_pages div VIRTIO_BALLOON_PAGES_PER_MIB;
          new_mib = new_pages div VIRTIO_BALLOON_PAGES_PER_MIB
      in if new_pages < old_pages
         then let released_mib = old_mib - new_mib;
                  released_bytes = released_mib * MIB;
                  mm = mm\<lparr>mm_pending_deflation_mib := mm_pending_deflation_mib mm - released_mib\<rparr>;
                  new_max = saturating_add_u64 (mm_current_cgroup_max mm) released_bytes;
                  new_high = (if mm_balloon_amount_mib mm = 0 then new_max
                              else saturating_add_u64 (mm_current_cgroup_high mm) released_bytes)
              in if \<not> cg_set_ok cg then (mm, [])
                 else check_constraint_cleared cg
                        (mm\<lparr>mm_current_cgroup_high := new_high, mm_current_cgroup_max := new_max\<rparr>)
         else (mm, []))"

datatype psi_level = PsiSome | PsiFull

definition handle_psi_event :: "psi_level \<Rightarrow> nat \<Rightarrow> memory_manager \<Rightarrow> mm_result" where
  "handle_psi_event level now mm =
     (let mm = mm\<lparr>mm_low_usage_streak := 0, mm_inflation_suppressed_until := Some (now + INFLATION_COOLDOWN)\<rparr>
      in if level = PsiFull then handle_pressure now mm else (mm, []))"

text \<open>The part of \<open>tick_inflation\<close> after the check of the constraint.\<close>

definition try_inflate :: "nat \<Rightarrow> cgroup \<Rightarrow> memory_manager \<Rightarrow> mm_result" where
  "try_inflate now cg mm =
     (if mm_pending_deflation_mib mm > 0 then (mm, [])
      else if (case mm_inflation_suppressed_until mm of Some until \<Rightarrow> now < until | None \<Rightarrow> False) then (mm, [])
      else case cg_current cg of
        None \<Rightarrow> (mm, [])
      | Some current \<Rightarrow>
          (case cg_high cg of
             None \<Rightarrow> (mm, [])
           | Some high \<Rightarrow>
               if high = U64_MAX then (mm, [])
               else if \<not> 4 * current < 3 * high then (mm\<lparr>mm_low_usage_streak := 0\<rparr>, [])
               else
                 let mm = mm\<lparr>mm_low_usage_streak := wrap_u32 (mm_low_usage_streak mm + 1)\<rparr>
                 in if mm_low_usage_streak mm < INFLATION_STREAK_REQUIRED then (mm, [])
                    else
                      let min_high = saturating_add_u64 current INFLATION_HEADROOM_BYTES;
                          new_high = high - INFLATION_STEP_MIB * MIB
                      in if new_high < min_high then (mm\<lparr>mm_low_usage_streak := 0\<rparr>, [])
                         else
                           let new_max = saturating_add_u64 new_high (HIGH_TO_MAX_GAP_MIB * MIB)
                           in if \<not> cg_set_ok cg then (mm, [])
                              else
                                let mm = mm\<lparr>mm_current_cgroup_high := new_high, mm_current_cgroup_max := new_max,
                                            mm_balloon_amount_mib := wrap_u32 (mm_balloon_amount_mib mm + INFLATION_STEP_MIB),
                                            mm_low_usage_streak := 0\<rparr>
                                in (mm, [BalloonSet (mm_balloon_amount_mib mm)])))"

definition tick_inflation :: "nat \<Rightarrow> cgroup \<Rightarrow> memory_manager \<Rightarrow> mm_result" where
  "tick_inflation now cg mm =
     (let (mm, events) =
            (case mm_constraint_state mm of
               CsConstrained _ \<Rightarrow>
                 if is_pressure_resolved cg then (mm\<lparr>mm_constraint_state := CsNormal\<rparr>, [MemoryConstraintCleared]) else (mm, [])
             | _ \<Rightarrow> (mm, []));
          (mm, more) = try_inflate now cg mm
      in (mm, events @ more))"

definition check_deflation_deadline :: "nat \<Rightarrow> cgroup \<Rightarrow> memory_manager \<Rightarrow> mm_result" where
  "check_deflation_deadline now cg mm =
     (case mm_constraint_state mm of
        CsWaitingForDeflation sent_at \<Rightarrow>
          if now - sent_at \<ge> DEFLATION_STALL_DEADLINE
          then if is_pressure_resolved cg then (mm\<lparr>mm_constraint_state := CsNormal\<rparr>, [])
               else (mm\<lparr>mm_constraint_state := CsConstrained DeflationStalled\<rparr>, [MemoryConstrained DeflationStalled])
          else (mm, [])
      | _ \<Rightarrow> (mm, []))"

definition mm_next_deadline :: "memory_manager \<Rightarrow> nat option" where
  "mm_next_deadline mm =
     (case mm_constraint_state mm of
        CsWaitingForDeflation sent_at \<Rightarrow> Some (sent_at + DEFLATION_STALL_DEADLINE)
      | _ \<Rightarrow> None)"

definition handle_oom_kill :: "nat \<Rightarrow> guest_event" where
  "handle_oom_kill count = OomKill count"

section \<open>The task loop\<close>

text \<open>
  What the \<open>select!\<close> of \<open>task.rs\<close> completes with, in the order of its branches, each with what the
  handler reads.  The order in which branches complete is arbitrary.
\<close>

datatype task_input =
    PsiReady psi_level nat
  | InflationTick nat cgroup
  | MemEventsChange nat nat nat
  | BalloonChanged nat nat cgroup
  | BalloonMonitorClosed
  | DeadlineFired nat cgroup

text \<open>
  One turn of the loop: the new state and the events to send, None where the loop returns because the
  monitor's channel is closed.
\<close>

definition select_branch :: "task_input \<Rightarrow> memory_manager \<Rightarrow> mm_result option" where
  "select_branch input mm =
     (case input of
        PsiReady level now \<Rightarrow> Some (handle_psi_event level now mm)
      | InflationTick now cg \<Rightarrow> Some (tick_inflation now cg mm)
      | MemEventsChange high oom_kill now \<Rightarrow>
          Some (let (mm, events) = (if high > 0 then handle_pressure now mm else (mm, []))
                in (mm, events @ (if oom_kill > 0 then [handle_oom_kill oom_kill] else [])))
      | BalloonChanged old_pages new_pages cg \<Rightarrow> Some (on_balloon_pages_changed old_pages new_pages cg mm)
      | BalloonMonitorClosed \<Rightarrow> None
      | DeadlineFired now cg \<Rightarrow> Some (check_deflation_deadline now cg mm))"

text \<open>
  The loop on a sequence of inputs.  The event channel accepts \<open>room\<close> more events before its receiver
  is gone; the first send that fails ends the loop.
\<close>

fun run_inner :: "nat \<Rightarrow> task_input list \<Rightarrow> memory_manager \<Rightarrow> mm_result" where
  "run_inner room [] mm = (mm, [])"
| "run_inner room (i # is) mm =
     (case select_branch i mm of
        None \<Rightarrow> (mm, [])
      | Some (mm, events) \<Rightarrow>
          if length events \<le> room
          then let (mm, more) = run_inner (room - length events) is mm in (mm, events @ more)
          else (mm, take room events))"

section \<open>Accounting\<close>

text \<open>
  The limit of the containers, the balloon and the pages the host has still to release share the
  memory of the machine.  The environment follows the protocol when the host releases at most what
  was asked for, the limits read are those last written, and writing them after a release succeeds.
\<close>

definition follows_protocol :: "memory_manager \<Rightarrow> task_input \<Rightarrow> bool" where
  "follows_protocol mm input =
     (case input of
        InflationTick now cg \<Rightarrow> cg_high cg = None \<or> cg_high cg = Some (mm_current_cgroup_high mm)
      | BalloonChanged old_pages new_pages cg \<Rightarrow>
          new_pages < old_pages \<longrightarrow>
            cg_set_ok cg \<and>
            old_pages div VIRTIO_BALLOON_PAGES_PER_MIB - new_pages div VIRTIO_BALLOON_PAGES_PER_MIB \<le> mm_pending_deflation_mib mm
      | _ \<Rightarrow> True)"

text \<open>A turn that inflates the balloon while the gap between the limits is removed.\<close>

definition regrows :: "memory_manager \<Rightarrow> memory_manager \<Rightarrow> bool" where
  "regrows mm mm' \<longleftrightarrow> mm_current_cgroup_high mm = mm_current_cgroup_max mm \<and>
                      mm_balloon_amount_mib mm < mm_balloon_amount_mib mm'"

fun protocol_run :: "task_input list \<Rightarrow> memory_manager \<Rightarrow> bool" where
  "protocol_run [] mm = True"
| "protocol_run (i # is) mm =
     (follows_protocol mm i \<and> (case select_branch i mm of None \<Rightarrow> True | Some (mm', _) \<Rightarrow> protocol_run is mm'))"

fun regrowths :: "nat \<Rightarrow> task_input list \<Rightarrow> memory_manager \<Rightarrow> nat" where
  "regrowths room [] mm = 0"
| "regrowths room (i # is) mm =
     (case select_branch i mm of
        None \<Rightarrow> 0
      | Some (mm', events) \<Rightarrow>
          (if regrows mm mm' then 1 else 0) +
          (if length events \<le> room then regrowths (room - length events) is mm' else 0))"

definition accounted :: "nat \<Rightarrow> memory_manager \<Rightarrow> bool" where
  "accounted k mm \<longleftrightarrow>
     mm_current_cgroup_max mm + (mm_balloon_amount_mib mm + mm_pending_deflation_mib mm + KERNEL_BUFFER_MIB) * MIB
       = (mm_vm_mem_mib mm + HIGH_TO_MAX_GAP_MIB * k) * MIB \<and>
     (mm_current_cgroup_high mm + HIGH_TO_MAX_GAP_MIB * MIB = mm_current_cgroup_max mm \<or>
      mm_current_cgroup_high mm = mm_current_cgroup_max mm)"

lemmas mm_consts = MIB_def U64_MAX_def KERNEL_BUFFER_MIB_def HIGH_TO_MAX_GAP_MIB_def INFLATION_STEP_MIB_def
  INFLATION_HEADROOM_BYTES_def INITIAL_STEP_MIB_def MAX_STEP_MIB_def saturating_add_u64_def wrap_u32_def

lemma accounted_initial:
  assumes "balloon + KERNEL_BUFFER_MIB + HIGH_TO_MAX_GAP_MIB \<le> vm"
  shows "accounted 0 (fst (initial_limits (memory_manager_new balloon vm)))"
  using assms by (simp add: accounted_def initial_limits_def memory_manager_new_def mm_consts Let_def)

lemma accounted_bounds:
  assumes "accounted k mm" "mm_vm_mem_mib mm + HIGH_TO_MAX_GAP_MIB * k < 2 ^ 31"
  shows "mm_balloon_amount_mib mm + mm_pending_deflation_mib mm < 2 ^ 31"
    and "mm_current_cgroup_max mm < 2 ^ 51"
  using assms by (simp_all add: accounted_def mm_consts)

lemma accounted_cong:
  assumes "accounted k mm"
    and "mm_current_cgroup_max mm' = mm_current_cgroup_max mm" "mm_current_cgroup_high mm' = mm_current_cgroup_high mm"
    and "mm_vm_mem_mib mm' = mm_vm_mem_mib mm"
    and "mm_balloon_amount_mib mm' + mm_pending_deflation_mib mm' = mm_balloon_amount_mib mm + mm_pending_deflation_mib mm"
  shows "accounted k mm'"
  using assms by (simp add: accounted_def)

text \<open>What an operation may do to the accounts: the same machine, and at most one regrowth.\<close>

definition keeps_accounts :: "nat \<Rightarrow> memory_manager \<Rightarrow> memory_manager \<Rightarrow> bool" where
  "keeps_accounts k mm mm' \<longleftrightarrow>
     mm_vm_mem_mib mm' = mm_vm_mem_mib mm \<and> accounted (k + (if regrows mm mm' then 1 else 0)) mm'"

lemma keeps_accounts_quiet:
  assumes "accounted k mm"
    and "mm_current_cgroup_max mm' = mm_current_cgroup_max mm" "mm_current_cgroup_high mm' = mm_current_cgroup_high mm"
    and "mm_vm_mem_mib mm' = mm_vm_mem_mib mm"
    and "mm_balloon_amount_mib mm' + mm_pending_deflation_mib mm' = mm_balloon_amount_mib mm + mm_pending_deflation_mib mm"
    and "mm_balloon_amount_mib mm' \<le> mm_balloon_amount_mib mm"
  shows "keeps_accounts k mm mm'"
  using accounted_cong [OF assms(1-5)] assms(4,6) by (simp add: keeps_accounts_def regrows_def)

lemma handle_pressure_accounts:
  assumes "accounted k mm" "mm_vm_mem_mib mm + HIGH_TO_MAX_GAP_MIB * k < 2 ^ 31"
  shows "keeps_accounts k mm (fst (handle_pressure now mm))"
proof (rule keeps_accounts_quiet [OF assms(1)])
  note b = accounted_bounds(1) [OF assms]
  show "mm_balloon_amount_mib (fst (handle_pressure now mm)) + mm_pending_deflation_mib (fst (handle_pressure now mm))
      = mm_balloon_amount_mib mm + mm_pending_deflation_mib mm"
    using b by (simp add: handle_pressure_def Let_def wrap_u32_def)
qed (simp_all add: handle_pressure_def Let_def)

lemma handle_psi_event_accounts:
  assumes "accounted k mm" "mm_vm_mem_mib mm + HIGH_TO_MAX_GAP_MIB * k < 2 ^ 31"
  shows "keeps_accounts k mm (fst (handle_psi_event level now mm))"
proof -
  let ?mm = "mm\<lparr>mm_low_usage_streak := 0, mm_inflation_suppressed_until := Some (now + INFLATION_COOLDOWN)\<rparr>"
  have "accounted k ?mm" using assms(1) by (simp add: accounted_def)
  then have "keeps_accounts k ?mm (fst (handle_pressure now ?mm))"
    using assms(2) by (intro handle_pressure_accounts) simp_all
  then have "keeps_accounts k mm (fst (handle_pressure now ?mm))" by (simp add: keeps_accounts_def regrows_def)
  moreover have "keeps_accounts k mm ?mm" by (rule keeps_accounts_quiet [OF assms(1)]) simp_all
  ultimately show ?thesis by (simp add: handle_psi_event_def Let_def)
qed

lemma check_deflation_deadline_accounts:
  assumes "accounted k mm"
  shows "keeps_accounts k mm (fst (check_deflation_deadline now cg mm))"
  by (rule keeps_accounts_quiet [OF assms])
    (simp_all add: check_deflation_deadline_def split: constraint_state.split)

lemma check_constraint_cleared_fields [simp]:
  "mm_balloon_amount_mib (fst (check_constraint_cleared cg mm)) = mm_balloon_amount_mib mm"
  "mm_pending_deflation_mib (fst (check_constraint_cleared cg mm)) = mm_pending_deflation_mib mm"
  "mm_current_cgroup_high (fst (check_constraint_cleared cg mm)) = mm_current_cgroup_high mm"
  "mm_current_cgroup_max (fst (check_constraint_cleared cg mm)) = mm_current_cgroup_max mm"
  "mm_vm_mem_mib (fst (check_constraint_cleared cg mm)) = mm_vm_mem_mib mm"
  by (simp_all add: check_constraint_cleared_def split: constraint_state.split)

lemma on_balloon_pages_changed_accounts:
  assumes a: "accounted k mm" and s: "mm_vm_mem_mib mm + HIGH_TO_MAX_GAP_MIB * k < 2 ^ 31"
    and f: "follows_protocol mm (BalloonChanged old new cg)"
  shows "keeps_accounts k mm (fst (on_balloon_pages_changed old new cg mm))"
proof (cases "new < old")
  case False
  then show ?thesis by (simp add: on_balloon_pages_changed_def Let_def keeps_accounts_quiet [OF a])
next
  case True
  define r where "r = old div VIRTIO_BALLOON_PAGES_PER_MIB - new div VIRTIO_BALLOON_PAGES_PER_MIB"
  have r: "r \<le> mm_pending_deflation_mib mm" and ok: "cg_set_ok cg"
    using f True by (simp_all add: follows_protocol_def r_def)
  have m: "mm_current_cgroup_max mm + r * MIB \<le> U64_MAX" "mm_current_cgroup_high mm + r * MIB \<le> U64_MAX"
    using a s r by (auto simp: accounted_def mm_consts)
  have e: "fst (on_balloon_pages_changed old new cg mm) = fst (check_constraint_cleared cg
      (mm\<lparr>mm_pending_deflation_mib := mm_pending_deflation_mib mm - r,
          mm_current_cgroup_high := (if mm_balloon_amount_mib mm = 0 then mm_current_cgroup_max mm + r * MIB
                                     else mm_current_cgroup_high mm + r * MIB),
          mm_current_cgroup_max := mm_current_cgroup_max mm + r * MIB\<rparr>))"
    using m True ok by (simp add: on_balloon_pages_changed_def Let_def saturating_add_u64_def flip: r_def)
  show ?thesis
    using a r unfolding e by (auto simp: keeps_accounts_def regrows_def accounted_def mm_consts)
qed

lemma try_inflate_accounts:
  assumes a: "accounted k mm" and s: "mm_vm_mem_mib mm + HIGH_TO_MAX_GAP_MIB * k < 2 ^ 31"
    and h: "cg_high cg = None \<or> cg_high cg = Some (mm_current_cgroup_high mm)"
  shows "keeps_accounts k mm (fst (try_inflate now cg mm))"
proof -
  have q: "keeps_accounts k mm mm" "\<And>n. keeps_accounts k mm (mm\<lparr>mm_low_usage_streak := n\<rparr>)"
    by (rule keeps_accounts_quiet [OF a]; simp)+
  note b = accounted_bounds [OF a s]
  have inflate: "keeps_accounts k mm
      (mm\<lparr>mm_current_cgroup_high := mm_current_cgroup_high mm - INFLATION_STEP_MIB * MIB,
          mm_current_cgroup_max := saturating_add_u64 (mm_current_cgroup_high mm - INFLATION_STEP_MIB * MIB) (HIGH_TO_MAX_GAP_MIB * MIB),
          mm_balloon_amount_mib := wrap_u32 (mm_balloon_amount_mib mm + INFLATION_STEP_MIB), mm_low_usage_streak := 0\<rparr>)"
    if "\<not> mm_current_cgroup_high mm - INFLATION_STEP_MIB * MIB < saturating_add_u64 current INFLATION_HEADROOM_BYTES" for current
    using a b that by (auto simp: keeps_accounts_def regrows_def accounted_def mm_consts)
  show ?thesis
    using h q inflate by (auto simp: try_inflate_def Let_def split: option.split)
qed

lemma tick_inflation_accounts:
  assumes a: "accounted k mm" and s: "mm_vm_mem_mib mm + HIGH_TO_MAX_GAP_MIB * k < 2 ^ 31"
    and f: "follows_protocol mm (InflationTick now cg)"
  shows "keeps_accounts k mm (fst (tick_inflation now cg mm))"
proof -
  let ?n = "mm\<lparr>mm_constraint_state := CsNormal\<rparr>"
  have "keeps_accounts k mm (fst (try_inflate now cg mm))"
    using f by (intro try_inflate_accounts [OF a s]) (simp add: follows_protocol_def)
  moreover have "accounted k ?n" using a by (simp add: accounted_def)
  then have "keeps_accounts k ?n (fst (try_inflate now cg ?n))"
    using s f by (intro try_inflate_accounts) (simp_all add: follows_protocol_def)
  then have "keeps_accounts k mm (fst (try_inflate now cg ?n))" by (simp add: keeps_accounts_def regrows_def)
  ultimately show ?thesis
    by (simp add: tick_inflation_def Let_def case_prod_beta split: constraint_state.split)
qed

lemma select_branch_accounts:
  assumes "accounted k mm" "mm_vm_mem_mib mm + HIGH_TO_MAX_GAP_MIB * k < 2 ^ 31"
    and "follows_protocol mm i" "select_branch i mm = Some (mm', events)"
  shows "keeps_accounts k mm mm'"
proof -
  have q: "keeps_accounts k mm mm" by (rule keeps_accounts_quiet [OF assms(1)]) simp_all
  show ?thesis
  proof (cases i)
    case (PsiReady level now)
    then show ?thesis
      using handle_psi_event_accounts [OF assms(1,2), of level now] assms(4) by (simp add: select_branch_def)
  next
    case (InflationTick now cg)
    then show ?thesis
      using tick_inflation_accounts [OF assms(1,2), of now cg] assms(3,4) by (simp add: select_branch_def)
  next
    case (MemEventsChange high oom now)
    then show ?thesis
      using handle_pressure_accounts [OF assms(1,2), of now] assms(4) q
      by (auto simp: select_branch_def Let_def case_prod_beta split: if_splits)
  next
    case (BalloonChanged old new cg)
    then show ?thesis
      using on_balloon_pages_changed_accounts [OF assms(1,2), of old new cg] assms(3,4) by (simp add: select_branch_def)
  next
    case BalloonMonitorClosed
    then show ?thesis using assms(4) by (simp add: select_branch_def)
  next
    case (DeadlineFired now cg)
    then show ?thesis
      using check_deflation_deadline_accounts [OF assms(1), of now cg] assms(4) by (simp add: select_branch_def)
  qed
qed

lemma run_inner_accounts:
  assumes "accounted k mm" "protocol_run is mm"
    and "mm_vm_mem_mib mm + HIGH_TO_MAX_GAP_MIB * (k + length is) < 2 ^ 31"
  shows "accounted (k + regrowths room is mm) (fst (run_inner room is mm)) \<and>
         mm_vm_mem_mib (fst (run_inner room is mm)) = mm_vm_mem_mib mm"
  using assms
proof (induction "is" arbitrary: k room mm)
  case (Cons i "is")
  show ?case
  proof (cases "select_branch i mm")
    case None
    then show ?thesis using Cons.prems by simp
  next
    case (Some r)
    obtain mm' events where r: "select_branch i mm = Some (mm', events)" using Some by (cases r) auto
    let ?k = "k + (if regrows mm mm' then 1 else 0)"
    have "keeps_accounts k mm mm'"
      using Cons.prems r
      by (intro select_branch_accounts [where i = i and events = events]) (simp_all add: HIGH_TO_MAX_GAP_MIB_def)
    then have a: "accounted ?k mm'" and v: "mm_vm_mem_mib mm' = mm_vm_mem_mib mm"
      by (simp_all add: keeps_accounts_def)
    have p: "protocol_run is mm'" using Cons.prems(2) r by simp
    have "mm_vm_mem_mib mm' + HIGH_TO_MAX_GAP_MIB * (?k + length is) < 2 ^ 31"
      using Cons.prems(3) v by (simp add: HIGH_TO_MAX_GAP_MIB_def)
    from Cons.IH [OF a p this, of "room - length events"]
    show ?thesis using a v r by (simp add: Let_def case_prod_beta ac_simps)
  qed
qed simp

text \<open>
  C16. As long as the host releases no more than was asked for and the control group keeps the limits
  written to it, the limit of the containers, the balloon, the pages still to be released and the
  buffer of the kernel add up to the memory of the machine, plus 4 MiB for every time the balloon
  was inflated while the gap between the two limits was removed.\<close>

theorem memory_accounts:
  assumes "balloon + KERNEL_BUFFER_MIB + HIGH_TO_MAX_GAP_MIB \<le> vm"
    and "vm + HIGH_TO_MAX_GAP_MIB * length is < 2 ^ 31"
    and "mm = fst (initial_limits (memory_manager_new balloon vm))"
    and "protocol_run is mm"
    and "run_inner room is mm = (mm', events)"
  shows "mm_current_cgroup_max mm' + (mm_balloon_amount_mib mm' + mm_pending_deflation_mib mm' + KERNEL_BUFFER_MIB) * MIB
    = (vm + HIGH_TO_MAX_GAP_MIB * regrowths room is mm) * MIB"
proof -
  have v: "mm_vm_mem_mib mm = vm" by (simp add: assms(3) initial_limits_def memory_manager_new_def Let_def)
  have "accounted (0 + regrowths room is mm) (fst (run_inner room is mm)) \<and>
      mm_vm_mem_mib (fst (run_inner room is mm)) = mm_vm_mem_mib mm"
    using assms(1,2,4) v by (intro run_inner_accounts) (simp_all add: assms(3) accounted_initial)
  then show ?thesis using assms(5) v by (simp add: accounted_def)
qed

text \<open>
  A machine of 512 MiB with a balloon of 16 MiB: the balloon is deflated, inflated again after a
  minute of low usage, and deflated a second time.
\<close>

definition quiet_cgroup :: "nat \<Rightarrow> cgroup" where
  "quiet_cgroup high_mib =
     \<lparr>cg_resolved_current = Some MIB, cg_resolved_high = Some (high_mib * MIB), cg_current = Some MIB,
      cg_high = Some (high_mib * MIB), cg_set_ok = True\<rparr>"

definition balloon_cycle :: "task_input list" where
  "balloon_cycle =
     [MemEventsChange 1 0 0, BalloonChanged 4096 0 (quiet_cgroup 448),
      InflationTick (from_secs 61) (quiet_cgroup 448), InflationTick (from_secs 66) (quiet_cgroup 448),
      InflationTick (from_secs 71) (quiet_cgroup 448), InflationTick (from_secs 76) (quiet_cgroup 448),
      MemEventsChange 1 0 (from_secs 80), BalloonChanged 4096 0 (quiet_cgroup 448)]"

definition cycle_start :: memory_manager where
  "cycle_start = fst (initial_limits (memory_manager_new 16 512))"

lemmas cycle_eval = balloon_cycle_def cycle_start_def quiet_cgroup_def initial_limits_def memory_manager_new_def
  mm_consts from_secs_def INFLATION_COOLDOWN_def INFLATION_STREAK_REQUIRED_def VIRTIO_BALLOON_PAGES_PER_MIB_def
  select_branch_def handle_pressure_def on_balloon_pages_changed_def check_constraint_cleared_def
  is_pressure_resolved_def tick_inflation_def try_inflate_def follows_protocol_def regrows_def

lemma balloon_cycle_follows: "protocol_run balloon_cycle cycle_start"
  by (simp add: cycle_eval)

lemma balloon_cycle_regrowths: "regrowths 10 balloon_cycle cycle_start = 1"
  by (simp add: cycle_eval)

text \<open>
  After the cycle the limit is 452 MiB although the machine has 512 MiB, of which 64 MiB are the
  buffer of the kernel: the inflation took 16 MiB from \<open>memory.high\<close>, which was equal to
  \<open>memory.max\<close>, and put \<open>memory.max\<close> 4 MiB above the result.
\<close>

lemma balloon_cycle_exceeds:
  "mm_current_cgroup_max (fst (run_inner 10 balloon_cycle cycle_start)) = 452 * MIB \<and>
   mm_vm_mem_mib cycle_start - KERNEL_BUFFER_MIB = 448"
  by (simp add: cycle_eval)

lemma memory_accounts_witness:
  "(let mm' = fst (run_inner 10 balloon_cycle cycle_start)
    in mm_current_cgroup_max mm' + (mm_balloon_amount_mib mm' + mm_pending_deflation_mib mm' + KERNEL_BUFFER_MIB) * MIB
       = (512 + HIGH_TO_MAX_GAP_MIB * 1) * MIB)"
proof -
  obtain mm' events where r: "run_inner 10 balloon_cycle cycle_start = (mm', events)" by (cases "run_inner 10 balloon_cycle cycle_start")
  have "length balloon_cycle = 8" by (simp add: balloon_cycle_def)
  then show ?thesis
    using memory_accounts [where balloon = 16 and vm = 512 and mm = cycle_start, OF _ _ _ balloon_cycle_follows r]
      balloon_cycle_regrowths r
    by (simp add: KERNEL_BUFFER_MIB_def HIGH_TO_MAX_GAP_MIB_def cycle_start_def)
qed

section \<open>What the host is told\<close>

text \<open>Whether the last thing the host was told is that memory is constrained.\<close>

fun told_constrained :: "bool \<Rightarrow> guest_event list \<Rightarrow> bool" where
  "told_constrained b [] = b"
| "told_constrained b (MemoryConstrained _ # es) = told_constrained True es"
| "told_constrained b (MemoryConstraintCleared # es) = told_constrained False es"
| "told_constrained b (_ # es) = told_constrained b es"

fun clears_justified :: "bool \<Rightarrow> guest_event list \<Rightarrow> bool" where
  "clears_justified b [] = True"
| "clears_justified b (e # es) =
     ((e = MemoryConstraintCleared \<longrightarrow> b) \<and> clears_justified (told_constrained b [e]) es)"

definition is_constrained :: "memory_manager \<Rightarrow> bool" where
  "is_constrained mm = (case mm_constraint_state mm of CsConstrained _ \<Rightarrow> True | _ \<Rightarrow> False)"

lemma told_constrained_append: "told_constrained b (xs @ ys) = told_constrained (told_constrained b xs) ys"
  by (induction b xs rule: told_constrained.induct) simp_all

lemma told_constrained_Cons: "told_constrained b (e # es) = told_constrained (told_constrained b [e]) es"
  using told_constrained_append [of b "[e]" es] by simp

lemma clears_justified_append:
  "clears_justified b (xs @ ys) \<longleftrightarrow> clears_justified b xs \<and> clears_justified (told_constrained b xs) ys"
proof (induction xs arbitrary: b)
  case (Cons e xs)
  show ?case by (simp add: Cons.IH told_constrained_Cons [of b e xs])
qed simp

lemma clears_justified_take: "clears_justified b es \<Longrightarrow> clears_justified b (take n es)"
  by (metis append_take_drop_id clears_justified_append)

text \<open>The events of an operation, sent in a state the host knows of, keep the host informed.\<close>

definition informs :: "memory_manager \<Rightarrow> mm_result \<Rightarrow> bool" where
  "informs mm r \<longleftrightarrow>
     (\<forall>b. (is_constrained mm \<longrightarrow> b) \<longrightarrow>
       clears_justified b (snd r) \<and> (is_constrained (fst r) \<longrightarrow> told_constrained b (snd r)))"

lemma informs_handle_pressure: "informs mm (handle_pressure now mm)"
  by (simp add: informs_def handle_pressure_def is_constrained_def Let_def)

lemma informs_handle_psi_event: "informs mm (handle_psi_event level now mm)"
  by (simp add: informs_def handle_psi_event_def handle_pressure_def is_constrained_def Let_def)

lemma informs_check_constraint_cleared: "informs mm (check_constraint_cleared cg mm)"
  by (simp add: informs_def check_constraint_cleared_def is_constrained_def split: constraint_state.split)

lemma informs_on_balloon_pages_changed: "informs mm (on_balloon_pages_changed old new cg mm)"
  by (simp add: informs_def on_balloon_pages_changed_def check_constraint_cleared_def is_constrained_def Let_def
      split: constraint_state.split)

lemma informs_check_deflation_deadline: "informs mm (check_deflation_deadline now cg mm)"
  by (simp add: informs_def check_deflation_deadline_def is_constrained_def split: constraint_state.split)

lemma try_inflate_events:
  "mm_constraint_state (fst (try_inflate now cg mm)) = mm_constraint_state mm \<and>
   (snd (try_inflate now cg mm) = [] \<or> (\<exists>n. snd (try_inflate now cg mm) = [BalloonSet n]))"
  by (simp add: try_inflate_def Let_def split: option.split)

lemma informs_tick_inflation: "informs mm (tick_inflation now cg mm)"
  using try_inflate_events [of now cg mm] try_inflate_events [of now cg "mm\<lparr>mm_constraint_state := CsNormal\<rparr>"]
  by (auto simp: informs_def tick_inflation_def is_constrained_def case_prod_beta Let_def split: constraint_state.split)

lemma informs_mem_events:
  assumes "informs mm (mm', events)"
  shows "informs mm (mm', events @ (if 0 < n then [handle_oom_kill n] else []))"
  using assms by (simp add: informs_def handle_oom_kill_def clears_justified_append told_constrained_append)

lemma informs_none: "informs mm (mm, [])"
  by (simp add: informs_def)

lemma informs_select_branch:
  assumes "select_branch i mm = Some r"
  shows "informs mm r"
proof (cases i)
  case (MemEventsChange high oom now)
  obtain mm' events where h: "handle_pressure now mm = (mm', events)" by (cases "handle_pressure now mm")
  show ?thesis
    using assms MemEventsChange informs_mem_events [OF informs_none, of mm oom]
      informs_mem_events [OF informs_handle_pressure [of mm now, unfolded h], of oom]
    by (cases "0 < high") (simp_all add: select_branch_def h)
next
  case (PsiReady level now)
  then show ?thesis using assms informs_handle_psi_event [of mm level now] by (simp add: select_branch_def)
next
  case (InflationTick now cg)
  then show ?thesis using assms informs_tick_inflation [of mm now cg] by (simp add: select_branch_def)
next
  case (BalloonChanged old new cg)
  then show ?thesis using assms informs_on_balloon_pages_changed [of mm old new cg] by (simp add: select_branch_def)
next
  case BalloonMonitorClosed
  then show ?thesis using assms by (simp add: select_branch_def)
next
  case (DeadlineFired now cg)
  then show ?thesis using assms informs_check_deflation_deadline [of mm now cg] by (simp add: select_branch_def)
qed

lemma run_inner_clears_justified:
  "(is_constrained mm \<longrightarrow> b) \<Longrightarrow> clears_justified b (snd (run_inner room is mm))"
proof (induction "is" arbitrary: b room mm)
  case (Cons i "is")
  show ?case
  proof (cases "select_branch i mm")
    case (Some r)
    obtain mm' events where r: "r = (mm', events)" by (cases r)
    have "informs mm (mm', events)" by (rule informs_select_branch [where i = i]) (simp add: Some r)
    then have j: "clears_justified b events" and t: "is_constrained mm' \<longrightarrow> told_constrained b events"
      using Cons.prems by (simp_all add: informs_def)
    show ?thesis
      using Cons.IH [OF t, of "room - length events"] j clears_justified_take [OF j, of room] Some r
      by (simp add: Let_def case_prod_beta clears_justified_append)
  qed simp
qed simp

text \<open>
  C26. Whatever the sequence of inputs and wherever the event channel closes, the manager only tells
  the host that a constraint has cleared when the host was told that memory is constrained and not
  yet that it has cleared.\<close>

theorem cleared_only_after_constrained:
  "clears_justified False (snd (run_inner room is (fst (initial_limits (memory_manager_new balloon vm)))))"
  by (rule run_inner_clears_justified)
    (simp add: is_constrained_def initial_limits_def memory_manager_new_def Let_def)

text \<open>
  The converse fails.  Pressure in a constrained state with a balloon left overwrites the state by
  \<open>WaitingForDeflation\<close>, and when the release resolves the pressure no \<open>MemoryConstraintCleared\<close> is
  sent: the host is left with the constraint although the state is normal.
\<close>

definition tight_cgroup :: cgroup where
  "tight_cgroup =
     \<lparr>cg_resolved_current = Some (200 * MIB), cg_resolved_high = Some (100 * MIB), cg_current = Some (200 * MIB),
      cg_high = Some (100 * MIB), cg_set_ok = True\<rparr>"

definition stalled_then_released :: "task_input list" where
  "stalled_then_released =
     [MemEventsChange 1 0 0, DeadlineFired (from_secs 1) tight_cgroup, BalloonChanged 65536 61440 tight_cgroup,
      MemEventsChange 1 0 (from_secs 2), BalloonChanged 61440 40960 (quiet_cgroup 300)]"

lemma constraint_never_cleared:
  "let (mm, events) = run_inner 10 stalled_then_released (fst (initial_limits (memory_manager_new 256 512)))
   in told_constrained False events \<and> mm_constraint_state mm = CsNormal"
  by (simp add: stalled_then_released_def tight_cgroup_def check_deflation_deadline_def DEFLATION_STALL_DEADLINE_def
      from_millis_def cycle_eval)

end
