(* ===== verification/Spec2Isabelle.thy ===== *)
theory Spec2Isabelle
  imports Service_Sm Workload_Props Timers Ip_Alloc Orchestrator_Props Fabric_Inv Tcp_Activator Http2_Props Postgres_Props Dns Guest_Memory
begin

text \<open>
  A verification development for distvirt, a system that runs container workloads in virtual machines
  and starts them on demand.  Paths are relative to \<open>src/\<close>.

  \<^bold>\<open>The program.\<close>  An orchestrator (\<open>crates/orchestrator\<close>) keeps, for every namespace, state machines
  for workloads, pods, endpoints and services.  They exchange signals through a router
  (\<open>crates/sm-router\<close>).  A scheduler shared by all namespaces places pods on workers.  A worker
  (\<open>crates/worker\<close>) connects the pods of a namespace by a packet fabric, which translates service
  addresses, keeps frames for backends that do not run yet, and asks activators (\<open>activators\<close>) what
  the traffic needs.  Inside a virtual machine, \<open>crates/guest-init\<close> shares the memory between the
  containers and a balloon.

  \<^bold>\<open>Conventions.\<close>  Machine integers are words where the code relies on their width; amounts in
  \<open>Guest_Memory\<close> are natural numbers with wrap-around and saturation written out.  A \<open>HashMap\<close> is an
  association list with one entry per key and iterates in the order of the list, a \<open>BTreeMap\<close> an
  ordered one.  Instants and durations are natural numbers of nanoseconds.  An operation takes the
  state and returns the new one with what it sends, starts or logs as a list of effects in order.
  Errors and loops that do not return are values of an option or a result type.  Code outside the
  sources is an argument of the definitions that use it.

  \<^bold>\<open>Shared layer.\<close>
  \<^item> \<open>Prelude\<close>: machine types, idioms of the Rust library, lemmas on lists and options.
  \<^item> \<open>Utf8\<close>: decoding of strings, white space and ASCII case.
  \<^item> \<open>Protocol_Types\<close> (\<open>worker-protocol/src/types.rs\<close>): identifiers, descriptions of pods, networks
    and endpoints.
  \<^item> \<open>Router_Core\<close> (\<open>sm-router/src/edge_map.rs\<close>, \<open>lib.rs\<close>): edge map, identifiers, incremental
    aggregation, manual propagation.  The locale \<open>edge_store\<close> is the contract of the edge map, which
    implements a set of edges in both directions.  The locale \<open>delta_consumer\<close> shows that replaying the
    differences an aggregator reports reproduces its source; the timer wheel interprets it.
  \<^item> \<open>Sm_Types\<close> (\<open>sm/mod.rs\<close>): signals, inputs and aggregators of the namespace router.

  \<^bold>\<open>State machines\<close> (\<open>orchestrator/src/sm\<close>).  Each theory has the state as a record, one definition per
  handler, the published signals as an explicit context, and reachability as an inductive relation.
  \<^item> \<open>Pod_Sm\<close>: what is published agrees with the state, terminal states are final, timers end the
    states that wait, and a pod is removed exactly when it is terminal and has no owner.
  \<^item> \<open>Endpoint_Sm\<close>, \<open>Service_Sm\<close>: the state follows from readiness and demand, demand ends only for the
    documented reasons, and a service has one endpoint.
  \<^item> \<open>Workload_Sm\<close>, \<open>Workload_Props\<close>: ownership of pods and artifacts, agreement of what is published,
    a settled workload has a pod exactly when it wants one, suspension, retries, stale pods.

  \<^bold>\<open>Namespace services and orchestrator.\<close>
  \<^item> \<open>Timers\<close> (\<open>adapter/timer\<close>, \<open>core/namespace/timer_wheel.rs\<close>): the wheel mirrors the wanted timers
    and fires exactly those that are due.
  \<^item> \<open>Ip_Alloc\<close> (\<open>ip_alloc.rs\<close>, \<open>wg_peers.rs\<close>): addresses are distinct and kept, by the locale
    \<open>address_pool\<close> interpreted for both allocators; when a request is refused; the reserve for peers
    does not bound them.
  \<^item> \<open>Scheduler\<close> (\<open>core/orchestrator/scheduler\<close>, \<open>core/pressure.rs\<close>): no request waits while a worker
    could take it, decisions replay to the table of grants, the choice of a worker is the best one.
  \<^item> \<open>Orchestrator\<close>, \<open>Orchestrator_Props\<close> (\<open>core/orchestrator\<close>): routing between the parts ends, the
    scheduler sees the tracked workers, names, namespaces and network segments stay consistent.

  \<^bold>\<open>Worker fabric\<close> (\<open>worker/src/packet\<close>, \<open>worker/src/fabric\<close>).
  \<^item> \<open>Packet\<close>: frames and checksums; incremental updates agree with recomputing the checksum.
  \<^item> \<open>Flow_Track\<close>: address translation table and flow tracker, which implements one automaton per
    connection.
  \<^item> \<open>Endpoint_Table\<close>, \<open>Forwarding\<close>: the table of endpoints with buffers and activators, and the path
    of a frame through it.
  \<^item> \<open>Fabric_Props\<close>, \<open>Fabric_Inv\<close>: translation there and back, where a frame may go, the end of
    dispatch, the invariant of every reachable fabric, the view a synchronisation establishes, and
    the order of buffered frames.  The locale \<open>frame_path\<close> carries a relation on fabrics through the
    whole path and is interpreted for the routes and for the invariant.
  \<^item> \<open>Dns\<close> (\<open>fabric/gateway/dns.rs\<close> and the registry in \<open>worker/namespace.rs\<close>): answers for
    registered names, and the registry as a map.

  \<^bold>\<open>Activators.\<close>  \<open>Activator_Types\<close> has the interface (\<open>activator-types\<close>), \<open>Activator_Lib\<close> the loop over
  a receive buffer and two contracts: \<open>framing\<close>, from which cutting a byte stream into chunks does not
  matter, and \<open>need_contract\<close>, from which the last reported need for a backend is that of the state.
  \<^item> \<open>Tcp_Activator\<close>: bounded memory, replay of the first packet of every flow.
  \<^item> \<open>Http2\<close>, \<open>Http2_Props\<close>: frame round trip, independence of chunks, order of the client's frames,
    need for a backend.
  \<^item> \<open>Postgres\<close>, \<open>Postgres_Props\<close>: bytes of the startup phase, health checks, transaction status, need
    for a backend.

  \<^bold>\<open>Guest.\<close>  \<open>Guest_Memory\<close> (\<open>guest-init/src/memory/manager.rs\<close>, \<open>task.rs\<close>): the limits, the balloon and
  the memory of the machine stay accounted for, and constraints are cleared only after they were
  reported.

  \<^bold>\<open>Bounds and fuel.\<close>
  \<^item> Loops over a receive buffer have the length of the buffer as fuel; every turn shortens it and
    \<open>drain_fuel\<close> shows that more fuel gives the same result.
  \<^item> \<open>dispatch_frame\<close> is bounded by the depth of replays; two levels suffice when activators replay
    frames with a header and no service is the backend of a service (\<open>dispatch_terminates\<close>).  Without
    that assumption the code may not return, and results are stated for the runs that do.
  \<^item> The routing between worker states and scheduler carries a bound on its depth that no input
    reaches (\<open>orchestrator_routing_ends\<close>).
  \<^item> The search for a segment has $2^{16}$ steps, one per segment: it fails exactly when all are taken,
    where the code does not return.
  \<^item> The memory accounts assume less than $2^{31}$ MiB, which excludes overflow.

  \<^bold>\<open>Not modelled.\<close>
  \<^item> The router the macro of \<open>crates/sm-router-macros\<close> generates, and with it the driver
    \<open>core/namespace/inner.rs\<close>: the generated code is not part of the sources.  The state machines and
    aggregators it connects are modelled one by one, so that no theorem speaks of a whole namespace.
  \<^item> The adapters of the orchestrator other than the timers: further instances of the incremental
    aggregation of \<open>Router_Core\<close>, not written out.
  \<^item> Wrappers of external libraries: the TCP stack (\<open>stream_manager.rs\<close>, the gateway), encryption
    (tunnels, WireGuard), the WASM runtime, protobuf conversion.
  \<^item> Processes, files and devices: virtual machine monitors, images, host network, the worker's
    supervisor, the rest of \<open>guest-init\<close>.
  \<^item> Shells, gRPC, log bus, command line, client and SDK; tracing and model checking support of the
    router; the raw memory of \<open>untyped-vec\<close>; test activators and generated bindings.
  \<^item> The interleaving of asynchronous tasks within one operation: a handler is one step.
\<close>

end
